(* ===== verification/Prelude.thy ===== *)
theory Prelude
  imports Main "HOL-Library.Word"
begin

text \<open>
  What every component shares: the fixed-width integer types of the code, the results of a
  C++ operation (a value, an exception that was thrown, or undefined behaviour, always together
  with the state left behind), little-endian encoding of integers, and slices and in-place
  overwrites of byte regions.
\<close>

named_theorems slice_simps \<open>reading a slice of a byte region after an overwrite\<close>
named_theorems prog_simps \<open>running the program combinators\<close>
named_theorems prog_invert \<open>what a run that returned normally went through\<close>

section \<open>Integer types\<close>

type_synonym u8 = "8 word"
type_synonym u16 = "16 word"
type_synonym u24 = "24 word"
type_synonym u32 = "32 word"
type_synonym u64 = "64 word"
type_synonym bytes = "u8 list"

text \<open>A conversion to a wider unsigned type keeps the value.\<close>

lemma unat_ucast_up:
  fixes w :: "'a::len word"
  assumes "LENGTH('a) \<le> LENGTH('b::len)"
  shows "unat (ucast w :: 'b word) = unat w"
proof -
  have "unat w < 2 ^ LENGTH('b)"
    by (rule less_le_trans [OF unsigned_less power_increasing [OF assms]]) simp
  then show ?thesis by (simp add: unsigned_ucast_eq take_bit_nat_eq_self)
qed

lemma ucast_up_inj:
  fixes w v :: "'a::len word"
  assumes "LENGTH('a) \<le> LENGTH('b::len)"
  shows "(ucast w :: 'b word) = ucast v \<longleftrightarrow> w = v"
  using unat_ucast_up [OF assms, of w] unat_ucast_up [OF assms, of v]
  by (metis unsigned_word_eqI)

lemma unat_word_of_nat_lt: "n < 2 ^ LENGTH('a::len) \<Longrightarrow> unat (word_of_nat n :: 'a word) = n"
  by (simp add: unat_of_nat)

section \<open>Faults and programs\<close>

text \<open>
  One constructor for each place under src/ that throws, with the numbers its message prints;
  \<open>LibraryError\<close> stands for any \<open>std::exception\<close> thrown by a library, \<open>UnknownError\<close>
  for a thrown object of any other type.
\<close>

datatype exn =
    ProposedQueueTooBig nat nat
  | OnlyErased nat
  | OnlyWroteHeader nat
  | HeaderReadShort nat nat
  | ReadPtrWriteShort nat nat
  | BmcFlagsWriteShort nat nat
  | RelativeOffsetTooBig nat nat
  | LengthTooBig nat nat
  | QueueReadShort nat nat
  | WrappedReadShort nat nat
  | UeReadShort nat nat
  | ChecksumNotZero u8
  | WritePtrTooBig nat nat
  | ReadPtrTooBig nat nat
  | PointersDiffer nat nat
  | QueueSizeMismatch nat nat
  | UeRegionSizeMismatch nat nat
  | UeLogCorrupt nat
  | LibraryError string
  | UnknownError

text \<open>Undefined behaviour is a fault of its own: no \<open>catch\<close> clause sees it.\<close>

datatype fault = Exn exn | Undefined

text \<open>
  An operation on an object of state \<open>'s\<close>: the result or the fault, and the state at that
  point. State changes made before a \<open>throw\<close> persist, as they do in the code.
\<close>

type_synonym ('s, 'a) prog = "'s \<Rightarrow> (fault + 'a) \<times> 's"

definition returnM :: "'a \<Rightarrow> ('s, 'a) prog" where
  "returnM x s = (Inr x, s)"

definition throwM :: "exn \<Rightarrow> ('s, 'a) prog" where
  "throwM e s = (Inl (Exn e), s)"

definition undefinedM :: "('s, 'a) prog" where
  "undefinedM s = (Inl Undefined, s)"

definition bindM :: "('s, 'a) prog \<Rightarrow> ('a \<Rightarrow> ('s, 'b) prog) \<Rightarrow> ('s, 'b) prog" where
  "bindM m k s = (case m s of (Inl e, t) \<Rightarrow> (Inl e, t) | (Inr x, t) \<Rightarrow> k x t)"

definition getM :: "('s \<Rightarrow> 'a) \<Rightarrow> ('s, 'a) prog" where
  "getM f s = (Inr (f s), s)"

definition modifyM :: "('s \<Rightarrow> 's) \<Rightarrow> ('s, unit) prog" where
  "modifyM f s = (Inr (), f s)"

text \<open>A call on a member object: \<open>get\<close> reads the member, \<open>put\<close> stores it back.\<close>

definition memberM :: "('s \<Rightarrow> 'm) \<Rightarrow> ('m \<Rightarrow> 's \<Rightarrow> 's) \<Rightarrow> ('m, 'a) prog \<Rightarrow> ('s, 'a) prog" where
  "memberM get put m s = (case m (get s) of (r, t) \<Rightarrow> (r, put t s))"

text \<open>\<open>try { m } catch (const std::exception&) { h } catch (...) { h }\<close>\<close>

definition tryM :: "('s, 'a) prog \<Rightarrow> (exn \<Rightarrow> ('s, 'a) prog) \<Rightarrow> ('s, 'a) prog" where
  "tryM m h s = (case m s of (Inl (Exn e), t) \<Rightarrow> h e t | (Inl Undefined, t) \<Rightarrow> (Inl Undefined, t)
     | (Inr x, t) \<Rightarrow> (Inr x, t))"

lemma returnM_run [prog_simps]: "returnM x s = (Inr x, s)"
  by (simp add: returnM_def)

lemma throwM_run [prog_simps]: "throwM e s = (Inl (Exn e), s)"
  by (simp add: throwM_def)

lemma undefinedM_run [prog_simps]: "undefinedM s = (Inl Undefined, s)"
  by (simp add: undefinedM_def)

lemma getM_run [prog_simps]: "getM f s = (Inr (f s), s)"
  by (simp add: getM_def)

lemma modifyM_run [prog_simps]: "modifyM f s = (Inr (), f s)"
  by (simp add: modifyM_def)

lemma bindM_Inr: "m s = (Inr x, t) \<Longrightarrow> bindM m k s = k x t"
  by (simp add: bindM_def)

lemma bindM_Inl: "m s = (Inl e, t) \<Longrightarrow> bindM m k s = (Inl e, t)"
  by (simp add: bindM_def)

lemma bindM_return [prog_simps]: "bindM (returnM x) k s = k x s"
  by (simp add: bindM_def returnM_def)

lemma bindM_throw [prog_simps]: "bindM (throwM e) k s = (Inl (Exn e), s)"
  by (simp add: bindM_def throwM_def)

lemma bindM_undefined [prog_simps]: "bindM undefinedM k s = (Inl Undefined, s)"
  by (simp add: bindM_def undefinedM_def)

lemma bindM_get [prog_simps]: "bindM (getM f) k s = k (f s) s"
  by (simp add: bindM_def getM_def)

lemma bindM_modify [prog_simps]: "bindM (modifyM f) k s = k () (f s)"
  by (simp add: bindM_def modifyM_def)

lemma bindM_if [prog_simps]:
  "bindM (if b then m else n) k s = (if b then bindM m k s else bindM n k s)"
  by simp

lemma bindM_eq_Inr [prog_invert]:
  "bindM m k s = (Inr y, t) \<longleftrightarrow> (\<exists>x u. m s = (Inr x, u) \<and> k x u = (Inr y, t))"
  by (auto simp: bindM_def split: prod.split sum.split)

lemma bindM_eq_Inl [prog_invert]:
  "bindM m k s = (Inl e, t) \<longleftrightarrow>
     m s = (Inl e, t) \<or> (\<exists>x u. m s = (Inr x, u) \<and> k x u = (Inl e, t))"
  by (auto simp: bindM_def split: prod.split sum.split)

lemma memberM_run: "m (get s) = (r, t) \<Longrightarrow> memberM get put m s = (r, put t s)"
  by (simp add: memberM_def)

lemma memberM_eq [prog_invert]:
  "memberM get put m s = (r, u) \<longleftrightarrow> (\<exists>t. m (get s) = (r, t) \<and> u = put t s)"
  by (auto simp: memberM_def split: prod.split)

lemma tryM_Inr: "m s = (Inr x, t) \<Longrightarrow> tryM m h s = (Inr x, t)"
  by (simp add: tryM_def)

lemma tryM_Exn: "m s = (Inl (Exn e), t) \<Longrightarrow> tryM m h s = h e t"
  by (simp add: tryM_def)

lemma tryM_Undefined: "m s = (Inl Undefined, t) \<Longrightarrow> tryM m h s = (Inl Undefined, t)"
  by (simp add: tryM_def)

text \<open>
  A predicate on states that an operation never breaks, however it ends. The rules below take a
  compound operation apart along the combinators.
\<close>

definition keeps :: "('s \<Rightarrow> bool) \<Rightarrow> ('s, 'a) prog \<Rightarrow> bool" where
  "keeps P m \<longleftrightarrow> (\<forall>s. P s \<longrightarrow> P (snd (m s)))"

named_theorems keeps_intros \<open>rules that show an operation keeps a predicate\<close>

lemma keepsI: "(\<And>s. P s \<Longrightarrow> P (snd (m s))) \<Longrightarrow> keeps P m"
  by (simp add: keeps_def)

lemma keepsD: "keeps P m \<Longrightarrow> P s \<Longrightarrow> m s = (r, t) \<Longrightarrow> P t"
  unfolding keeps_def by (metis snd_conv)

lemma keeps_return [keeps_intros]: "keeps P (returnM x)"
  by (simp add: keeps_def returnM_def)

lemma keeps_throw [keeps_intros]: "keeps P (throwM e)"
  by (simp add: keeps_def throwM_def)

lemma keeps_undefined [keeps_intros]: "keeps P undefinedM"
  by (simp add: keeps_def undefinedM_def)

lemma keeps_get [keeps_intros]: "keeps P (getM f)"
  by (simp add: keeps_def getM_def)

lemma keeps_bind [keeps_intros]:
  "keeps P m \<Longrightarrow> (\<And>x. keeps P (k x)) \<Longrightarrow> keeps P (bindM m k)"
  by (auto simp: keeps_def bindM_def split: prod.split sum.split)

lemma keeps_if [keeps_intros]:
  "(b \<Longrightarrow> keeps P m) \<Longrightarrow> (\<not> b \<Longrightarrow> keeps P n) \<Longrightarrow> keeps P (if b then m else n)"
  by simp

lemma keeps_try [keeps_intros]:
  "keeps P m \<Longrightarrow> (\<And>e. keeps P (h e)) \<Longrightarrow> keeps P (tryM m h)"
  by (auto simp: keeps_def tryM_def split: prod.split sum.split fault.split)

text \<open>
  \<open>defined m\<close>: the operation never runs into undefined behaviour.
\<close>

definition defined :: "('s, 'a) prog \<Rightarrow> bool" where
  "defined m \<longleftrightarrow> (\<forall>s. fst (m s) \<noteq> Inl Undefined)"

lemma defined_simple [simp]:
  "defined (returnM x)" "defined (throwM e)" "defined (getM f)" "defined (modifyM g)"
  by (simp_all add: defined_def prog_simps)

lemma defined_bind: "defined m \<Longrightarrow> (\<And>x. defined (k x)) \<Longrightarrow> defined (bindM m k)"
  by (auto simp: defined_def bindM_def split: prod.split sum.split) (metis fst_conv)+

lemma defined_if: "(b \<Longrightarrow> defined m) \<Longrightarrow> (\<not> b \<Longrightarrow> defined n) \<Longrightarrow> defined (if b then m else n)"
  by simp

lemma defined_option:
  "defined n \<Longrightarrow> (\<And>x. defined (f x)) \<Longrightarrow> defined (case x of None \<Rightarrow> n | Some x \<Rightarrow> f x)"
  by (cases x) simp_all

lemma defined_prod: "(\<And>a b. defined (f a b)) \<Longrightarrow> defined (case x of (a, b) \<Rightarrow> f a b)"
  by (cases x) simp

text \<open>
  \<open>safe P m\<close>: from states in \<open>P\<close> the operation stays in \<open>P\<close> and never runs into undefined
  behaviour.
\<close>

definition safe :: "('s \<Rightarrow> bool) \<Rightarrow> ('s, 'a) prog \<Rightarrow> bool" where
  "safe P m \<longleftrightarrow> (\<forall>s. P s \<longrightarrow> P (snd (m s)) \<and> fst (m s) \<noteq> Inl Undefined)"

named_theorems safe_intros \<open>rules that show an operation safe\<close>

lemma safeI: "keeps P m \<Longrightarrow> defined m \<Longrightarrow> safe P m"
  by (simp add: keeps_def defined_def safe_def)

lemma safeD: "safe P m \<Longrightarrow> P s \<Longrightarrow> m s = (r, t) \<Longrightarrow> P t \<and> r \<noteq> Inl Undefined"
  unfolding safe_def by (metis fst_conv snd_conv)

lemma safe_run: "(\<And>s. P s \<Longrightarrow> \<exists>r t. m s = (r, t) \<and> P t \<and> r \<noteq> Inl Undefined) \<Longrightarrow> safe P m"
  unfolding safe_def by fastforce

lemma safe_return [safe_intros]: "safe P (returnM x)"
  by (simp add: safe_def returnM_def)

lemma safe_throw [safe_intros]: "safe P (throwM e)"
  by (simp add: safe_def throwM_def)

lemma safe_get [safe_intros]: "safe P (getM f)"
  by (simp add: safe_def getM_def)

lemma safe_bind [safe_intros]: "safe P m \<Longrightarrow> (\<And>x. safe P (k x)) \<Longrightarrow> safe P (bindM m k)"
proof (rule safe_run)
  fix s assume m: "safe P m" and k: "\<And>x. safe P (k x)" and s: "P s"
  obtain r t where run: "m s = (r, t)" by fastforce
  then have t: "P t" "r \<noteq> Inl Undefined" using safeD [OF m s] by auto
  show "\<exists>r t. bindM m k s = (r, t) \<and> P t \<and> r \<noteq> Inl Undefined"
  proof (cases r)
    case (Inr x)
    then show ?thesis using safeD [OF k [of x] t(1)] by (cases "k x t") (simp add: bindM_Inr run)
  qed (use run t in \<open>simp add: bindM_Inl\<close>)
qed

lemma safe_if [safe_intros]: "(b \<Longrightarrow> safe P m) \<Longrightarrow> (\<not> b \<Longrightarrow> safe P n) \<Longrightarrow> safe P (if b then m else n)"
  by simp

lemma safe_try [safe_intros]:
  "safe P m \<Longrightarrow> (\<And>e. safe P (h e)) \<Longrightarrow> safe P (tryM m h)"
  by (auto simp: safe_def tryM_def split: prod.split sum.split fault.split)

end
