(* ===== verification/Config.thy ===== *)
theory Config
  imports Prelude
begin

text \<open>
  What the build fixes: the numbers meson writes into \<^verbatim>\<open>config.h\<close> from its options, and the
  width of \<open>size_t\<close> on the target. Every operation that depends on one of them takes the
  configuration as its first argument; \<open>default_config\<close> holds the option values of
  \<^verbatim>\<open>meson.options\<close>.
\<close>

record config =
  SIZE_T_BITS :: nat
  READ_INTERVAL_MS :: nat
  MEMORY_REGION_SIZE :: nat
  MEMORY_REGION_OFFSET :: nat
  BMC_INTERFACE_VERSION :: nat
  QUEUE_REGION_SIZE :: nat
  UE_REGION_SIZE :: nat
  MAGIC_NUMBER :: "nat \<times> nat \<times> nat \<times> nat"

definition default_config :: "nat \<Rightarrow> config" where
  "default_config bits =
     \<lparr>SIZE_T_BITS = bits, READ_INTERVAL_MS = 10, MEMORY_REGION_SIZE = 16384,
      MEMORY_REGION_OFFSET = 4035215360, BMC_INTERFACE_VERSION = 0, QUEUE_REGION_SIZE = 512,
      UE_REGION_SIZE = 80, MAGIC_NUMBER = (1, 2, 3, 4)\<rparr>"

text \<open>\<open>size_t\<close> values are naturals below \<open>2 ^ SIZE_T_BITS\<close>; sums and differences wrap.\<close>

definition size_add :: "config \<Rightarrow> nat \<Rightarrow> nat \<Rightarrow> nat" where
  "size_add cfg a b = (a + b) mod 2 ^ SIZE_T_BITS cfg"

definition size_sub :: "config \<Rightarrow> nat \<Rightarrow> nat \<Rightarrow> nat" where
  "size_sub cfg a b = nat ((int a - int b) mod 2 ^ SIZE_T_BITS cfg)"

lemma size_add_exact: "a + b < 2 ^ SIZE_T_BITS cfg \<Longrightarrow> size_add cfg a b = a + b"
  by (simp add: size_add_def)

lemma size_sub_exact: "b \<le> a \<Longrightarrow> a < 2 ^ SIZE_T_BITS cfg \<Longrightarrow> size_sub cfg a b = a - b"
  by (simp add: size_sub_def nat_diff_distrib flip: of_nat_diff)

text \<open>
  A usable configuration: a 32-bit or wider target, a queue region that has room for the header
  (48 bytes), the UE region and a queue of more than one entry header (6 bytes), and sizes that fit their fields.
\<close>

definition wf_config :: "config \<Rightarrow> bool" where
  "wf_config cfg \<longleftrightarrow> 32 \<le> SIZE_T_BITS cfg \<and>
     48 + UE_REGION_SIZE cfg + 6 < QUEUE_REGION_SIZE cfg \<and> QUEUE_REGION_SIZE cfg < 2 ^ 16"

lemma wf_default_config: "32 \<le> bits \<Longrightarrow> wf_config (default_config bits)"
  by (simp add: wf_config_def default_config_def)

lemma size_bits_bound: "32 \<le> b \<Longrightarrow> n < 2 ^ 32 \<Longrightarrow> n < (2 :: nat) ^ b"
  by (erule less_le_trans) (rule power_increasing, simp_all)

lemma size_add_small: "32 \<le> SIZE_T_BITS cfg \<Longrightarrow> a + b < 2 ^ 32 \<Longrightarrow> size_add cfg a b = a + b"
  by (rule size_add_exact, rule size_bits_bound)

lemma size_sub_small:
  "32 \<le> SIZE_T_BITS cfg \<Longrightarrow> b \<le> a \<Longrightarrow> a < 2 ^ 32 \<Longrightarrow> size_sub cfg a b = a - b"
  by (rule size_sub_exact, assumption, rule size_bits_bound)

end
