(* ===== verification/ByteRegion.thy ===== *)
theory ByteRegion
  imports Prelude
begin

text \<open>
  Byte regions: little-endian integers as the wire format stores them, slices of a region, and
  overwriting part of a region in place. The buffer and the RDE headers read and write their
  fields through these.
\<close>

section \<open>Little-endian integers\<close>

text \<open>\<open>le_bytes n w\<close> are the \<open>n\<close> lowest bytes of \<open>w\<close>, least significant first.\<close>

definition le_bytes :: "nat \<Rightarrow> 'a::len word \<Rightarrow> bytes" where
  "le_bytes n w = map (\<lambda>i. ucast (drop_bit (8 * i) w)) [0..<n]"

fun le_word :: "bytes \<Rightarrow> 'a::len word" where
  "le_word [] = 0"
| "le_word (b # bs) = or (ucast b) (push_bit 8 (le_word bs))"

lemma length_le_bytes [simp]: "length (le_bytes n w) = n"
  by (simp add: le_bytes_def)

lemma nth_le_bytes: "i < n \<Longrightarrow> le_bytes n w ! i = ucast (drop_bit (8 * i) w)"
  by (simp add: le_bytes_def)

lemma bit_le_word:
  "bit (le_word bs :: 'a::len word) k \<longleftrightarrow>
     k < LENGTH('a) \<and> k div 8 < length bs \<and> bit (bs ! (k div 8)) (k mod 8)"
proof (induction bs arbitrary: k)
  case Nil
  then show ?case by simp
next
  case (Cons b bs)
  show ?case
  proof (cases "k < 8")
    case True
    then show ?thesis
      by (auto simp: bit_or_iff bit_push_bit_iff bit_unsigned_iff dest: bit_imp_le_length)
  next
    case False
    then have "k div 8 = Suc ((k - 8) div 8)" "k mod 8 = (k - 8) mod 8"
      by (simp_all add: le_div_geq le_mod_geq)
    moreover have "\<not> bit b k" using False by (auto dest: bit_imp_le_length)
    ultimately show ?thesis
      using False Cons.IH [of "k - 8"]
      by (auto simp: bit_or_iff bit_push_bit_iff bit_unsigned_iff)
  qed
qed

lemma le_word_le_bytes:
  fixes w :: "'a::len word"
  assumes "LENGTH('a) \<le> 8 * n"
  shows "le_word (le_bytes n w) = w"
proof (rule bit_word_eqI)
  fix k assume k: "k < LENGTH('a)"
  then have "k div 8 < n" using assms by simp
  then show "bit (le_word (le_bytes n w) :: 'a word) k \<longleftrightarrow> bit w k"
    using k by (simp add: bit_le_word nth_le_bytes bit_unsigned_iff bit_drop_bit_eq)
qed

lemma le_bytes_le_word:
  assumes "8 * length bs \<le> LENGTH('a::len)"
  shows "le_bytes (length bs) (le_word bs :: 'a word) = bs"
proof (rule nth_equalityI)
  fix i assume i: "i < length (le_bytes (length bs) (le_word bs :: 'a word))"
  then have i': "i < length bs" by simp
  show "le_bytes (length bs) (le_word bs :: 'a word) ! i = bs ! i"
  proof (rule bit_word_eqI)
    fix k assume k: "k < LENGTH(8)"
    then have "(8 * i + k) div 8 = i" "(8 * i + k) mod 8 = k" "8 * i + k < LENGTH('a)"
      using i' assms by simp_all
    then show "bit (le_bytes (length bs) (le_word bs :: 'a word) ! i) k \<longleftrightarrow> bit (bs ! i) k"
      using i' k
      by (simp add: nth_le_bytes bit_unsigned_iff bit_drop_bit_eq bit_le_word add.commute)
  qed
qed simp

section \<open>Slices and overwrites\<close>

definition slice :: "nat \<Rightarrow> nat \<Rightarrow> 'a list \<Rightarrow> 'a list" where
  "slice off n xs = take n (drop off xs)"

text \<open>Storing \<open>ys\<close> at offset \<open>off\<close>, as \<open>memcpy(xs + off, ys, length ys)\<close> would.\<close>

definition overwrite :: "'a list \<Rightarrow> nat \<Rightarrow> 'a list \<Rightarrow> 'a list" where
  "overwrite xs off ys = take off xs @ ys @ drop (off + length ys) xs"

lemma slice_length [simp]: "off + n \<le> length xs \<Longrightarrow> length (slice off n xs) = n"
  by (simp add: slice_def)

lemma slice_zero [simp]: "slice off 0 xs = []"
  by (simp add: slice_def)

lemma slice_nth [simp]: "i < n \<Longrightarrow> off + n \<le> length xs \<Longrightarrow> slice off n xs ! i = xs ! (off + i)"
  by (simp add: slice_def)

lemma slice_slice: "a + n \<le> m \<Longrightarrow> slice a n (slice off m xs) = slice (off + a) n xs"
  by (simp add: slice_def take_drop min_def add.commute add.left_commute)

lemma slice_append: "slice off n xs @ slice (off + n) m xs = slice off (n + m) xs"
  by (simp add: slice_def take_add add.commute [of off n])

lemma slice_all: "length xs = n \<Longrightarrow> slice 0 n xs = xs"
  by (simp add: slice_def)

lemma overwrite_length [simp]: "off + length ys \<le> length xs \<Longrightarrow> length (overwrite xs off ys) = length xs"
  by (simp add: overwrite_def)

lemma overwrite_Nil [simp]: "off \<le> length xs \<Longrightarrow> overwrite xs off [] = xs"
  by (simp add: overwrite_def)

lemma overwrite_all: "length ys = length xs \<Longrightarrow> overwrite xs 0 ys = ys"
  by (simp add: overwrite_def)

lemma overwrite_nth:
  "off + length ys \<le> length xs \<Longrightarrow> i < length xs \<Longrightarrow>
   overwrite xs off ys ! i = (if off \<le> i \<and> i < off + length ys then ys ! (i - off) else xs ! i)"
  by (auto simp: overwrite_def nth_append min_def)

lemma slice_overwrite_before [slice_simps]:
  "off + n \<le> o' \<Longrightarrow> o' + length ys \<le> length xs \<Longrightarrow> slice off n (overwrite xs o' ys) = slice off n xs"
  by (rule nth_equalityI) (auto simp: overwrite_nth)

lemma slice_overwrite_after [slice_simps]:
  "o' + length ys \<le> off \<Longrightarrow> off + n \<le> length xs \<Longrightarrow> slice off n (overwrite xs o' ys) = slice off n xs"
  by (rule nth_equalityI) (auto simp: overwrite_nth)

lemma slice_overwrite_same [slice_simps]:
  "n = length ys \<Longrightarrow> off + length ys \<le> length xs \<Longrightarrow> slice off n (overwrite xs off ys) = ys"
  by (rule nth_equalityI) (auto simp: overwrite_nth)

lemma slice_overwrite_inside:
  "off + n \<le> length ys \<Longrightarrow> o' + length ys \<le> length xs \<Longrightarrow>
   slice (o' + off) n (overwrite xs o' ys) = slice off n ys"
  by (rule nth_equalityI) (auto simp: overwrite_nth)

lemma overwrite_overwrite:
  "o1 + length ys \<le> o2 \<Longrightarrow> o2 + length zs \<le> length xs \<Longrightarrow>
   overwrite (overwrite xs o1 ys) o2 zs = overwrite (overwrite xs o2 zs) o1 ys"
  by (rule nth_equalityI) (auto simp: overwrite_nth)

lemma overwrite_twice:
  "length ys = length zs \<Longrightarrow> off + length ys \<le> length xs \<Longrightarrow>
   overwrite (overwrite xs off ys) off zs = overwrite xs off zs"
  by (rule nth_equalityI) (auto simp: overwrite_nth)

lemma overwrite_slice_id: "off + n \<le> length xs \<Longrightarrow> overwrite xs off (slice off n xs) = xs"
  by (rule nth_equalityI) (auto simp: overwrite_nth)

text \<open>The integer stored in \<open>n\<close> bytes at an offset.\<close>

definition int_at :: "bytes \<Rightarrow> nat \<Rightarrow> nat \<Rightarrow> 'a::len word" where
  "int_at bs off n = le_word (slice off n bs)"

section \<open>The ring view of a queue region\<close>

text \<open>
  \<open>ring_read r pos n\<close> is the specification of reading \<open>n\<close> bytes of a circular region
  from position \<open>pos\<close>: byte \<open>i\<close> is at position \<open>pos + i\<close> modulo the size.
\<close>

definition ring_read :: "'a list \<Rightarrow> nat \<Rightarrow> nat \<Rightarrow> 'a list" where
  "ring_read r pos n = map (\<lambda>i. r ! ((pos + i) mod length r)) [0..<n]"

lemma ring_read_length [simp]: "length (ring_read r pos n) = n"
  by (simp add: ring_read_def)

lemma ring_read_nth: "i < n \<Longrightarrow> ring_read r pos n ! i = r ! ((pos + i) mod length r)"
  by (simp add: ring_read_def)

lemma ring_read_zero [simp]: "ring_read r pos 0 = []"
  by (simp add: ring_read_def)

lemma ring_read_mod: "ring_read r (pos mod length r) n = ring_read r pos n"
  by (simp add: ring_read_def mod_add_left_eq)

lemma ring_read_append: "ring_read r pos (n + m) = ring_read r pos n @ ring_read r (pos + n) m"
  by (rule nth_equalityI) (auto simp: ring_read_nth nth_append add.assoc)

lemma ring_read_take: "m \<le> n \<Longrightarrow> take m (ring_read r pos n) = ring_read r pos m"
  by (rule nth_equalityI) (auto simp: ring_read_nth)

text \<open>A read that does not reach the end is one slice; one that does is two.\<close>

lemma ring_read_straight: "pos + n \<le> length r \<Longrightarrow> ring_read r pos n = slice pos n r"
  by (rule nth_equalityI) (auto simp: ring_read_nth)

lemma ring_read_wrapped:
  assumes "pos \<le> length r" "n \<le> length r" "length r < pos + n"
  shows "ring_read r pos n = slice pos (length r - pos) r @ slice 0 (n - (length r - pos)) r"
proof (rule nth_equalityI)
  let ?k = "length r - pos"
  fix i assume i: "i < length (ring_read r pos n)"
  show "ring_read r pos n ! i = (slice pos ?k r @ slice 0 (n - ?k) r) ! i"
  proof (cases "i < ?k")
    case True
    then show ?thesis using i assms by (simp add: ring_read_nth nth_append)
  next
    case False
    then have "(pos + i) mod length r = (pos + i - length r) mod length r"
      using assms by (simp add: le_mod_geq)
    then have "(pos + i) mod length r = i - ?k"
      using i assms False by simp
    then show ?thesis using i assms False by (simp add: ring_read_nth nth_append)
  qed
qed (use assms in simp)

text \<open>Both at once: \<open>w\<close> bytes of the read are at the start of the region.\<close>

lemma ring_read_parts:
  assumes "pos \<le> length r" "n \<le> length r"
  defines "w \<equiv> if n > length r - pos then n - (length r - pos) else 0"
  shows "ring_read r pos n = slice pos (n - w) r @ slice 0 w r"
  using assms ring_read_wrapped [of pos r n] ring_read_straight [of pos n r] by auto

lemma ring_position:
  fixes m pos n :: nat
  assumes "pos \<le> m" "n \<le> m" "pos < m \<or> n < m"
  defines "w \<equiv> if n > m - pos then n - (m - pos) else 0"
  shows "(pos + n) mod m = (if 0 < w then w else if pos + (n - w) = m then 0 else pos + (n - w))"
proof (cases "n > m - pos")
  case True
  then have "(pos + n) mod m = pos + n - m" using assms(1-3) by (auto simp: le_mod_geq)
  moreover have "w = pos + n - m" "0 < w" using True assms(1) by (simp_all add: w_def)
  ultimately show ?thesis by simp
next
  case False
  then have "pos + n \<le> m" using assms(1) by simp
  then show ?thesis using False by (auto simp: w_def)
qed

end
