(* ===== verification/DataInterface.thy ===== *)
theory DataInterface
  imports ByteRegion
begin

text \<open>
  \<^verbatim>\<open>include/data_interface.hpp\<close>: the transport the buffer reads and writes the shared region
  through. The abstract class is a record of its virtual functions over an object state
  \<open>'d\<close>; the locale states what the buffer relies on when the transport gives access to one
  stable region of bytes.
\<close>

record 'd DataInterface =
  di_read :: "u32 \<Rightarrow> u32 \<Rightarrow> ('d, bytes) prog"
  di_write :: "u32 \<Rightarrow> bytes \<Rightarrow> ('d, u32) prog"
  di_getMemoryRegionSize :: "('d, u32) prog"

locale shared_region =
  fixes di :: "'d DataInterface"
    and region :: "'d \<Rightarrow> bytes"
    and good :: "'d \<Rightarrow> bool"
    and store :: "nat \<Rightarrow> bytes \<Rightarrow> 'd \<Rightarrow> 'd"
  assumes region_bound: "good d \<Longrightarrow> length (region d) < 2 ^ 32"
    and size_law: "good d \<Longrightarrow>
      di_getMemoryRegionSize di d = (Inr (word_of_nat (length (region d))), d)"
    and read_law: "good d \<Longrightarrow> unat off + unat n \<le> length (region d) \<Longrightarrow>
      di_read di off n d = (Inr (slice (unat off) (unat n) (region d)), d)"
    and write_law: "good d \<Longrightarrow> unat off + length bs \<le> length (region d) \<Longrightarrow>
      length bs < 2 ^ 16 \<Longrightarrow>
      di_write di off bs d = (Inr (word_of_nat (length bs)), store (unat off) bs d)"
    and region_store: "good d \<Longrightarrow> p + length bs \<le> length (region d) \<Longrightarrow>
      region (store p bs d) = overwrite (region d) p bs"
    and good_store: "good d \<Longrightarrow> p + length bs \<le> length (region d) \<Longrightarrow> good (store p bs d)"
begin

lemma store_length:
  "good d \<Longrightarrow> off + length bs \<le> length (region d) \<Longrightarrow>
   length (region (store off bs d)) = length (region d)"
  by (simp add: region_store)

lemma region_size_unat:
  "good d \<Longrightarrow> unat (word_of_nat (length (region d)) :: u32) = length (region d)"
  using region_bound [of d] by (simp add: unat_of_nat)

text \<open>Reading back what was just written, and reading beside it.\<close>

lemma read_back:
  assumes "good d" "unat off + length bs \<le> length (region d)" "unat n = length bs"
  shows "di_read di off n (store (unat off) bs d) = (Inr bs, store (unat off) bs d)"
  using assms by (simp add: read_law good_store region_store slice_simps)

end

text \<open>A transport that answers a read past the end with the bytes there are.\<close>

locale clipped_region = shared_region +
  assumes clip_law: "good d \<Longrightarrow> unat off \<le> length (region d) \<Longrightarrow> unat off + unat n < 2 ^ 32 \<Longrightarrow>
    di_read di off n d =
      (Inr (slice (unat off) (min (unat n) (length (region d) - unat off)) (region d)), d)"

end
