(* ===== verification/BufferTypes.thy ===== *)
theory BufferTypes
  imports ByteRegion
begin

text \<open>
  \<^verbatim>\<open>include/buffer.hpp\<close>: the two packed structs of the shared region, with the width of every
  field, and the bytes they are stored as. A \<^verbatim>\<open>reinterpret_cast\<close> to a struct is
  \<open>header_of_bytes\<close> or \<open>entry_header_of_bytes\<close>; taking its bytes is the inverse.
\<close>

record CircularBufferHeader =
  bmcInterfaceVersion :: u32
  biosInterfaceVersion :: u32
  magicNumber :: "u32 \<times> u32 \<times> u32 \<times> u32"
  queueSize :: u24
  ueRegionSize :: u16
  bmcFlags :: u32
  bmcReadPtr :: u24
  reserved1 :: "u8 \<times> u8 \<times> u8 \<times> u8"
  biosFlags :: u32
  biosWritePtr :: u24
  reserved2 :: u8

definition zero_header :: CircularBufferHeader where
  "zero_header = \<lparr>bmcInterfaceVersion = 0, biosInterfaceVersion = 0, magicNumber = (0, 0, 0, 0),
     queueSize = 0, ueRegionSize = 0, bmcFlags = 0, bmcReadPtr = 0, reserved1 = (0, 0, 0, 0),
     biosFlags = 0, biosWritePtr = 0, reserved2 = 0\<rparr>"

text \<open>\<open>operator==\<close>: every field but the two reserved ones.\<close>

definition header_eq :: "CircularBufferHeader \<Rightarrow> CircularBufferHeader \<Rightarrow> bool" where
  "header_eq a b \<longleftrightarrow>
     (bmcInterfaceVersion a, biosInterfaceVersion a, magicNumber a, queueSize a, ueRegionSize a,
      bmcFlags a, bmcReadPtr a, biosFlags a, biosWritePtr a) =
     (bmcInterfaceVersion b, biosInterfaceVersion b, magicNumber b, queueSize b, ueRegionSize b,
      bmcFlags b, bmcReadPtr b, biosFlags b, biosWritePtr b)"

record QueueEntryHeader =
  sequenceId :: u16
  entrySize :: u16
  checksum :: u8
  rdeCommandType :: u8

type_synonym EntryPair = "QueueEntryHeader \<times> bytes"

definition entry_header_eq :: "QueueEntryHeader \<Rightarrow> QueueEntryHeader \<Rightarrow> bool" where
  "entry_header_eq a b \<longleftrightarrow>
     (sequenceId a, entrySize a, checksum a, rdeCommandType a) =
     (sequenceId b, entrySize b, checksum b, rdeCommandType b)"

text \<open>\<open>BufferFlags\<close> and \<open>BmcFlags\<close>: the flag bits.\<close>

definition flag_ueSwitch :: u32 where "flag_ueSwitch = push_bit 0 1"
definition flag_overflow :: u32 where "flag_overflow = push_bit 1 1"
definition flag_ready :: u32 where "flag_ready = push_bit 2 1"

section \<open>Layout\<close>

definition header_size :: nat where "header_size = 0x30"
definition entry_header_size :: nat where "entry_header_size = 0x6"

definition header_to_bytes :: "CircularBufferHeader \<Rightarrow> bytes" where
  "header_to_bytes h =
     (case magicNumber h of (m0, m1, m2, m3) \<Rightarrow> case reserved1 h of (r0, r1, r2, r3) \<Rightarrow>
      le_bytes 4 (bmcInterfaceVersion h) @ le_bytes 4 (biosInterfaceVersion h) @
      le_bytes 4 m0 @ le_bytes 4 m1 @ le_bytes 4 m2 @ le_bytes 4 m3 @
      le_bytes 3 (queueSize h) @ le_bytes 2 (ueRegionSize h) @
      le_bytes 4 (bmcFlags h) @ le_bytes 3 (bmcReadPtr h) @ [r0, r1, r2, r3] @
      le_bytes 4 (biosFlags h) @ le_bytes 3 (biosWritePtr h) @ [reserved2 h])"

definition header_of_bytes :: "bytes \<Rightarrow> CircularBufferHeader" where
  "header_of_bytes bs =
     \<lparr>bmcInterfaceVersion = int_at bs 0x0 4, biosInterfaceVersion = int_at bs 0x4 4,
      magicNumber = (int_at bs 0x8 4, int_at bs 0xc 4, int_at bs 0x10 4, int_at bs 0x14 4),
      queueSize = int_at bs 0x18 3, ueRegionSize = int_at bs 0x1b 2,
      bmcFlags = int_at bs 0x1d 4, bmcReadPtr = int_at bs 0x21 3,
      reserved1 = (bs ! 0x24, bs ! 0x25, bs ! 0x26, bs ! 0x27),
      biosFlags = int_at bs 0x28 4, biosWritePtr = int_at bs 0x2c 3, reserved2 = bs ! 0x2f\<rparr>"

definition entry_header_to_bytes :: "QueueEntryHeader \<Rightarrow> bytes" where
  "entry_header_to_bytes h =
     le_bytes 2 (sequenceId h) @ le_bytes 2 (entrySize h) @ [checksum h, rdeCommandType h]"

definition entry_header_of_bytes :: "bytes \<Rightarrow> QueueEntryHeader" where
  "entry_header_of_bytes bs =
     \<lparr>sequenceId = int_at bs 0x0 2, entrySize = int_at bs 0x2 2,
      checksum = bs ! 0x4, rdeCommandType = bs ! 0x5\<rparr>"

section \<open>The layout is a bijection\<close>

lemma header_to_bytes_length [simp]: "length (header_to_bytes h) = header_size"
  by (simp add: header_to_bytes_def header_size_def split: prod.split)

lemma entry_header_to_bytes_length [simp]: "length (entry_header_to_bytes h) = entry_header_size"
  by (simp add: entry_header_to_bytes_def entry_header_size_def)

lemma slice_append_left: "length xs = n \<Longrightarrow> slice 0 n (xs @ ys) = xs"
  by (simp add: slice_def)

lemma slice_append_skip: "length xs \<le> off \<Longrightarrow> slice off n (xs @ ys) = slice (off - length xs) n ys"
  by (simp add: slice_def)

lemma slice_Cons_skip: "0 < off \<Longrightarrow> slice off n (x # xs) = slice (off - 1) n xs"
  by (cases off) (simp_all add: slice_def)

lemma header_of_to_bytes: "header_of_bytes (header_to_bytes h) = h"
  by (cases h)
    (simp add: header_of_bytes_def header_to_bytes_def int_at_def slice_append_skip
      slice_Cons_skip slice_append_left le_word_le_bytes nth_append split: prod.split)

lemma entry_header_of_to_bytes: "entry_header_of_bytes (entry_header_to_bytes h) = h"
  by (cases h)
    (simp add: entry_header_of_bytes_def entry_header_to_bytes_def int_at_def slice_append_skip
      slice_Cons_skip slice_append_left le_word_le_bytes nth_append)

lemma le_bytes_int_at:
  "off + n \<le> length bs \<Longrightarrow> 8 * n \<le> LENGTH('a::len) \<Longrightarrow>
   le_bytes n (int_at bs off n :: 'a word) = slice off n bs"
  using le_bytes_le_word [of "slice off n bs", where 'a = 'a] by (simp add: int_at_def)

lemma slice_Cons_nth: "i < length bs \<Longrightarrow> bs ! i # slice (Suc i) n bs = slice i (Suc n) bs"
  by (simp add: slice_def Cons_nth_drop_Suc [symmetric])

lemma slice_singleton: "i < length bs \<Longrightarrow> [bs ! i] = slice i 1 bs"
  using slice_Cons_nth [of i bs 0] by simp

lemma slice_four:
  "i + 4 \<le> length bs \<Longrightarrow> bs ! i # bs ! (i + 1) # bs ! (i + 2) # bs ! (i + 3) # xs = slice i 4 bs @ xs"
  using slice_Cons_nth [of i bs 3] slice_Cons_nth [of "Suc i" bs 2]
    slice_Cons_nth [of "i + 2" bs 1] slice_Cons_nth [of "i + 3" bs 0]
  by (simp add: numeral_eq_Suc)

lemma slice_join: "k = off + n \<Longrightarrow> slice off n xs @ slice k m xs @ ys = slice off (n + m) xs @ ys"
  by (simp add: slice_append flip: append_assoc)

lemma header_to_of_bytes:
  assumes "length bs = header_size"
  shows "header_to_bytes (header_of_bytes bs) = bs"
proof -
  have len: "length bs = 48" using assms by (simp add: header_size_def)
  have "header_to_bytes (header_of_bytes bs) =
      slice 0 4 bs @ slice 4 4 bs @ slice 8 4 bs @ slice 12 4 bs @ slice 16 4 bs @ slice 20 4 bs @
      slice 24 3 bs @ slice 27 2 bs @ slice 29 4 bs @ slice 33 3 bs @ slice 36 4 bs @
      slice 40 4 bs @ slice 44 3 bs @ slice 47 1 bs @ []"
    using slice_four [of 36 bs] slice_singleton [of 47 bs]
    by (simp add: header_to_bytes_def header_of_bytes_def le_bytes_int_at len)
  also have "\<dots> = slice 0 48 bs @ []"
    by (subst slice_join, simp)+ simp
  finally show ?thesis by (simp add: slice_all len)
qed

lemma entry_header_to_of_bytes:
  assumes "length bs = entry_header_size"
  shows "entry_header_to_bytes (entry_header_of_bytes bs) = bs"
proof -
  have len: "length bs = 6" using assms by (simp add: entry_header_size_def)
  have "entry_header_to_bytes (entry_header_of_bytes bs) =
      slice 0 2 bs @ slice 2 2 bs @ slice 4 1 bs @ slice 5 1 bs @ []"
    using slice_singleton [of 4 bs] slice_singleton [of 5 bs]
    by (simp add: entry_header_to_bytes_def entry_header_of_bytes_def le_bytes_int_at len)
  also have "\<dots> = slice 0 6 bs @ []"
    by (subst slice_join, simp)+ simp
  finally show ?thesis by (simp add: slice_all len)
qed

section \<open>The header inside a region\<close>

lemma header_of_region:
  "48 \<le> length r \<Longrightarrow> header_of_bytes (slice 0 48 r) = header_of_bytes r"
  by (simp add: header_of_bytes_def int_at_def slice_slice)

text \<open>Storing the read pointer or the BMC flags at their offset changes that field only.\<close>

lemma header_store_read_ptr:
  "48 \<le> length r \<Longrightarrow>
   header_of_bytes (overwrite r 0x21 (le_bytes 3 p)) = (header_of_bytes r)\<lparr>bmcReadPtr := p\<rparr>"
  by (simp add: header_of_bytes_def int_at_def slice_simps le_word_le_bytes overwrite_nth)

lemma header_store_bmc_flags:
  "48 \<le> length r \<Longrightarrow>
   header_of_bytes (overwrite r 0x1d (le_bytes 4 f)) = (header_of_bytes r)\<lparr>bmcFlags := f\<rparr>"
  by (simp add: header_of_bytes_def int_at_def slice_simps le_word_le_bytes overwrite_nth)

lemma header_store_header:
  assumes "48 \<le> length r"
  shows "header_of_bytes (overwrite r 0 (header_to_bytes h)) = h"
proof -
  have "slice 0 48 (overwrite r 0 (header_to_bytes h)) = header_to_bytes h"
    using assms by (simp add: slice_overwrite_same header_size_def)
  moreover have "48 \<le> length (overwrite r 0 (header_to_bytes h))"
    using assms by (simp add: header_size_def)
  ultimately show ?thesis
    using header_of_region [of "overwrite r 0 (header_to_bytes h)"] by (simp add: header_of_to_bytes)
qed

end
