(* ===== verification/Buffer.thy ===== *)
theory Buffer
  imports Config DataInterface BufferTypes
begin

text \<open>
  \<^verbatim>\<open>src/buffer.cpp\<close>: the operations of \<open>BufferImpl\<close>, one definition each, over a transport
  given as a \<open>DataInterface\<close> record. The state is the transport object and the cached
  header. \<open>size_t\<close> values are naturals; conversions to \<open>uint32_t\<close> arguments are
  \<open>word_of_nat\<close>. The host is little-endian, so \<open>native_to_little\<close> and its inverse are the
  identity on values.
\<close>

record 'd BufferImpl =
  dataInterface :: 'd
  cachedBufferHeader :: CircularBufferHeader

definition BufferImpl_new :: "'d \<Rightarrow> 'd BufferImpl" where
  "BufferImpl_new d = \<lparr>dataInterface = d, cachedBufferHeader = zero_header\<rparr>"

text \<open>A call on the \<open>dataInterface\<close> member.\<close>

definition diM :: "('d, 'a) prog \<Rightarrow> ('d BufferImpl, 'a) prog" where
  "diM = memberM dataInterface (\<lambda>d s. s\<lparr>dataInterface := d\<rparr>)"

definition set_cached :: "CircularBufferHeader \<Rightarrow> ('d BufferImpl, unit) prog" where
  "set_cached h = modifyM (\<lambda>s. s\<lparr>cachedBufferHeader := h\<rparr>)"

definition init_header ::
  "u32 \<Rightarrow> u16 \<Rightarrow> u16 \<Rightarrow> u32 \<times> u32 \<times> u32 \<times> u32 \<Rightarrow> CircularBufferHeader" where
  "init_header version qSize ueSize magic =
     zero_header\<lparr>bmcInterfaceVersion := version, queueSize := ucast qSize,
       ueRegionSize := ueSize, magicNumber := magic\<rparr>"

definition initialize ::
  "'d DataInterface \<Rightarrow> u32 \<Rightarrow> u16 \<Rightarrow> u16 \<Rightarrow> u32 \<times> u32 \<times> u32 \<times> u32 \<Rightarrow> ('d BufferImpl, unit) prog"
where
  "initialize di version qSize ueSize magic =
     bindM (diM (di_getMemoryRegionSize di)) (\<lambda>memoryRegionSize.
     if unat qSize > unat memoryRegionSize
     then throwM (ProposedQueueTooBig (unat qSize) (unat memoryRegionSize))
     else bindM (diM (di_write di 0 (replicate (unat qSize) 0))) (\<lambda>byteWritten.
     if unat byteWritten \<noteq> unat qSize then throwM (OnlyErased (unat byteWritten))
     else
       let initializationHeader = init_header version qSize ueSize magic
       in bindM (diM (di_write di 0 (header_to_bytes initializationHeader))) (\<lambda>byteWritten.
          if unat byteWritten \<noteq> header_size then throwM (OnlyWroteHeader (unat byteWritten))
          else set_cached initializationHeader)))"

definition readBufferHeader :: "'d DataInterface \<Rightarrow> ('d BufferImpl, unit) prog" where
  "readBufferHeader di =
     bindM (diM (di_read di 0 (word_of_nat header_size))) (\<lambda>bytesRead.
     if length bytesRead \<noteq> header_size
     then throwM (HeaderReadShort (length bytesRead) header_size)
     else set_cached (header_of_bytes bytesRead))"

definition getCachedBufferHeader :: "('d BufferImpl, CircularBufferHeader) prog" where
  "getCachedBufferHeader = getM cachedBufferHeader"

definition updateReadPtr :: "'d DataInterface \<Rightarrow> u32 \<Rightarrow> ('d BufferImpl, unit) prog" where
  "updateReadPtr di newReadPtr =
     (let truncatedReadPtr = ucast (and newReadPtr 0xffffff) :: u24
      in bindM (diM (di_write di 0x21 (le_bytes 3 truncatedReadPtr))) (\<lambda>writtenSize.
         if unat writtenSize \<noteq> 3 then throwM (ReadPtrWriteShort (unat writtenSize) 3)
         else modifyM (\<lambda>s. s\<lparr>cachedBufferHeader :=
                (cachedBufferHeader s)\<lparr>bmcReadPtr := truncatedReadPtr\<rparr>\<rparr>)))"

definition updateBmcFlags :: "'d DataInterface \<Rightarrow> u32 \<Rightarrow> ('d BufferImpl, unit) prog" where
  "updateBmcFlags di newBmcFlag =
     bindM (diM (di_write di 0x1d (le_bytes 4 newBmcFlag))) (\<lambda>writtenSize.
     if unat writtenSize \<noteq> 4 then throwM (BmcFlagsWriteShort (unat writtenSize) 4)
     else modifyM (\<lambda>s. s\<lparr>cachedBufferHeader :=
            (cachedBufferHeader s)\<lparr>bmcFlags := newBmcFlag\<rparr>\<rparr>))"

definition getMaxOffset :: "config \<Rightarrow> ('d BufferImpl, nat) prog" where
  "getMaxOffset cfg =
     bindM (getM cachedBufferHeader) (\<lambda>h.
     if unat (queueSize h) \<noteq> QUEUE_REGION_SIZE cfg
     then throwM (QueueSizeMismatch (unat (queueSize h)) (QUEUE_REGION_SIZE cfg))
     else if unat (ueRegionSize h) \<noteq> UE_REGION_SIZE cfg
     then throwM (UeRegionSizeMismatch (unat (ueRegionSize h)) (UE_REGION_SIZE cfg))
     else returnM (size_sub cfg (size_sub cfg (unat (queueSize h)) (unat (ueRegionSize h)))
            header_size))"

definition getQueueOffset :: "config \<Rightarrow> ('d BufferImpl, nat) prog" where
  "getQueueOffset cfg =
     bindM (getM cachedBufferHeader) (\<lambda>h.
     if unat (ueRegionSize h) \<noteq> UE_REGION_SIZE cfg
     then throwM (UeRegionSizeMismatch (unat (ueRegionSize h)) (UE_REGION_SIZE cfg))
     else returnM (size_add cfg header_size (unat (ueRegionSize h))))"

definition wraparoundRead ::
  "config \<Rightarrow> 'd DataInterface \<Rightarrow> u32 \<Rightarrow> u32 \<Rightarrow> ('d BufferImpl, bytes) prog" where
  "wraparoundRead cfg di relativeOffset len =
     bindM (getMaxOffset cfg) (\<lambda>maxOffset.
     if unat relativeOffset > maxOffset
     then throwM (RelativeOffsetTooBig (unat relativeOffset) maxOffset)
     else if unat len > maxOffset then throwM (LengthTooBig (unat len) maxOffset)
     else bindM (getQueueOffset cfg) (\<lambda>queueOffset.
     let writableSpace = maxOffset - unat relativeOffset;
         numWraparoundBytesToRead =
           (if unat len > writableSpace then unat len - writableSpace else 0);
         numBytesToReadTillQueueEnd = unat len - numWraparoundBytesToRead
     in bindM (diM (di_read di (word_of_nat (size_add cfg queueOffset (unat relativeOffset)))
                 (word_of_nat numBytesToReadTillQueueEnd))) (\<lambda>bytesRead.
        if length bytesRead \<noteq> numBytesToReadTillQueueEnd
        then throwM (QueueReadShort (length bytesRead) numBytesToReadTillQueueEnd)
        else
          let readTo = size_add cfg (unat relativeOffset) numBytesToReadTillQueueEnd;
              updatedReadPtr = (if readTo = maxOffset then 0 else readTo)
          in bindM
            (if numWraparoundBytesToRead > 0
             then bindM (diM (di_read di (word_of_nat queueOffset)
                          (word_of_nat numWraparoundBytesToRead))) (\<lambda>wrappedBytesRead.
                  if numWraparoundBytesToRead \<noteq> length wrappedBytesRead
                  then throwM (WrappedReadShort (length wrappedBytesRead) numWraparoundBytesToRead)
                  else returnM (bytesRead @ wrappedBytesRead, numWraparoundBytesToRead))
             else returnM (bytesRead, updatedReadPtr)) (\<lambda>(bytesRead, updatedReadPtr).
             bindM (updateReadPtr di (word_of_nat updatedReadPtr)) (\<lambda>_. returnM bytesRead)))))"

definition readEntryHeader ::
  "config \<Rightarrow> 'd DataInterface \<Rightarrow> ('d BufferImpl, QueueEntryHeader) prog" where
  "readEntryHeader cfg di =
     bindM (getM cachedBufferHeader) (\<lambda>h.
     bindM (wraparoundRead cfg di (ucast (bmcReadPtr h)) (word_of_nat entry_header_size)) (\<lambda>bytesRead.
     returnM (entry_header_of_bytes bytesRead)))"

text \<open>\<open>std::accumulate(b, e, 0, std::bit_xor)\<close>.\<close>

definition xor_all :: "bytes \<Rightarrow> u8" where
  "xor_all bs = foldl xor 0 bs"

definition readEntry :: "config \<Rightarrow> 'd DataInterface \<Rightarrow> ('d BufferImpl, EntryPair) prog" where
  "readEntry cfg di =
     bindM (readEntryHeader cfg di) (\<lambda>entryHeader.
     bindM (getM cachedBufferHeader) (\<lambda>h.
     bindM (wraparoundRead cfg di (ucast (bmcReadPtr h)) (ucast (entrySize entryHeader))) (\<lambda>entry.
     let sum = xor (xor_all (entry_header_to_bytes entryHeader)) (xor_all entry)
     in if sum \<noteq> 0 then throwM (ChecksumNotZero sum) else returnM (entryHeader, entry))))"

text \<open>The \<open>while\<close> loop of \<open>readErrorLogs\<close>: every round reads at least an entry header.\<close>

function readEntries ::
  "config \<Rightarrow> 'd DataInterface \<Rightarrow> nat \<Rightarrow> nat \<Rightarrow> EntryPair list \<Rightarrow> ('d BufferImpl, EntryPair list) prog"
where
  "readEntries cfg di bytesToRead byteRead entryPairs s =
     (if byteRead < bytesToRead then
        case readEntry cfg di s of
          (Inl e, t) \<Rightarrow> (Inl e, t)
        | (Inr entryPair, t) \<Rightarrow>
            readEntries cfg di bytesToRead
              (byteRead + (entry_header_size + length (snd entryPair))) (entryPairs @ [entryPair]) t
      else (Inr entryPairs, s))"
  by pat_completeness auto

termination
  by (relation "measure (\<lambda>(cfg, di, bytesToRead, byteRead, entryPairs, s). bytesToRead - byteRead)")
    (auto simp: entry_header_size_def)

declare readEntries.simps [simp del]

definition readErrorLogs ::
  "config \<Rightarrow> 'd DataInterface \<Rightarrow> ('d BufferImpl, EntryPair list) prog" where
  "readErrorLogs cfg di =
     bindM (readBufferHeader di) (\<lambda>_.
     bindM (getMaxOffset cfg) (\<lambda>maxOffset.
     bindM (getM cachedBufferHeader) (\<lambda>h.
     let currentBiosWritePtr = unat (biosWritePtr h); currentReadPtr = unat (bmcReadPtr h)
     in if currentBiosWritePtr > maxOffset
        then throwM (WritePtrTooBig currentBiosWritePtr maxOffset)
        else if currentReadPtr > maxOffset then throwM (ReadPtrTooBig currentReadPtr maxOffset)
        else if currentBiosWritePtr = currentReadPtr then returnM []
        else
          let bytesToRead =
                (if currentBiosWritePtr > currentReadPtr
                 then currentBiosWritePtr - currentReadPtr
                 else size_add cfg (maxOffset - currentReadPtr) currentBiosWritePtr)
          in bindM (readEntries cfg di bytesToRead 0 []) (\<lambda>entryPairs.
             bindM (getM cachedBufferHeader) (\<lambda>h.
             let currentReadPtr = unat (bmcReadPtr h)
             in if currentBiosWritePtr \<noteq> currentReadPtr
                then throwM (PointersDiffer currentBiosWritePtr currentReadPtr)
                else returnM entryPairs)))))"

definition readUeLogFromReservedRegion :: "'d DataInterface \<Rightarrow> ('d BufferImpl, bytes) prog" where
  "readUeLogFromReservedRegion di =
     bindM (readBufferHeader di) (\<lambda>_.
     bindM (getM cachedBufferHeader) (\<lambda>h.
     let currentUeRegionSize = ueRegionSize h
     in if currentUeRegionSize = 0 then returnM []
        else if and (xor (biosFlags h) (bmcFlags h)) flag_ueSwitch = 0 then returnM []
        else bindM (diM (di_read di (word_of_nat header_size) (ucast currentUeRegionSize)))
          (\<lambda>ueLogData.
             if length ueLogData = unat currentUeRegionSize then returnM ueLogData
             else throwM (UeReadShort (unat currentUeRegionSize) (length ueLogData)))))"

definition checkForOverflowAndAcknowledge :: "'d DataInterface \<Rightarrow> ('d BufferImpl, bool) prog" where
  "checkForOverflowAndAcknowledge di =
     bindM (readBufferHeader di) (\<lambda>_.
     bindM (getM cachedBufferHeader) (\<lambda>h.
     if and (xor (biosFlags h) (bmcFlags h)) flag_overflow \<noteq> 0
     then bindM (updateBmcFlags di (xor (bmcFlags h) flag_overflow)) (\<lambda>_. returnM True)
     else returnM False))"

end
