(* ===== verification/PciHandler.thy ===== *)
theory PciHandler
  imports Config DataInterface
begin

text \<open>
  \<^verbatim>\<open>src/pci_handler.cpp\<close>: the transport over the memory-mapped PCI bridge region. The object
  keeps the size it was given and the mapping; the byte-by-byte copies of the code are the
  loops \<open>copy_out\<close> and \<open>copy_in\<close>, which yield \<open>None\<close> on an access outside the mapping
  or the caller's span. \<^verbatim>\<open>mmap\<close> itself is the operating system's: the constructor takes the
  mapped bytes.
\<close>

record PciDataHandler =
  regionSize :: u32
  mmap :: bytes

definition PciDataHandler_new :: "nat \<Rightarrow> bytes \<Rightarrow> PciDataHandler" where
  "PciDataHandler_new sz mapped = \<lparr>regionSize = word_of_nat sz, mmap = mapped\<rparr>"

fun copy_out :: "bytes \<Rightarrow> nat \<Rightarrow> nat \<Rightarrow> bytes option" where
  "copy_out mem i 0 = Some []"
| "copy_out mem i (Suc n) =
     (if i < length mem then map_option (Cons (mem ! i)) (copy_out mem (Suc i) n) else None)"

fun copy_in :: "bytes \<Rightarrow> nat \<Rightarrow> bytes \<Rightarrow> nat \<Rightarrow> bytes option" where
  "copy_in mem i src 0 = Some mem"
| "copy_in mem i [] (Suc n) = None"
| "copy_in mem i (b # src) (Suc n) =
     (if i < length mem then copy_in (mem[i := b]) (Suc i) src n else None)"

definition PciDataHandler_read :: "u32 \<Rightarrow> u32 \<Rightarrow> (PciDataHandler, bytes) prog" where
  "PciDataHandler_read offset len h =
     (if offset > regionSize h \<or> len = 0 then returnM [] h
      else
        let finalLength = (if offset + len < regionSize h then len else regionSize h - offset)
        in case copy_out (mmap h) (unat offset) (unat finalLength) of
             None \<Rightarrow> undefinedM h
           | Some results \<Rightarrow> returnM results h)"

definition PciDataHandler_write :: "config \<Rightarrow> u32 \<Rightarrow> bytes \<Rightarrow> (PciDataHandler, u32) prog" where
  "PciDataHandler_write cfg offset src h =
     (let len = length src
      in if offset > regionSize h \<or> len = 0 then returnM 0 h
      else
        let finalLength = (if size_add cfg (unat offset) len < unat (regionSize h)
                           then word_of_nat len else ucast (regionSize h - offset)) :: u16
        in case copy_in (mmap h) (unat offset) src (unat finalLength) of
             None \<Rightarrow> undefinedM h
           | Some mem \<Rightarrow> returnM (ucast finalLength) (h\<lparr>mmap := mem\<rparr>))"

definition PciDataHandler_getMemoryRegionSize :: "(PciDataHandler, u32) prog" where
  "PciDataHandler_getMemoryRegionSize = getM regionSize"

definition pci_interface :: "config \<Rightarrow> PciDataHandler DataInterface" where
  "pci_interface cfg =
     \<lparr>di_read = PciDataHandler_read, di_write = PciDataHandler_write cfg,
      di_getMemoryRegionSize = PciDataHandler_getMemoryRegionSize\<rparr>"

section \<open>The copy loops\<close>

lemma copy_out_slice: "i + n \<le> length mem \<Longrightarrow> copy_out mem i n = Some (slice i n mem)"
proof (induction n arbitrary: i)
  case 0
  then show ?case by simp
next
  case (Suc n)
  then have "copy_out mem (Suc i) n = Some (slice (Suc i) n mem)" by simp
  moreover have "slice i (Suc n) mem = mem ! i # slice (Suc i) n mem"
    using Suc.prems by (simp add: slice_def Cons_nth_drop_Suc [symmetric])
  ultimately show ?case using Suc.prems by simp
qed

lemma copy_out_outside: "length mem < i + n \<Longrightarrow> i \<le> length mem \<Longrightarrow> copy_out mem i n = None"
  by (induction n arbitrary: i) auto

lemma copy_in_overwrite:
  "i + n \<le> length mem \<Longrightarrow> n \<le> length src \<Longrightarrow> copy_in mem i src n = Some (overwrite mem i (take n src))"
proof (induction mem i src n rule: copy_in.induct)
  case (3 mem i b src n)
  then have "copy_in mem i (b # src) (Suc n) = Some (overwrite (mem[i := b]) (Suc i) (take n src))"
    by simp
  moreover have "overwrite (mem[i := b]) (Suc i) (take n src) = overwrite mem i (take (Suc n) (b # src))"
    using "3.prems" by (intro nth_equalityI) (auto simp: overwrite_nth nth_list_update nth_Cons')
  ultimately show ?case by simp
qed auto

section \<open>The handler gives access to one region\<close>

text \<open>The mapping has the size the handler was given, and \<open>size_t\<close> has at least 32 bits.\<close>

definition pci_good :: "config \<Rightarrow> PciDataHandler \<Rightarrow> bool" where
  "pci_good cfg h \<longleftrightarrow> 32 \<le> SIZE_T_BITS cfg \<and> length (mmap h) = unat (regionSize h)"

definition pci_store :: "nat \<Rightarrow> bytes \<Rightarrow> PciDataHandler \<Rightarrow> PciDataHandler" where
  "pci_store off bs h = h\<lparr>mmap := overwrite (mmap h) off bs\<rparr>"

lemma pci_new_good:
  "32 \<le> SIZE_T_BITS cfg \<Longrightarrow> length mapped = n \<Longrightarrow> n < 2 ^ 32 \<Longrightarrow>
   pci_good cfg (PciDataHandler_new n mapped)"
  by (simp add: pci_good_def PciDataHandler_new_def unat_of_nat)

lemma regionSize_bound: "unat (regionSize h) < 2 ^ 32"
  using unsigned_less [of "regionSize h", where 'a = nat] by simp

lemma unat_add_u32:
  "unat (a :: u32) + unat b < 2 ^ 32 \<Longrightarrow> unat (a + b) = unat a + unat b"
  by (simp add: unat_word_ariths)

text \<open>A read is clipped at the end of the region, as long as \<open>offset + length\<close> fits 32 bits.\<close>

lemma pci_read_clipped:
  assumes good: "pci_good cfg h" and off: "unat offset \<le> unat (regionSize h)"
    and fits: "unat offset + unat len < 2 ^ 32"
  shows "PciDataHandler_read offset len h =
    (Inr (slice (unat offset) (min (unat len) (unat (regionSize h) - unat offset)) (mmap h)), h)"
proof (cases "len = 0")
  case True
  then show ?thesis by (simp add: PciDataHandler_read_def prog_simps)
next
  case False
  let ?n = "if offset + len < regionSize h then len else regionSize h - offset"
  have le: "offset \<le> regionSize h" using off by (simp add: word_le_nat_alt)
  have "unat ?n = min (unat len) (unat (regionSize h) - unat offset)"
    using off le unat_add_u32 [OF fits] by (auto simp: word_less_nat_alt unat_sub)
  then have "copy_out (mmap h) (unat offset) (unat ?n) =
      Some (slice (unat offset) (min (unat len) (unat (regionSize h) - unat offset)) (mmap h))"
    using good off by (subst copy_out_slice) (auto simp: pci_good_def)
  then show ?thesis
    using False le by (simp add: PciDataHandler_read_def prog_simps Let_def)
qed

text \<open>So is a write, provided what remains is below 64 KiB: the length written is 16 bits wide.\<close>

lemma pci_write_clipped:
  assumes good: "pci_good cfg h" and off: "unat offset \<le> unat (regionSize h)"
    and fits: "unat offset + length src < 2 ^ 32"
    and small: "min (length src) (unat (regionSize h) - unat offset) < 2 ^ 16"
  shows "PciDataHandler_write cfg offset src h =
    (let n = min (length src) (unat (regionSize h) - unat offset)
     in (Inr (word_of_nat n), pci_store (unat offset) (take n src) h))"
proof (cases "src = []")
  case True
  then show ?thesis
    using good off by (simp add: PciDataHandler_write_def prog_simps pci_store_def pci_good_def)
next
  case False
  define n where "n = min (length src) (unat (regionSize h) - unat offset)"
  let ?n = "(if size_add cfg (unat offset) (length src) < unat (regionSize h)
     then word_of_nat (length src) else ucast (regionSize h - offset)) :: u16"
  have le: "offset \<le> regionSize h" using off by (simp add: word_le_nat_alt)
  have add: "size_add cfg (unat offset) (length src) = unat offset + length src"
    using good fits by (simp add: size_add_exact size_bits_bound pci_good_def)
  have rest: "ucast (regionSize h - offset) = (word_of_nat (unat (regionSize h) - unat offset) :: u16)"
    using le by (simp flip: unat_sub)
  have eq: "?n = word_of_nat n"
    unfolding add rest n_def by (auto simp: min_def intro: arg_cong [where f = word_of_nat])
  have n: "unat (word_of_nat n :: u16) = n"
    using small by (simp add: n_def unat_of_nat)
  then have n32: "ucast (word_of_nat n :: u16) = (word_of_nat n :: u32)"
    by (metis of_nat_unat)
  have "copy_in (mmap h) (unat offset) src n = Some (overwrite (mmap h) (unat offset) (take n src))"
    using good off by (intro copy_in_overwrite) (auto simp: n_def pci_good_def)
  then show ?thesis
    using False le unfolding n_def [symmetric]
    by (simp add: PciDataHandler_write_def prog_simps Let_def pci_store_def eq n n32 leD)
qed

interpretation pci: shared_region "pci_interface cfg" mmap "pci_good cfg" pci_store for cfg
proof
  fix d assume good: "pci_good cfg d"
  then show "length (mmap d) < 2 ^ 32"
    using regionSize_bound [of d] by (simp add: pci_good_def)
  from good show "di_getMemoryRegionSize (pci_interface cfg) d = (Inr (word_of_nat (length (mmap d))), d)"
    by (simp add: pci_interface_def PciDataHandler_getMemoryRegionSize_def prog_simps pci_good_def)
  fix off n :: u32
  assume "unat off + unat n \<le> length (mmap d)"
  then have "unat off + unat n \<le> unat (regionSize d)" using good by (simp add: pci_good_def)
  then show "di_read (pci_interface cfg) off n d = (Inr (slice (unat off) (unat n) (mmap d)), d)"
    using regionSize_bound [of d]
    by (simp add: pci_interface_def pci_read_clipped [OF good] min_absorb1)
next
  fix d and off :: u32 and bs :: bytes
  assume good: "pci_good cfg d" and len: "unat off + length bs \<le> length (mmap d)" "length bs < 2 ^ 16"
  have "unat off + length bs \<le> unat (regionSize d)" using good len by (simp add: pci_good_def)
  then show "di_write (pci_interface cfg) off bs d = (Inr (word_of_nat (length bs)), pci_store (unat off) bs d)"
    using regionSize_bound [of d] len
    by (simp add: pci_interface_def pci_write_clipped [OF good] min_absorb1)
qed (simp_all add: pci_store_def pci_good_def)

interpretation pci_clip: clipped_region "pci_interface cfg" mmap "pci_good cfg" pci_store for cfg
proof (intro_locales, unfold_locales)
  fix d and off n :: u32
  assume "pci_good cfg d" "unat off \<le> length (mmap d)" "unat off + unat n < 2 ^ 32"
  then show "di_read (pci_interface cfg) off n d =
      (Inr (slice (unat off) (min (unat n) (length (mmap d) - unat off)) (mmap d)), d)"
    using pci_read_clipped [of cfg d off n] by (simp add: pci_interface_def pci_good_def)
qed

end
