(* ===== verification/RdeTypes.thy ===== *)
theory RdeTypes
  imports ByteRegion
begin

text \<open>
  \<^verbatim>\<open>include/rde/rde_handler.hpp\<close>: the enumerations and the two packed command headers of the
  RDE messages. A packed struct read through a pointer is the parser of its bytes.
\<close>

text \<open>\<open>RdeCommandType\<close> has underlying type \<open>char\<close> and is cast from a byte: any value occurs.\<close>

type_synonym RdeCommandType = u8

definition RdeMultiPartReceiveResponse :: RdeCommandType where "RdeMultiPartReceiveResponse = 1"
definition RdeOperationInitRequest :: RdeCommandType where "RdeOperationInitRequest = 2"

datatype RdeDictTransferFlagState = RdeStateIdle | RdeStateStartRecvd

datatype RdeDecodeStatus =
    RdeOk
  | RdeInvalidCommand
  | RdeUnsupportedOperation
  | RdeNoDictionary
  | RdePayloadOverflow
  | RdeBejDecodingError
  | RdeInvalidPktOrder
  | RdeDictionaryError
  | RdeFileCreationFailed
  | RdeExternalStorerError
  | RdeInvalidChecksum
  | RdeStopFlagReceived

text \<open>\<open>static_cast<int>(status)\<close>.\<close>

fun status_code :: "RdeDecodeStatus \<Rightarrow> nat" where
  "status_code RdeOk = 0"
| "status_code RdeInvalidCommand = 1"
| "status_code RdeUnsupportedOperation = 2"
| "status_code RdeNoDictionary = 3"
| "status_code RdePayloadOverflow = 4"
| "status_code RdeBejDecodingError = 5"
| "status_code RdeInvalidPktOrder = 6"
| "status_code RdeDictionaryError = 7"
| "status_code RdeFileCreationFailed = 8"
| "status_code RdeExternalStorerError = 9"
| "status_code RdeInvalidChecksum = 10"
| "status_code RdeStopFlagReceived = 11"

lemma status_code_inj: "status_code a = status_code b \<longleftrightarrow> a = b"
  by (cases a; cases b) simp_all

text \<open>The statuses in the order of the enumeration.\<close>

instantiation RdeDecodeStatus :: linorder
begin

definition less_eq_RdeDecodeStatus :: "RdeDecodeStatus \<Rightarrow> RdeDecodeStatus \<Rightarrow> bool" where
  "less_eq_RdeDecodeStatus a b \<longleftrightarrow> status_code a \<le> status_code b"

definition less_RdeDecodeStatus :: "RdeDecodeStatus \<Rightarrow> RdeDecodeStatus \<Rightarrow> bool" where
  "less_RdeDecodeStatus a b \<longleftrightarrow> status_code a < status_code b"

instance
  by standard
    (auto simp: less_eq_RdeDecodeStatus_def less_RdeDecodeStatus_def status_code_inj)

end

definition RdeOpInitOperationUpdate :: u8 where "RdeOpInitOperationUpdate = 4"

definition RdeMRecFlagStart :: u8 where "RdeMRecFlagStart = 0"
definition RdeMRecFlagMiddle :: u8 where "RdeMRecFlagMiddle = 1"
definition RdeMRecFlagEnd :: u8 where "RdeMRecFlagEnd = 2"
definition RdeMRecFlagStartAndEnd :: u8 where "RdeMRecFlagStartAndEnd = 3"

section \<open>Packed headers\<close>

record RdeOperationInitReqHeader =
  resourceID :: u32
  operationID :: u16
  operationType :: u8
  locatorValid :: bool
  containsRequestPayload :: bool
  containsCustomRequestParameters :: bool
  sendDataTransferHandle :: u32
  operationLocatorLength :: u8
  requestPayloadLength :: u32

definition op_init_header_size :: nat where "op_init_header_size = 17"

definition op_init_header_of_bytes :: "bytes \<Rightarrow> RdeOperationInitReqHeader" where
  "op_init_header_of_bytes bs =
     \<lparr>resourceID = int_at bs 0 4, operationID = int_at bs 4 2, operationType = bs ! 6,
      locatorValid = bit (bs ! 7) 0, containsRequestPayload = bit (bs ! 7) 1,
      containsCustomRequestParameters = bit (bs ! 7) 2,
      sendDataTransferHandle = int_at bs 8 4, operationLocatorLength = bs ! 12,
      requestPayloadLength = int_at bs 13 4\<rparr>"

record MultipartReceiveResHeader =
  completionCode :: u8
  transferFlag :: u8
  nextDataTransferHandle :: u32
  dataLengthBytes :: u32

definition multi_header_size :: nat where "multi_header_size = 10"

definition multi_header_of_bytes :: "bytes \<Rightarrow> MultipartReceiveResHeader" where
  "multi_header_of_bytes bs =
     \<lparr>completionCode = bs ! 0, transferFlag = bs ! 1, nextDataTransferHandle = int_at bs 2 4,
      dataLengthBytes = int_at bs 6 4\<rparr>"

section \<open>Messages as the BIOS builds them\<close>

definition multi_header_to_bytes :: "MultipartReceiveResHeader \<Rightarrow> bytes" where
  "multi_header_to_bytes h = completionCode h # transferFlag h #
     le_bytes 4 (nextDataTransferHandle h) @ le_bytes 4 (dataLengthBytes h)"

text \<open>A multipart message: header, data, and after an end flag the four checksum bytes.\<close>

definition multi_message :: "u8 \<Rightarrow> u32 \<Rightarrow> bytes \<Rightarrow> bytes \<Rightarrow> bytes" where
  "multi_message flag resourceId d trailer =
     multi_header_to_bytes \<lparr>completionCode = 0, transferFlag = flag,
       nextDataTransferHandle = resourceId, dataLengthBytes = word_of_nat (length d)\<rparr> @ d @ trailer"

lemma multi_header_to_bytes_length [simp]: "length (multi_header_to_bytes h) = multi_header_size"
  by (simp add: multi_header_to_bytes_def multi_header_size_def)

lemma multi_header_of_to_bytes: "multi_header_of_bytes (multi_header_to_bytes h @ rest) = h"
  by (cases h) (simp add: multi_header_of_bytes_def multi_header_to_bytes_def int_at_def slice_def
      le_word_le_bytes)

lemma multi_message_header:
  "multi_header_of_bytes (multi_message flag r d tr) =
     \<lparr>completionCode = 0, transferFlag = flag, nextDataTransferHandle = r,
      dataLengthBytes = word_of_nat (length d)\<rparr>"
  by (simp add: multi_message_def multi_header_of_to_bytes)

lemma multi_message_length:
  "length (multi_message flag r d tr) = multi_header_size + (length d + length tr)"
  by (simp add: multi_message_def)

lemma multi_message_data:
  "slice multi_header_size n (multi_message flag r d tr) = slice 0 n (d @ tr)"
  by (simp add: multi_message_def slice_def)

lemma multi_message_trailer:
  "slice (multi_header_size + length d) n (multi_message flag r d tr) = slice 0 n tr"
  by (simp add: multi_message_def slice_def)

end
