(* ===== verification/Crc.thy ===== *)
theory Crc
  imports Prelude
begin

text \<open>
  The CRC-32 of \<^verbatim>\<open>src/rde/rde_handler.cpp\<close>: the table built once in the constructor, the
  byte-wise update over a stream, and the final inversion; and the reference it is equivalent to,
  the bit-serial division by the reflected polynomial.
\<close>

definition crcDevisor :: u32 where "crcDevisor = 0xedb88320"

text \<open>One bit of the division: \<open>rem = (rem & 1) ? (rem >> 1) ^ crcDevisor : rem >> 1\<close>.\<close>

definition crc_bit :: "u32 \<Rightarrow> u32" where
  "crc_bit rem = (if and rem 1 \<noteq> 0 then xor (drop_bit 1 rem) crcDevisor else drop_bit 1 rem)"

text \<open>\<open>calcCrcTable\<close>: entry \<open>i\<close> is eight bit steps from \<open>i\<close>.\<close>

definition calcCrcTable :: "u32 list" where
  "calcCrcTable = map (\<lambda>i. (crc_bit ^^ 8) (word_of_nat i)) [0..<256]"

text \<open>\<open>updateCrc\<close>: the loop over the stream, with the table of the object.\<close>

fun updateCrc :: "u32 list \<Rightarrow> u32 \<Rightarrow> u8 list \<Rightarrow> u32" where
  "updateCrc crcTable crc [] = crc"
| "updateCrc crcTable crc (b # stream) =
     updateCrc crcTable
       (xor (crcTable ! unat (and (xor crc (ucast b)) 0xff)) (drop_bit 8 crc)) stream"

definition finalChecksum :: "u32 \<Rightarrow> u32" where
  "finalChecksum crc = xor crc 0xFFFFFFFF"

section \<open>The reference: bit-serial CRC-32\<close>

text \<open>The message enters byte by byte, low bit first; each byte is eight division steps.\<close>

definition crc_byte :: "u32 \<Rightarrow> u8 \<Rightarrow> u32" where
  "crc_byte crc b = (crc_bit ^^ 8) (xor crc (ucast b))"

definition crc32 :: "u8 list \<Rightarrow> u32" where
  "crc32 bs = xor (foldl crc_byte 0xFFFFFFFF bs) 0xFFFFFFFF"

section \<open>Bit steps\<close>

lemma crc_bit_eq: "crc_bit rem = xor (drop_bit 1 rem) (if bit rem 0 then crcDevisor else 0)"
  by (simp add: crc_bit_def and_one_eq bit_0 even_iff_mod_2_eq_zero)

lemma crc_bit_xor: "crc_bit (xor a b) = xor (crc_bit a) (crc_bit b)"
  by (rule bit_word_eqI)
    (auto simp: crc_bit_eq bit_xor_iff bit_drop_bit_eq)

lemma crc_bits_xor: "(crc_bit ^^ n) (xor a b) = xor ((crc_bit ^^ n) a) ((crc_bit ^^ n) b)"
  by (induction n) (simp_all add: crc_bit_xor)

text \<open>As long as the low bits are clear, a step is a shift.\<close>

lemma crc_bits_shift:
  "(\<And>i. i < n \<Longrightarrow> \<not> bit a i) \<Longrightarrow> (crc_bit ^^ n) a = drop_bit n a"
proof (induction n arbitrary: a)
  case (Suc n)
  have "crc_bit a = drop_bit 1 a" using Suc.prems [of 0] by (simp add: crc_bit_eq)
  moreover have "(crc_bit ^^ n) (drop_bit 1 a) = drop_bit n (drop_bit 1 a)"
    using Suc.prems by (intro Suc.IH) (simp add: bit_drop_bit_eq)
  ultimately show ?case by (simp only: funpow_Suc_right comp_apply drop_bit_drop_bit) simp
qed simp

lemma xor_cancel: "xor (a :: 'a::len word) b = xor a c \<longleftrightarrow> b = c"
  by (metis xor.assoc xor.left_neutral xor_self_eq)

lemma xor_cancel_right: "xor (b :: 'a::len word) a = xor c a \<longleftrightarrow> b = c"
  by (metis xor_cancel xor.commute)

text \<open>The polynomial has its top bit set, so a step loses nothing.\<close>

lemma crc_bit_inj: "inj crc_bit"
proof (rule injI)
  fix a b :: u32 assume eq: "crc_bit a = crc_bit b"
  have top: "bit (crc_bit c) 31 = bit c 0" for c
    by (auto simp: crc_bit_eq bit_xor_iff bit_drop_bit_eq crcDevisor_def dest: bit_imp_le_length)
  have low: "bit a 0 = bit b 0" using eq top by metis
  then have "drop_bit 1 a = drop_bit 1 b"
    using eq by (auto simp: crc_bit_eq xor_cancel_right split: if_splits)
  then have "bit a (Suc n) = bit b (Suc n)" for n
    by (metis bit_drop_bit_eq comp_apply plus_1_eq_Suc)
  with low show "a = b" by (intro bit_word_eqI) (metis not0_implies_Suc)
qed

lemma crc_bits_inj: "inj (crc_bit ^^ n)"
  by (rule inj_fn [OF crc_bit_inj])

lemma crc_byte_inj_crc: "crc_byte a b = crc_byte c b \<longleftrightarrow> a = c"
  by (simp add: crc_byte_def inj_eq [OF crc_bits_inj] xor_cancel_right)

lemma ucast_byte_inj: "(ucast b :: u32) = ucast c \<longleftrightarrow> b = c" for b c :: u8
  by (rule ucast_up_inj) simp

lemma crc_byte_inj_byte: "crc_byte a b = crc_byte a c \<longleftrightarrow> b = c"
  by (simp add: crc_byte_def inj_eq [OF crc_bits_inj] xor_cancel ucast_byte_inj)

section \<open>The table-driven update is the reference\<close>

lemma calcCrcTable_nth: "i < 256 \<Longrightarrow> calcCrcTable ! i = (crc_bit ^^ 8) (word_of_nat i)"
  by (simp add: calcCrcTable_def)

lemma calcCrcTable_length: "length calcCrcTable = 256"
  by (simp add: calcCrcTable_def)

lemma table_step:
  "xor (calcCrcTable ! unat (and (xor crc (ucast b)) 0xff)) (drop_bit 8 crc) = crc_byte crc b"
proof -
  let ?x = "xor crc (ucast b)" and ?lo = "and (xor crc (ucast b)) 0xff"
  have "(0xff :: u32) = mask 8" by (simp add: mask_eq_exp_minus_1)
  then have lo: "?lo = take_bit 8 ?x" by (simp only: take_bit_eq_mask)
  have "unat ?lo < 256"
    unfolding lo using take_bit_nat_less_exp [of 8 "unat ?x"]
    by (simp only: unsigned_take_bit_eq) simp
  then have "calcCrcTable ! unat ?lo = (crc_bit ^^ 8) ?lo"
    by (simp add: calcCrcTable_nth)
  moreover have "drop_bit 8 crc = (crc_bit ^^ 8) (push_bit 8 (drop_bit 8 ?x))"
  proof -
    have "(crc_bit ^^ 8) (push_bit 8 (drop_bit 8 ?x)) = drop_bit 8 (push_bit 8 (drop_bit 8 ?x))"
      by (rule crc_bits_shift) (simp add: bit_push_bit_iff bit_xor_iff)
    also have "\<dots> = drop_bit 8 crc"
      by (rule bit_word_eqI)
        (auto simp: bit_drop_bit_eq bit_push_bit_iff bit_xor_iff bit_unsigned_iff dest: bit_imp_le_length)
    finally show ?thesis ..
  qed
  moreover have "xor ?lo (push_bit 8 (drop_bit 8 ?x)) = ?x"
    unfolding lo
  proof (rule bit_word_eqI)
    fix n assume "n < LENGTH(32)"
    then show "bit (xor (take_bit 8 ?x) (push_bit 8 (drop_bit 8 ?x))) n = bit ?x n"
      by (cases "n < 8") (auto simp: bit_xor_iff bit_take_bit_iff bit_push_bit_iff bit_drop_bit_eq)
  qed
  ultimately show ?thesis
    unfolding crc_byte_def by (metis crc_bits_xor)
qed

lemma updateCrc_foldl: "updateCrc calcCrcTable crc bs = foldl crc_byte crc bs"
  by (induction bs arbitrary: crc) (simp_all add: table_step)

lemma updateCrc_append:
  "updateCrc tab crc (as @ bs) = updateCrc tab (updateCrc tab crc as) bs"
  by (induction as arbitrary: crc) simp_all

lemma crc32_eq: "finalChecksum (updateCrc calcCrcTable 0xFFFFFFFF bs) = crc32 bs"
  by (simp add: finalChecksum_def crc32_def updateCrc_foldl)

section \<open>What the checksum detects\<close>

lemma crc_foldl_inj: "foldl crc_byte a bs = foldl crc_byte c bs \<longleftrightarrow> a = c"
  by (induction bs arbitrary: a c) (simp_all add: crc_byte_inj_crc)

text \<open>Two streams that differ in one byte only have different checksums.\<close>

lemma crc32_one_byte: "crc32 (as @ b # bs) = crc32 (as @ c # bs) \<longleftrightarrow> b = c"
  by (simp add: crc32_def xor_cancel_right crc_foldl_inj crc_byte_inj_byte)

end
