(* ===== verification/DictionaryManager.thy ===== *)
theory DictionaryManager
  imports Prelude
begin

text \<open>
  \<^verbatim>\<open>src/rde/rde_dictionary_manager.cpp\<close>: the BEJ dictionaries received so far, by PDR resource
  id, and the count of those that are complete. The \<open>unordered_map\<close> of owned entries is a
  partial map; the two private helpers that take a reference to an entry return the new count and
  the new entry.
\<close>

record DictionaryEntry =
  valid :: bool
  data :: bytes

record DictionaryManager =
  validDictionaryCount :: u32
  dictionaries :: "u32 \<rightharpoonup> DictionaryEntry"

definition annotationResourceId :: u32 where "annotationResourceId = 0"

definition DictionaryEntry_new :: "bool \<Rightarrow> bytes \<Rightarrow> DictionaryEntry" where
  "DictionaryEntry_new v d = \<lparr>valid = v, data = d\<rparr>"

definition DictionaryManager_new :: DictionaryManager where
  "DictionaryManager_new = \<lparr>validDictionaryCount = 0, dictionaries = Map.empty\<rparr>"

definition invalidateDictionaryEntry :: "u32 \<Rightarrow> DictionaryEntry \<Rightarrow> u32 \<times> DictionaryEntry" where
  "invalidateDictionaryEntry count entry =
     (if valid entry then count - 1 else count, entry\<lparr>valid := False\<rparr>)"

definition validateDictionaryEntry :: "u32 \<Rightarrow> DictionaryEntry \<Rightarrow> u32 \<times> DictionaryEntry" where
  "validateDictionaryEntry count entry =
     (if \<not> valid entry then count + 1 else count, entry\<lparr>valid := True\<rparr>)"

definition startDictionaryEntry :: "u32 \<Rightarrow> bytes \<Rightarrow> DictionaryManager \<Rightarrow> DictionaryManager" where
  "startDictionaryEntry resourceId d m =
     (case dictionaries m resourceId of
        None \<Rightarrow> m\<lparr>dictionaries := (dictionaries m)(resourceId \<mapsto> DictionaryEntry_new False d)\<rparr>
      | Some entry \<Rightarrow>
          case invalidateDictionaryEntry (validDictionaryCount m) entry of (count, entry') \<Rightarrow>
            m\<lparr>validDictionaryCount := count,
              dictionaries := (dictionaries m)(resourceId \<mapsto> entry'\<lparr>data := d\<rparr>)\<rparr>)"

definition markDataComplete :: "u32 \<Rightarrow> DictionaryManager \<Rightarrow> bool \<times> DictionaryManager" where
  "markDataComplete resourceId m =
     (case dictionaries m resourceId of
        None \<Rightarrow> (False, m)
      | Some entry \<Rightarrow>
          case validateDictionaryEntry (validDictionaryCount m) entry of (count, entry') \<Rightarrow>
            (True, m\<lparr>validDictionaryCount := count,
               dictionaries := (dictionaries m)(resourceId \<mapsto> entry')\<rparr>))"

definition addDictionaryData :: "u32 \<Rightarrow> bytes \<Rightarrow> DictionaryManager \<Rightarrow> bool \<times> DictionaryManager" where
  "addDictionaryData resourceId d m =
     (case dictionaries m resourceId of
        None \<Rightarrow> (False, m)
      | Some entry \<Rightarrow>
          case invalidateDictionaryEntry (validDictionaryCount m) entry of (count, entry') \<Rightarrow>
            (True, m\<lparr>validDictionaryCount := count,
               dictionaries := (dictionaries m)(resourceId \<mapsto> entry'\<lparr>data := data entry' @ d\<rparr>)\<rparr>))"

definition getDictionary :: "u32 \<Rightarrow> DictionaryManager \<Rightarrow> bytes option" where
  "getDictionary resourceId m =
     (case dictionaries m resourceId of
        None \<Rightarrow> None
      | Some entry \<Rightarrow> if \<not> valid entry then None else Some (data entry))"

definition getAnnotationDictionary :: "DictionaryManager \<Rightarrow> bytes option" where
  "getAnnotationDictionary m = getDictionary annotationResourceId m"

definition DictionaryManager_getDictionaryCount :: "DictionaryManager \<Rightarrow> u32" where
  "DictionaryManager_getDictionaryCount m = validDictionaryCount m"

definition invalidateDictionaries :: "DictionaryManager \<Rightarrow> DictionaryManager" where
  "invalidateDictionaries m =
     m\<lparr>validDictionaryCount := 0,
       dictionaries := (\<lambda>k. map_option (\<lambda>entry. entry\<lparr>valid := False\<rparr>) (dictionaries m k))\<rparr>"

section \<open>The interface the RDE handler relies on\<close>

text \<open>
  \<open>get\<close> is what a client can decode with, \<open>stored\<close> the bytes collected for a resource
  whether complete or not, \<open>count\<close> the number of complete dictionaries.
\<close>

locale dictionary_store =
  fixes new :: 'm
    and start :: "u32 \<Rightarrow> bytes \<Rightarrow> 'm \<Rightarrow> 'm"
    and add :: "u32 \<Rightarrow> bytes \<Rightarrow> 'm \<Rightarrow> bool \<times> 'm"
    and mark :: "u32 \<Rightarrow> 'm \<Rightarrow> bool \<times> 'm"
    and drop_all :: "'m \<Rightarrow> 'm"
    and get :: "u32 \<Rightarrow> 'm \<Rightarrow> bytes option"
    and count :: "'m \<Rightarrow> u32"
    and stored :: "'m \<Rightarrow> u32 \<Rightarrow> bytes option"
    and inv :: "'m \<Rightarrow> bool"
  assumes get_new: "get k new = None"
    and stored_new: "stored new k = None"
    and get_start: "get k (start r d m) = (if k = r then None else get k m)"
    and stored_start: "stored (start r d m) = (stored m)(r \<mapsto> d)"
    and add_found: "fst (add r d m) \<longleftrightarrow> stored m r \<noteq> None"
    and get_add: "get k (snd (add r d m)) = (if k = r then None else get k m)"
    and stored_add: "stored (snd (add r d m)) = (stored m)(r := map_option (\<lambda>x. x @ d) (stored m r))"
    and mark_found: "fst (mark r m) \<longleftrightarrow> stored m r \<noteq> None"
    and get_mark: "get k (snd (mark r m)) = (if k = r then stored m r else get k m)"
    and stored_mark: "stored (snd (mark r m)) = stored m"
    and get_drop_all: "get k (drop_all m) = None"
    and stored_drop_all: "stored (drop_all m) = stored m"
    and get_stored: "get k m = Some d \<Longrightarrow> stored m k = Some d"
    and count_inv: "inv m \<Longrightarrow> count m = word_of_nat (card {k. get k m \<noteq> None})"
    and inv_new: "inv new"
    and inv_start: "inv m \<Longrightarrow> inv (start r d m)"
    and inv_add: "inv m \<Longrightarrow> inv (snd (add r d m))"
    and inv_mark: "inv m \<Longrightarrow> inv (snd (mark r m))"
    and inv_drop_all: "inv m \<Longrightarrow> inv (drop_all m)"
begin

lemmas store_laws = get_start stored_start add_found get_add stored_add mark_found get_mark
  stored_mark get_drop_all stored_drop_all

lemmas inv_laws = inv_new inv_start inv_add inv_mark inv_drop_all

text \<open>
  Collecting a dictionary in parts: the parts accumulate in order, nothing is available under the
  resource id until it is marked complete, and other resources are untouched.
\<close>

lemma parts_stored:
  "stored (foldl (\<lambda>m d. snd (add r d m)) (start r d m) ds) r = Some (concat (d # ds))"
proof (induction ds rule: rev_induct)
  case (snoc x xs)
  then show ?case by (simp add: store_laws)
qed (simp add: store_laws)

lemma parts_get:
  "get k (foldl (\<lambda>m d. snd (add r d m)) (start r d m) ds) = (if k = r then None else get k m)"
  by (induction ds rule: rev_induct) (simp_all add: store_laws)

lemma parts_complete:
  "get k (snd (mark r (foldl (\<lambda>m d. snd (add r d m)) (start r d m) ds))) =
     (if k = r then Some (concat (d # ds)) else get k m)"
  by (simp add: store_laws parts_get parts_stored del: concat.simps)

lemma count_bound: "inv m \<Longrightarrow> (count m = 0) = (\<forall>k. get k m = None) \<or> (\<forall>k. get k m \<noteq> None)"
proof -
  assume inv: "inv m"
  let ?S = "{k. get k m \<noteq> None}"
  show ?thesis
  proof (cases "?S = UNIV")
    case False
    then have "card ?S < card (UNIV :: u32 set)" by (intro psubset_card_mono) auto
    then have "card ?S < 2 ^ 32" by (simp add: card_word)
    then have "unat (count m) = card ?S" using count_inv [OF inv] by (simp add: unat_of_nat)
    then have "count m = 0 \<longleftrightarrow> card ?S = 0" by (metis unat_eq_zero)
    then show ?thesis by (auto simp: card_eq_0_iff)
  qed auto
qed

end

section \<open>The dictionary manager provides it\<close>

definition stored_data :: "DictionaryManager \<Rightarrow> u32 \<Rightarrow> bytes option" where
  "stored_data m k = map_option data (dictionaries m k)"

definition complete_ids :: "DictionaryManager \<Rightarrow> u32 set" where
  "complete_ids m = {k. getDictionary k m \<noteq> None}"

text \<open>The invariant: the counter is the number of complete dictionaries (modulo its width).\<close>

definition dict_inv :: "DictionaryManager \<Rightarrow> bool" where
  "dict_inv m \<longleftrightarrow> validDictionaryCount m = word_of_nat (card (complete_ids m))"

lemma complete_ids_finite [simp]: "finite (complete_ids m)"
  by (rule finite)

lemma complete_ids_update [simp]:
  "complete_ids (m\<lparr>validDictionaryCount := n, dictionaries := ds\<rparr>) = complete_ids (m\<lparr>dictionaries := ds\<rparr>)"
  by (simp add: complete_ids_def getDictionary_def)

lemma complete_ids_upd:
  "complete_ids (m\<lparr>dictionaries := (dictionaries m)(k \<mapsto> e)\<rparr>) =
     (if valid e then insert k (complete_ids m) else complete_ids m - {k})"
  by (auto simp: complete_ids_def getDictionary_def)

lemma card_pred_word:
  "k \<in> complete_ids m \<Longrightarrow>
   word_of_nat (card (complete_ids m) - Suc 0) = (word_of_nat (card (complete_ids m)) - 1 :: u32)"
  using card_gt_0_iff [of "complete_ids m"] by (subst of_nat_diff) auto

lemma dict_inv_incomplete:
  assumes inv: "dict_inv m" and k: "dictionaries m k = Some e"
  shows "dict_inv (m\<lparr>validDictionaryCount := fst (invalidateDictionaryEntry (validDictionaryCount m) e),
    dictionaries := (dictionaries m)(k \<mapsto> (snd (invalidateDictionaryEntry (validDictionaryCount m) e))\<lparr>data := d\<rparr>)\<rparr>)"
    (is "dict_inv ?m")
proof -
  have "valid e \<longleftrightarrow> k \<in> complete_ids m"
    using k by (simp add: complete_ids_def getDictionary_def)
  then show ?thesis
    using inv by (simp add: dict_inv_def invalidateDictionaryEntry_def card_pred_word complete_ids_upd)
qed

lemma dict_inv_complete:
  assumes inv: "dict_inv m" and k: "dictionaries m k = Some e"
  shows "dict_inv (m\<lparr>validDictionaryCount := fst (validateDictionaryEntry (validDictionaryCount m) e),
    dictionaries := (dictionaries m)(k \<mapsto> snd (validateDictionaryEntry (validDictionaryCount m) e))\<rparr>)"
    (is "dict_inv ?m")
proof -
  have "valid e \<longleftrightarrow> k \<in> complete_ids m"
    using k by (simp add: complete_ids_def getDictionary_def)
  then show ?thesis
    using inv by (simp add: dict_inv_def validateDictionaryEntry_def insert_absorb complete_ids_upd)
qed

lemma dict_inv_start: "dict_inv m \<Longrightarrow> dict_inv (startDictionaryEntry r d m)"
proof (cases "dictionaries m r")
  case None
  moreover assume "dict_inv m"
  moreover have "complete_ids (startDictionaryEntry r d m) = complete_ids m"
    using None by (auto simp: complete_ids_def getDictionary_def startDictionaryEntry_def
      DictionaryEntry_new_def)
  ultimately show ?thesis by (simp add: dict_inv_def startDictionaryEntry_def)
next
  case (Some e)
  assume "dict_inv m"
  from dict_inv_incomplete [OF this Some, of d] Some show ?thesis
    by (simp add: startDictionaryEntry_def split_beta)
qed

lemma dict_inv_add: "dict_inv m \<Longrightarrow> dict_inv (snd (addDictionaryData r d m))"
  using dict_inv_incomplete [of m r]
  by (auto simp: addDictionaryData_def split_beta split: option.split)

lemma dict_inv_mark: "dict_inv m \<Longrightarrow> dict_inv (snd (markDataComplete r m))"
  using dict_inv_complete [of m r]
  by (auto simp: markDataComplete_def split_beta split: option.split)

lemma dict_inv_drop: "dict_inv (invalidateDictionaries m)"
proof -
  have "complete_ids (invalidateDictionaries m) = {}"
    by (auto simp: invalidateDictionaries_def complete_ids_def getDictionary_def split: option.splits)
  then show ?thesis by (simp add: dict_inv_def) (simp add: invalidateDictionaries_def)
qed

lemma dict_inv_new: "dict_inv DictionaryManager_new"
  by (simp add: dict_inv_def DictionaryManager_new_def complete_ids_def getDictionary_def)

lemmas manager_defs = DictionaryManager_new_def getDictionary_def stored_data_def
  startDictionaryEntry_def addDictionaryData_def markDataComplete_def invalidateDictionaries_def
  DictionaryEntry_new_def invalidateDictionaryEntry_def validateDictionaryEntry_def

interpretation dm: dictionary_store DictionaryManager_new startDictionaryEntry addDictionaryData
  markDataComplete invalidateDictionaries getDictionary DictionaryManager_getDictionaryCount
  stored_data dict_inv
proof (unfold_locales, goal_cases)
  case (14 m)
  then show ?case
    by (simp add: dict_inv_def DictionaryManager_getDictionaryCount_def complete_ids_def)
next
  case 15 show ?case by (rule dict_inv_new)
next
  case 16 then show ?case by (rule dict_inv_start)
next
  case 17 then show ?case by (rule dict_inv_add)
next
  case 18 then show ?case by (rule dict_inv_mark)
next
  case 19 show ?case by (rule dict_inv_drop)
qed (auto simp: manager_defs fun_eq_iff option.map_comp comp_def split: option.splits if_splits)

end
