(* ===== verification/RdeHandler.thy ===== *)
theory RdeHandler
  imports Config RdeTypes Crc DictionaryManager
begin

text \<open>
  \<^verbatim>\<open>src/rde/rde_handler.cpp\<close>: the command handler. The state holds the transfer flag state, the
  resource id of the last dictionary chunk, the dictionaries, the running CRC with its table, and
  the owned external storer \<open>'x\<close>. The BEJ decoder (libbej) and the storer's \<open>publishJson\<close>
  are functions of the environment record. A span that leaves the received command is undefined
  behaviour.
\<close>

text \<open>\<open>struct BejDictionaries\<close> as the handler fills it: data and its size cut to 32 bits.\<close>

record BejDictionaries =
  schemaDictionary :: bytes
  schemaDictionarySize :: u32
  annotationDictionary :: bytes
  annotationDictionarySize :: u32
  errorDictionary :: "bytes option"
  errorDictionarySize :: u32

record 'x RdeEnv =
  bej_decode :: "BejDictionaries \<Rightarrow> bytes \<Rightarrow> int \<times> string"
  publishJson :: "string \<Rightarrow> ('x, bool) prog"

record 'x RdeCommandHandler =
  flagState :: RdeDictTransferFlagState
  exStorer :: 'x
  prevDictResourceId :: u32
  dictionaryManager :: DictionaryManager
  crc :: u32
  crcTable :: "u32 list"

definition RdeCommandHandler_new :: "'x \<Rightarrow> 'x RdeCommandHandler" where
  "RdeCommandHandler_new ex =
     \<lparr>flagState = RdeStateIdle, exStorer = ex, prevDictResourceId = 0,
      dictionaryManager = DictionaryManager_new, crc = 0xFFFFFFFF, crcTable = calcCrcTable\<rparr>"

definition getDictionaryCount :: "('x RdeCommandHandler, u32) prog" where
  "getDictionaryCount = getM (DictionaryManager_getDictionaryCount \<circ> dictionaryManager)"

text \<open>\<open>std::span(ptr, n)\<close> over bytes of the command: \<open>None\<close> when it leaves the command.\<close>

definition span_at :: "bytes \<Rightarrow> nat \<Rightarrow> nat \<Rightarrow> bytes option" where
  "span_at cmd off n = (if off + n \<le> length cmd then Some (slice off n cmd) else None)"

definition spanM :: "bytes \<Rightarrow> nat \<Rightarrow> nat \<Rightarrow> ('s, bytes) prog" where
  "spanM cmd off n = (case span_at cmd off n of None \<Rightarrow> undefinedM | Some d \<Rightarrow> returnM d)"

text \<open>Calls on the members.\<close>

definition dictM :: "(DictionaryManager \<Rightarrow> DictionaryManager) \<Rightarrow> ('x RdeCommandHandler, unit) prog" where
  "dictM f = modifyM (\<lambda>s. s\<lparr>dictionaryManager := f (dictionaryManager s)\<rparr>)"

definition dictBoolM ::
  "(DictionaryManager \<Rightarrow> bool \<times> DictionaryManager) \<Rightarrow> ('x RdeCommandHandler, bool) prog" where
  "dictBoolM f s = (case f (dictionaryManager s) of (b, m) \<Rightarrow> (Inr b, s\<lparr>dictionaryManager := m\<rparr>))"

definition exM :: "('x, 'a) prog \<Rightarrow> ('x RdeCommandHandler, 'a) prog" where
  "exM = memberM exStorer (\<lambda>x s. s\<lparr>exStorer := x\<rparr>)"

definition updateCrcM :: "bytes \<Rightarrow> ('x RdeCommandHandler, unit) prog" where
  "updateCrcM stream = modifyM (\<lambda>s. s\<lparr>crc := updateCrc (crcTable s) (crc s) stream\<rparr>)"

section \<open>BEJ encoded data\<close>

definition operationInitRequest ::
  "config \<Rightarrow> 'x RdeEnv \<Rightarrow> bytes \<Rightarrow> ('x RdeCommandHandler, RdeDecodeStatus) prog" where
  "operationInitRequest cfg env rdeCommand =
     (if length rdeCommand < op_init_header_size then returnM RdeInvalidCommand
      else
      let header = op_init_header_of_bytes rdeCommand
      in if \<not> containsRequestPayload header then returnM RdeOk
      else
      let expectedTotalSize =
        size_add cfg (size_add cfg op_init_header_size (unat (operationLocatorLength header)))
          (unat (requestPayloadLength header))
      in if length rdeCommand < expectedTotalSize then returnM RdeInvalidCommand
      else if operationType header \<noteq> RdeOpInitOperationUpdate then returnM RdeUnsupportedOperation
      else if sendDataTransferHandle header \<noteq> 0 then returnM RdePayloadOverflow
      else bindM (getM dictionaryManager) (\<lambda>dm.
        case getDictionary (resourceID header) dm of
          None \<Rightarrow> returnM RdeNoDictionary
        | Some schemaDict \<Rightarrow>
        case getAnnotationDictionary dm of
          None \<Rightarrow> returnM RdeNoDictionary
        | Some annotationDict \<Rightarrow>
          let dictionaries =
            \<lparr>schemaDictionary = schemaDict, schemaDictionarySize = word_of_nat (length schemaDict),
             annotationDictionary = annotationDict,
             annotationDictionarySize = word_of_nat (length annotationDict),
             errorDictionary = None, errorDictionarySize = 0\<rparr>
          in bindM (spanM rdeCommand (op_init_header_size + unat (operationLocatorLength header))
                      (unat (requestPayloadLength header))) (\<lambda>encodedPldmBlock.
             case bej_decode env dictionaries encodedPldmBlock of (rc, output) \<Rightarrow>
             if rc \<noteq> 0 then returnM RdeBejDecodingError
             else bindM (exM (publishJson env output)) (\<lambda>published.
             if \<not> published then returnM RdeExternalStorerError else returnM RdeOk))))"

section \<open>Dictionary transfer\<close>

definition handleCrc ::
  "config \<Rightarrow> bytes \<Rightarrow> ('x RdeCommandHandler, RdeDecodeStatus) prog" where
  "handleCrc cfg cmd =
     (let header = multi_header_of_bytes cmd;
          expectedSize = size_add cfg (size_add cfg multi_header_size (unat (dataLengthBytes header))) 4
      in if expectedSize \<noteq> length cmd then returnM RdeInvalidCommand
         else bindM (spanM cmd (multi_header_size + unat (dataLengthBytes header)) 4) (\<lambda>checksumPtr.
           let sum = or (ucast (checksumPtr ! 0)) (or (push_bit 8 (ucast (checksumPtr ! 1)))
                 (or (push_bit 16 (ucast (checksumPtr ! 2))) (push_bit 24 (ucast (checksumPtr ! 3)))))
           in bindM (getM crc) (\<lambda>c.
              if finalChecksum c \<noteq> sum
              then bindM (dictM invalidateDictionaries) (\<lambda>_. returnM RdeInvalidChecksum)
              else returnM RdeOk)))"

definition handleFlagStart ::
  "MultipartReceiveResHeader \<Rightarrow> bytes \<Rightarrow> u32 \<Rightarrow> ('x RdeCommandHandler, unit) prog" where
  "handleFlagStart header cmd resourceId =
     bindM (modifyM (\<lambda>s. s\<lparr>crc := 0xFFFFFFFF\<rparr>)) (\<lambda>_.
     bindM (spanM cmd multi_header_size (unat (dataLengthBytes header))) (\<lambda>dataS.
     bindM (dictM (startDictionaryEntry resourceId dataS)) (\<lambda>_.
     bindM (updateCrcM dataS) (\<lambda>_.
     modifyM (\<lambda>s. s\<lparr>flagState := RdeStateStartRecvd\<rparr>)))))"

definition handleFlagMiddle ::
  "MultipartReceiveResHeader \<Rightarrow> bytes \<Rightarrow> u32 \<Rightarrow> ('x RdeCommandHandler, RdeDecodeStatus) prog" where
  "handleFlagMiddle header cmd resourceId =
     bindM (getM flagState) (\<lambda>st.
     if st \<noteq> RdeStateStartRecvd then returnM RdeInvalidPktOrder
     else bindM (spanM cmd multi_header_size (unat (dataLengthBytes header))) (\<lambda>dataS.
     bindM (getM prevDictResourceId) (\<lambda>prev.
     bindM (if prev \<noteq> resourceId
            then bindM (dictBoolM (markDataComplete prev)) (\<lambda>_.
                 bindM (dictM (startDictionaryEntry resourceId dataS)) (\<lambda>_. returnM True))
            else dictBoolM (addDictionaryData resourceId dataS)) (\<lambda>added.
     if \<not> added then returnM RdeDictionaryError
     else bindM (updateCrcM dataS) (\<lambda>_. returnM RdeOk)))))"

definition handleFlagEnd ::
  "config \<Rightarrow> MultipartReceiveResHeader \<Rightarrow> bytes \<Rightarrow> u32 \<Rightarrow> ('x RdeCommandHandler, RdeDecodeStatus) prog"
where
  "handleFlagEnd cfg header cmd resourceId =
     bindM (getM flagState) (\<lambda>st.
     if st \<noteq> RdeStateStartRecvd then returnM RdeInvalidPktOrder
     else bindM (modifyM (\<lambda>s. s\<lparr>flagState := RdeStateIdle\<rparr>)) (\<lambda>_.
     bindM (spanM cmd multi_header_size (unat (dataLengthBytes header))) (\<lambda>dataS.
     bindM (getM prevDictResourceId) (\<lambda>prev.
     bindM (if prev \<noteq> resourceId
            then bindM (dictBoolM (markDataComplete prev)) (\<lambda>_.
                 bindM (dictM (startDictionaryEntry resourceId dataS)) (\<lambda>_. returnM True))
            else dictBoolM (addDictionaryData resourceId dataS)) (\<lambda>added.
     if \<not> added then returnM RdeDictionaryError
     else bindM (dictBoolM (markDataComplete resourceId)) (\<lambda>_.
     bindM (updateCrcM dataS) (\<lambda>_.
     bindM (handleCrc cfg cmd) (\<lambda>ret.
     if ret \<noteq> RdeOk then returnM ret else returnM RdeStopFlagReceived))))))))"

definition handleFlagStartAndEnd ::
  "config \<Rightarrow> MultipartReceiveResHeader \<Rightarrow> bytes \<Rightarrow> u32 \<Rightarrow> ('x RdeCommandHandler, RdeDecodeStatus) prog"
where
  "handleFlagStartAndEnd cfg header cmd resourceId =
     bindM (modifyM (\<lambda>s. s\<lparr>crc := 0xFFFFFFFF\<rparr>)) (\<lambda>_.
     bindM (spanM cmd multi_header_size (unat (dataLengthBytes header))) (\<lambda>dataS.
     bindM (dictM (startDictionaryEntry resourceId dataS)) (\<lambda>_.
     bindM (dictBoolM (markDataComplete resourceId)) (\<lambda>_.
     bindM (modifyM (\<lambda>s. s\<lparr>flagState := RdeStateIdle\<rparr>)) (\<lambda>_.
     bindM (updateCrcM dataS) (\<lambda>_.
     bindM (handleCrc cfg cmd) (\<lambda>ret.
     if ret \<noteq> RdeOk then returnM ret else returnM RdeStopFlagReceived)))))))"

definition multiPartReceiveResp ::
  "config \<Rightarrow> bytes \<Rightarrow> ('x RdeCommandHandler, RdeDecodeStatus) prog" where
  "multiPartReceiveResp cfg rdeCommand =
     (if length rdeCommand < multi_header_size then returnM RdeInvalidCommand
      else
      let header = multi_header_of_bytes rdeCommand
      in if length rdeCommand < size_add cfg multi_header_size (unat (dataLengthBytes header))
         then returnM RdeInvalidCommand
      else
      let resourceId = nextDataTransferHandle header; flag = transferFlag header
      in bindM
           (if flag = RdeMRecFlagStart
            then bindM (handleFlagStart header rdeCommand resourceId) (\<lambda>_. returnM RdeOk)
            else if flag = RdeMRecFlagMiddle then handleFlagMiddle header rdeCommand resourceId
            else if flag = RdeMRecFlagEnd then handleFlagEnd cfg header rdeCommand resourceId
            else if flag = RdeMRecFlagStartAndEnd
            then handleFlagStartAndEnd cfg header rdeCommand resourceId
            else returnM RdeInvalidCommand) (\<lambda>ret.
         bindM (modifyM (\<lambda>s. s\<lparr>prevDictResourceId := resourceId\<rparr>)) (\<lambda>_. returnM ret)))"

definition decodeRdeCommand ::
  "config \<Rightarrow> 'x RdeEnv \<Rightarrow> bytes \<Rightarrow> RdeCommandType \<Rightarrow> ('x RdeCommandHandler, RdeDecodeStatus) prog"
where
  "decodeRdeCommand cfg env rdeCommand type =
     (if type = RdeMultiPartReceiveResponse then multiPartReceiveResp cfg rdeCommand
      else if type = RdeOperationInitRequest then operationInitRequest cfg env rdeCommand
      else returnM RdeInvalidCommand)"

end
