(* ===== verification/FileNotifier.thy ===== *)
theory FileNotifier
  imports Prelude
begin

text \<open>
  \<^verbatim>\<open>include/dbus/file_notifier.hpp\<close> and \<^verbatim>\<open>src/rde/notifier_dbus_handler.cpp\<close>: the D-Bus
  objects that announce the path of a new log file. The object server (sdbusplus) is a record of
  its operations on a server state \<open>'o\<close>, with interface handles \<open>'h\<close>; removing an interface
  happens in a destructor and does not throw.
\<close>

record ('o, 'h) ObjectServer =
  add_interface :: "string \<Rightarrow> string \<Rightarrow> ('o, 'h) prog"
  register_property :: "'h \<Rightarrow> string \<Rightarrow> string \<Rightarrow> ('o, unit) prog"
  iface_initialize :: "'h \<Rightarrow> ('o, unit) prog"
  remove_interface :: "'h \<Rightarrow> 'o \<Rightarrow> 'o"

definition cperBasePath :: string where
  "cperBasePath = ''/xyz/openbmc_project/external_storer/bios_bmc_smm_error_logger/CPER''"

text \<open>Decimal digits, as \<open>std::format\<close> prints an unsigned integer.\<close>

definition digit :: "nat \<Rightarrow> char" where
  "digit d = char_of (48 + d)"

fun decimal :: "nat \<Rightarrow> string" where
  "decimal n = (if n < 10 then [digit n] else decimal (n div 10) @ [digit (n mod 10)])"

declare decimal.simps [simp del]

definition generatePath :: "u64 \<Rightarrow> string" where
  "generatePath entry = cperBasePath @ ''/entry'' @ decimal (unat entry)"

text \<open>The constructor; its result is the handle the object keeps. The destructor removes it.\<close>

definition CperFileNotifier_new ::
  "('o, 'h) ObjectServer \<Rightarrow> string \<Rightarrow> u64 \<Rightarrow> ('o, 'h) prog" where
  "CperFileNotifier_new server filePath entry =
     bindM (add_interface server (generatePath entry) ''xyz.openbmc_project.Common.FilePath'') (\<lambda>pathIface.
     bindM (register_property server pathIface ''Path'' filePath) (\<lambda>_.
     bindM (iface_initialize server pathIface) (\<lambda>_. returnM pathIface)))"

definition CperFileNotifier_delete :: "('o, 'h) ObjectServer \<Rightarrow> 'h \<Rightarrow> ('o, unit) prog" where
  "CperFileNotifier_delete server pathIface = modifyM (remove_interface server pathIface)"

record 'o CperFileNotifierHandler =
  objManager :: string
  objServer :: 'o
  nextEntry :: u64

definition CperFileNotifierHandler_new :: "'o \<Rightarrow> 'o CperFileNotifierHandler" where
  "CperFileNotifierHandler_new conn =
     \<lparr>objManager = cperBasePath, objServer = conn, nextEntry = 0\<rparr>"

definition serverM :: "('o, 'a) prog \<Rightarrow> ('o CperFileNotifierHandler, 'a) prog" where
  "serverM = memberM objServer (\<lambda>d s. s\<lparr>objServer := d\<rparr>)"

text \<open>\<open>createEntry\<close>: the object is owned by a local \<open>unique_ptr\<close> and dies with the call.\<close>

definition createEntry ::
  "('o, 'h) ObjectServer \<Rightarrow> string \<Rightarrow> ('o CperFileNotifierHandler, unit) prog" where
  "createEntry server filePath =
     bindM (getM nextEntry) (\<lambda>n.
     bindM (serverM (CperFileNotifier_new server filePath n)) (\<lambda>obj.
     bindM (modifyM (\<lambda>s. s\<lparr>nextEntry := nextEntry s + 1\<rparr>)) (\<lambda>_.
     serverM (CperFileNotifier_delete server obj))))"

section \<open>Object paths are distinct\<close>

fun decimal_value :: "string \<Rightarrow> nat" where
  "decimal_value s = foldl (\<lambda>v c. 10 * v + (of_char c - 48)) 0 s"

lemma digit_value: "d < 10 \<Longrightarrow> of_char (digit d) - 48 = d"
  by (simp add: digit_def)

lemma decimal_value: "decimal_value (decimal n) = n"
proof (induction n rule: decimal.induct)
  case (1 n)
  then show ?case by (cases "n < 10") (simp_all add: decimal.simps [of n] digit_value)
qed

lemma decimal_inj: "decimal m = decimal n \<longleftrightarrow> m = n"
  by (metis decimal_value)

lemma generatePath_inj: "generatePath a = generatePath b \<longleftrightarrow> a = b"
  by (auto simp: generatePath_def decimal_inj intro: unsigned_word_eqI)

section \<open>The effect of a notification\<close>

lemma createEntry_run:
  assumes "CperFileNotifier_new server filePath (nextEntry s) (objServer s) = (Inr h, srv)"
  shows "createEntry server filePath s =
    (Inr (), s\<lparr>objServer := remove_interface server h srv, nextEntry := nextEntry s + 1\<rparr>)"
  using assms
  by (simp add: createEntry_def prog_simps bindM_def serverM_def memberM_def
      CperFileNotifier_delete_def)

lemma createEntry_throws:
  assumes "CperFileNotifier_new server filePath (nextEntry s) (objServer s) = (Inl e, srv)"
  shows "createEntry server filePath s = (Inl e, s\<lparr>objServer := srv\<rparr>)"
  using assms by (simp add: createEntry_def prog_simps bindM_def serverM_def memberM_def)

end
