(* ===== verification/FileWriter.thy ===== *)
theory FileWriter
  imports Prelude
begin

text \<open>
  \<open>ExternalStorerFileWriter\<close> of \<^verbatim>\<open>src/rde/external_storer_file.cpp\<close>: path checks, folders and
  files below a base directory. Paths are strings with the POSIX meaning \<open>std::filesystem\<close>
  gives them; the file system itself is a record of the calls the class makes, on a state
  \<open>'f\<close>. \<open>fs_write_file\<close> is the output stream opened, written and closed: the class does not
  look at its state.
\<close>

section \<open>Paths\<close>

definition has_root_directory :: "string \<Rightarrow> bool" where
  "has_root_directory p \<longleftrightarrow> p \<noteq> [] \<and> hd p = CHR ''/''"

definition relative_path :: "string \<Rightarrow> string" where
  "relative_path p = dropWhile (\<lambda>c. c = CHR ''/'') p"

text \<open>
  The elements an iterator over a relative path visits: the names between runs of slashes, and an
  empty last element after a trailing slash.
\<close>

function path_parts :: "string \<Rightarrow> string list" where
  "path_parts p =
     (let name = takeWhile (\<lambda>c. c \<noteq> CHR ''/'') p; rest = dropWhile (\<lambda>c. c \<noteq> CHR ''/'') p
      in if p = [] then []
         else if rest = [] then [name]
         else if relative_path rest = [] then [name, []]
         else name # path_parts (relative_path rest))"
  by pat_completeness auto

termination
proof (relation "measure length", goal_cases)
  case (2 p name rest)
  have "rest \<noteq> []" "hd rest = CHR ''/''" using 2 hd_dropWhile [of "\<lambda>c. c \<noteq> CHR ''/''" p] by auto
  then have "length (relative_path rest) < length rest"
    by (cases rest) (simp_all add: relative_path_def length_dropWhile_le le_imp_less_Suc)
  also have "length rest \<le> length p" using 2 by (simp add: length_dropWhile_le)
  finally show ?case by simp
qed simp

declare path_parts.simps [simp del]

text \<open>\<open>operator/\<close>.\<close>

definition path_append :: "string \<Rightarrow> string \<Rightarrow> string" where
  "path_append base p =
     (if has_root_directory p then p
      else if base = [] \<or> last base = CHR ''/'' then base @ p
      else base @ ''/'' @ p)"

section \<open>The class\<close>

record ('f, 'j) FileSystem =
  fs_is_directory :: "string \<Rightarrow> ('f, bool) prog"
  fs_create_directories :: "string \<Rightarrow> ('f, bool) prog"
  fs_write_file :: "string \<Rightarrow> 'j \<Rightarrow> ('f, unit) prog"
  fs_remove_all :: "string \<Rightarrow> ('f, bool) prog"

record 'f ExternalStorerFileWriter =
  baseDir :: string
  fileSystem :: 'f

definition ExternalStorerFileWriter_new :: "string \<Rightarrow> 'f \<Rightarrow> 'f ExternalStorerFileWriter" where
  "ExternalStorerFileWriter_new base f = \<lparr>baseDir = base, fileSystem = f\<rparr>"

definition fsM :: "('f, 'a) prog \<Rightarrow> ('f ExternalStorerFileWriter, 'a) prog" where
  "fsM = memberM fileSystem (\<lambda>f s. s\<lparr>fileSystem := f\<rparr>)"

definition getRelativePath :: "string \<Rightarrow> string" where
  "getRelativePath path_str =
     (if has_root_directory path_str then relative_path path_str else path_str)"

text \<open>The loop over the path elements with its \<open>depth\<close> counter.\<close>

fun valid_parts :: "int \<Rightarrow> string list \<Rightarrow> bool" where
  "valid_parts depth [] \<longleftrightarrow> True"
| "valid_parts depth (part # parts) \<longleftrightarrow>
     (if part = ''..''
      then (if depth - 1 < 0 then False else valid_parts (depth - 1) parts)
      else if part \<noteq> ''.'' then valid_parts (depth + 1) parts
      else valid_parts depth parts)"

definition isValidPath :: "string \<Rightarrow> bool" where
  "isValidPath folderPath = valid_parts 0 (path_parts (getRelativePath folderPath))"

definition createFolder ::
  "('f, 'j) FileSystem \<Rightarrow> string \<Rightarrow> ('f ExternalStorerFileWriter, bool) prog" where
  "createFolder fs folderPath =
     (if \<not> isValidPath folderPath then returnM False
      else bindM (getM baseDir) (\<lambda>base.
        let path = path_append base (getRelativePath folderPath)
        in bindM (fsM (fs_is_directory fs path)) (\<lambda>isDir.
           if \<not> isDir
           then bindM (fsM (fs_create_directories fs path)) (\<lambda>created.
                if \<not> created then returnM False else returnM True)
           else returnM True)))"

definition createFile ::
  "('f, 'j) FileSystem \<Rightarrow> string \<Rightarrow> 'j \<Rightarrow> ('f ExternalStorerFileWriter, bool) prog" where
  "createFile fs folderPath jsonPdr =
     bindM (createFolder fs folderPath) (\<lambda>ok.
     if \<not> ok then returnM False
     else bindM (getM baseDir) (\<lambda>base.
       let path = path_append (path_append base (getRelativePath folderPath)) ''index.json''
       in bindM (fsM (fs_write_file fs path jsonPdr)) (\<lambda>_. returnM True)))"

definition removeAll ::
  "('f, 'j) FileSystem \<Rightarrow> string \<Rightarrow> ('f ExternalStorerFileWriter, bool) prog" where
  "removeAll fs filePath =
     (if \<not> isValidPath filePath then returnM False
      else bindM (getM baseDir) (\<lambda>base.
        bindM (fsM (fs_remove_all fs (path_append base (getRelativePath filePath)))) (\<lambda>ec.
        if ec then returnM False else returnM True)))"

section \<open>Confinement\<close>

text \<open>
  Following path elements from the directory \<open>st\<close>, element by element (lexically: no symbolic
  links). A relative path stays inside when no step of it leaves the directory it starts from,
  whatever that directory is.
\<close>

fun walk :: "string list \<Rightarrow> string list \<Rightarrow> string list" where
  "walk st [] = st"
| "walk st (part # parts) =
     walk (if part = ''..'' then butlast st else if part = ''.'' \<or> part = [] then st
           else st @ [part]) parts"

definition stays :: "string list \<Rightarrow> bool" where
  "stays parts \<longleftrightarrow> (\<forall>base n. \<exists>sub. walk base (take n parts) = base @ sub)"

definition inside :: "string \<Rightarrow> string \<Rightarrow> bool" where
  "inside base p \<longleftrightarrow>
     (\<exists>rel. p = path_append base rel \<and> \<not> has_root_directory rel \<and> stays (path_parts rel))"

lemma walk_append: "walk st (ps @ qs) = walk (walk st ps) qs"
  by (induction ps arbitrary: st) simp_all

text \<open>Only the last element of a path can be empty.\<close>

definition proper :: "string list \<Rightarrow> bool" where
  "proper ps \<longleftrightarrow> [] \<notin> set (butlast ps)"

lemma valid_walk:
  assumes "valid_parts d ps" "proper ps" "d = int (length st)"
  shows "\<exists>sub. walk (base @ st) (take n ps) = base @ sub"
  using assms
proof (induction d ps arbitrary: st n rule: valid_parts.induct)
  case (2 d part parts)
  show ?case
  proof (cases "n = 0 \<or> parts = [] \<and> part = []")
    case True
    then show ?thesis by (cases n) simp_all
  next
    case False
    then obtain m where n: "n = Suc m" by (cases n) auto
    have proper: "proper parts" and "part \<noteq> []"
      using 2(5) False by (auto simp: proper_def split: if_splits)
    consider "part = ''..''" "0 < d" "valid_parts (d - 1) parts"
      | "part = ''.''" "valid_parts d parts"
      | "part \<noteq> ''..''" "part \<noteq> ''.''" "valid_parts (d + 1) parts"
      using 2(4) by (auto split: if_splits)
    then show ?thesis
    proof cases
      case 1
      then show ?thesis
        using "2.IH"(1) [of "butlast st" m] 2(6) proper
        by (cases st rule: rev_cases) (simp_all add: n butlast_append)
    next
      case 2
      then show ?thesis using "2.IH"(3) [of st m] "2.prems"(3) proper by (simp add: n)
    next
      case 3
      then show ?thesis
        using "2.IH"(2) [of "st @ [part]" m] "2.prems"(3) proper \<open>part \<noteq> []\<close> by (simp add: n)
    qed
  qed
qed simp

lemma invalid_walk:
  assumes "\<not> valid_parts d ps" "d = int (length st)" "proper ps"
  shows "\<exists>n. walk (base @ st) (take n ps) = butlast base"
  using assms
proof (induction d ps arbitrary: st rule: valid_parts.induct)
  case (2 d part parts)
  have "parts \<noteq> []" if "part \<noteq> ''..''" using 2(4) that by (auto split: if_splits)
  then have proper: "proper parts" and name: "part \<noteq> ''..'' \<Longrightarrow> part \<noteq> []"
    using 2(6) by (auto simp: proper_def split: if_splits)
  have step: "\<exists>n. walk (base @ st') (take n parts) = butlast base \<Longrightarrow>
      walk (base @ st) [part] = base @ st' \<Longrightarrow> ?case" for st'
    using walk_append [of "base @ st" "[part]"]
    by (metis append_Cons append_Nil take_Suc_Cons)
  consider "part = ''..''" "d \<le> 0" | "part = ''..''" "0 < d" "\<not> valid_parts (d - 1) parts"
      | "part = ''.''" "\<not> valid_parts d parts"
      | "part \<noteq> ''..''" "part \<noteq> ''.''" "\<not> valid_parts (d + 1) parts"
    using 2(4) by (auto split: if_splits)
  then show ?case
  proof cases
    case 1
    then show ?thesis using 2(5) by (intro exI [of _ 1]) simp
  next
    case 2
    then have "st \<noteq> []" using "2.prems"(2) by auto
    then have "walk (base @ st) [part] = base @ butlast st" using 2 by (simp add: butlast_append)
    then show ?thesis
      using "2.IH"(1) [of "butlast st"] 2 "2.prems"(2) proper \<open>st \<noteq> []\<close> by (intro step) simp_all
  next
    case 3
    then show ?thesis using "2.IH"(3) [of st] "2.prems"(2) proper by (intro step [of st]) simp_all
  next
    case 4
    then show ?thesis
      using "2.IH"(2) [of "st @ [part]"] "2.prems"(2) proper name
      by (intro step [of "st @ [part]"]) simp_all
  qed
qed simp

lemma valid_parts_stays: "proper ps \<Longrightarrow> valid_parts 0 ps \<longleftrightarrow> stays ps"
proof
  assume "proper ps" "valid_parts 0 ps"
  then show "stays ps" unfolding stays_def using valid_walk [of 0 ps "[]"] by simp
next
  assume proper: "proper ps" and stays: "stays ps"
  show "valid_parts 0 ps"
  proof (rule ccontr)
    assume "\<not> valid_parts 0 ps"
    then obtain n where "walk [''base''] (take n ps) = []"
      using invalid_walk [of 0 ps "[]" "[''base'']"] proper by auto
    then show False using stays unfolding stays_def by (metis append_is_Nil_conv not_Cons_self2)
  qed
qed

lemma path_parts_proper: "\<not> has_root_directory p \<Longrightarrow> proper (path_parts p)"
proof (induction p rule: path_parts.induct)
  case (1 p)
  define name rest where "name = takeWhile (\<lambda>c. c \<noteq> CHR ''/'') p"
    and "rest = dropWhile (\<lambda>c. c \<noteq> CHR ''/'') p"
  have "\<not> has_root_directory (relative_path rest)"
    using hd_dropWhile [of "\<lambda>c. c = CHR ''/''" rest]
    by (force simp: has_root_directory_def relative_path_def simp del: dropWhile_eq_Nil_conv)
  moreover have "name \<noteq> []" if "p \<noteq> []"
    using 1(2) that by (cases p) (auto simp: name_def has_root_directory_def)
  ultimately show ?case
    using 1(1) [OF name_def rest_def]
    by (subst path_parts.simps) (auto simp: Let_def proper_def name_def [symmetric] rest_def [symmetric])
qed

lemma relative_no_root: "\<not> has_root_directory (getRelativePath p)"
proof -
  have "\<not> has_root_directory (relative_path p)"
    using hd_dropWhile [of "\<lambda>c. c = CHR ''/''" p]
    by (force simp: has_root_directory_def relative_path_def simp del: dropWhile_eq_Nil_conv)
  then show ?thesis by (simp add: getRelativePath_def)
qed

lemma isValidPath_stays: "isValidPath p \<longleftrightarrow> stays (path_parts (getRelativePath p))"
  unfolding isValidPath_def by (intro valid_parts_stays path_parts_proper relative_no_root)

text \<open>A file in the directory of a path.\<close>

lemma relative_path_append:
  "relative_path (xs @ ys) = (if relative_path xs = [] then relative_path ys else relative_path xs @ ys)"
  by (simp add: relative_path_def dropWhile_append)

lemma relative_path_id: "\<not> has_root_directory p \<Longrightarrow> relative_path p = p"
  by (cases p) (auto simp: relative_path_def has_root_directory_def)

lemma path_parts_name:
  assumes "CHR ''/'' \<notin> set name" "name \<noteq> []" "rest \<noteq> [] \<longrightarrow> hd rest = CHR ''/''"
  shows "path_parts (name @ rest) =
    (if rest = [] then [name] else if relative_path rest = [] then [name, []]
     else name # path_parts (relative_path rest))"
proof -
  have "takeWhile (\<lambda>c. c \<noteq> CHR ''/'') (name @ rest) = name"
    "dropWhile (\<lambda>c. c \<noteq> CHR ''/'') (name @ rest) = rest"
    using assms by (cases rest; auto simp: takeWhile_append dropWhile_append takeWhile_eq_all_conv)+
  with assms(2) show ?thesis by (subst path_parts.simps) (simp only: Let_def, simp)
qed

text \<open>The first name of a relative path and what follows it.\<close>

lemma first_part:
  assumes "p \<noteq> []" "\<not> has_root_directory p"
  defines "name \<equiv> takeWhile (\<lambda>c. c \<noteq> CHR ''/'') p" and "rest \<equiv> dropWhile (\<lambda>c. c \<noteq> CHR ''/'') p"
  shows "p = name @ rest" "CHR ''/'' \<notin> set name" "name \<noteq> []" "rest \<noteq> [] \<longrightarrow> hd rest = CHR ''/''"
proof -
  show "p = name @ rest" by (simp add: name_def rest_def)
  show "CHR ''/'' \<notin> set name" using set_takeWhileD [of "CHR ''/''" _ p] by (auto simp: name_def)
  show "name \<noteq> []" using assms(1,2) by (cases p) (simp_all add: name_def has_root_directory_def)
  show "rest \<noteq> [] \<longrightarrow> hd rest = CHR ''/''"
    using hd_dropWhile [of "\<lambda>c. c \<noteq> CHR ''/''" p] by (auto simp: rest_def)
qed

lemma path_parts_file:
  assumes f: "CHR ''/'' \<notin> set f" "f \<noteq> []" and p: "\<not> has_root_directory p"
  shows "path_parts (path_append p f) =
    (if p \<noteq> [] \<and> last (path_parts p) = [] then butlast (path_parts p) else path_parts p) @ [f]"
  using p
proof (induction p rule: path_parts.induct)
  case (1 p)
  have root: "\<not> has_root_directory f" using f by (cases f) (auto simp: has_root_directory_def)
  have slash: "relative_path (''/'' @ f) = f"
    using relative_path_id [OF root] by (simp add: relative_path_def)
  have single: "path_parts f = [f]" using path_parts_name [of f "[]"] f by simp
  show ?case
  proof (cases "p = []")
    case True
    then show ?thesis by (simp add: path_append_def root single path_parts.simps [of "[]"])
  next
    case False
    define name rest where "name = takeWhile (\<lambda>c. c \<noteq> CHR ''/'') p"
      and "rest = dropWhile (\<lambda>c. c \<noteq> CHR ''/'') p"
    note p = first_part(1) [OF False 1(2), folded name_def rest_def]
      and name = first_part(2-4) [OF False 1(2), folded name_def rest_def]
    note parts = path_parts_name [OF name(1,2)]
    let ?q = "relative_path rest"
    have q: "\<not> has_root_directory ?q"
      using relative_no_root [of rest] name(3) by (cases rest) (auto simp: getRelativePath_def
        has_root_directory_def relative_path_def)
    consider "rest = []" | "rest \<noteq> []" "?q = []" | "rest \<noteq> []" "?q \<noteq> []" by blast
    then show ?thesis
    proof cases
      case 1
      then have "last p \<noteq> CHR ''/''" using name by (metis append_Nil2 last_in_set p)
      then have "path_append p f = name @ ''/'' @ f" using 1 False by (simp add: path_append_def root p)
      then show ?thesis
        using parts [of "''/'' @ f", unfolded slash] parts [of "[]"] 1 f name by (simp add: p single)
    next
      case 2
      then have "set rest \<subseteq> {CHR ''/''}" by (auto simp: relative_path_def dropWhile_eq_Nil_conv)
      then have "last rest = CHR ''/''" using subsetD [OF _ last_in_set [OF 2(1)]] by fastforce
      then have "last p = CHR ''/''" using 2(1) by (simp add: p)
      then have "path_append p f = name @ rest @ f" using False by (simp add: path_append_def root p)
      then show ?thesis
        using parts [of "rest @ f"] parts [of rest] 2 f name
        by (simp add: relative_path_append relative_path_id [OF root] p single)
    next
      case 3
      have "rest = takeWhile (\<lambda>c. c = CHR ''/'') rest @ ?q" by (simp add: relative_path_def)
      then have "last rest = last ?q" using 3 by (metis last_appendR)
      then have last: "last p = last ?q" using 3 by (simp add: p)
      have "path_parts ?q \<noteq> []" using 3 by (subst path_parts.simps) (simp add: Let_def)
      moreover have "path_parts p = name # path_parts ?q" using parts [of rest] name 3 by (simp add: p)
      moreover obtain x where "path_append p f = name @ rest @ x" "path_append ?q f = ?q @ x"
        using False 3 last by (cases "last p = CHR ''/''") (auto simp: path_append_def root p)
      moreover have "path_parts (name @ rest @ x) = name # path_parts (?q @ x)" for x
        using parts [of "rest @ x"] name 3 by (simp add: relative_path_append)
      ultimately show ?thesis
        using 1(1) [OF name_def rest_def False] 3 q False by simp
    qed
  qed
qed

lemma stays_file:
  assumes stays: "stays ps" and f: "f \<noteq> ''..''" and ne: "ps \<noteq> []"
  shows "stays ((if last ps = [] then butlast ps else ps) @ [f])"
proof -
  have more: "stays (qs @ [f])" if "stays qs" for qs
    unfolding stays_def
  proof (intro allI)
    fix base n
    have "\<exists>sub. walk base (take (length qs) qs) = base @ sub" using that unfolding stays_def by blast
    then obtain sub where sub: "walk base qs = base @ sub" by auto
    show "\<exists>sub. walk base (take n (qs @ [f])) = base @ sub"
    proof (cases "n \<le> length qs")
      case True
      then show ?thesis using that unfolding stays_def by simp
    next
      case False
      then have "take n (qs @ [f]) = qs @ [f]" by simp
      then show ?thesis using sub f by (simp only: walk_append) simp
    qed
  qed
  have "stays (butlast ps)"
    using stays unfolding stays_def by (metis butlast_conv_take take_take)
  with stays more show ?thesis by simp
qed

lemma inside_path: "isValidPath p \<Longrightarrow> inside base (path_append base (getRelativePath p))"
  unfolding inside_def using relative_no_root isValidPath_stays by blast

lemma path_append_assoc:
  assumes "\<not> has_root_directory p" "\<not> has_root_directory f"
  shows "path_append (path_append base p) f = path_append base (path_append p f)"
  using assms by (auto simp: path_append_def has_root_directory_def split: if_splits)

lemma inside_file:
  assumes "isValidPath p"
  shows "inside base (path_append (path_append base (getRelativePath p)) ''index.json'')"
proof -
  let ?p = "getRelativePath p" and ?f = "''index.json''"
  have root: "\<not> has_root_directory ?p" "\<not> has_root_directory ?f"
    by (rule relative_no_root) (simp add: has_root_directory_def)
  have parts: "path_parts (path_append ?p ?f) =
      (if ?p \<noteq> [] \<and> last (path_parts ?p) = [] then butlast (path_parts ?p) else path_parts ?p) @ [?f]"
    by (rule path_parts_file) (simp_all add: root)
  have stays: "stays (path_parts ?p)" using assms isValidPath_stays by simp
  have "path_parts ?p = [] \<longleftrightarrow> ?p = []" by (subst path_parts.simps) (simp add: Let_def)
  then have "stays (path_parts (path_append ?p ?f))"
    using stays_file [OF stays, of ?f] stays_def unfolding parts
    by (cases "?p = []") (auto simp: take_Cons' split: if_splits)
  moreover have "\<not> has_root_directory (path_append ?p ?f)"
    using root by (cases ?p) (auto simp: path_append_def has_root_directory_def)
  ultimately show ?thesis
    unfolding inside_def using path_append_assoc [OF root] by blast
qed

section \<open>What the writer can touch\<close>

text \<open>
  A property \<open>P\<close> of the file system that every call on a path inside the base directory keeps
  is kept by the writer, whatever paths and data it is given.
\<close>

definition confining :: "('f, 'j) FileSystem \<Rightarrow> string \<Rightarrow> ('f \<Rightarrow> bool) \<Rightarrow> bool" where
  "confining fs base P \<longleftrightarrow>
     (\<forall>p. inside base p \<longrightarrow> keeps P (fs_is_directory fs p) \<and> keeps P (fs_create_directories fs p) \<and>
       (\<forall>j. keeps P (fs_write_file fs p j)) \<and> keeps P (fs_remove_all fs p))"

definition writer_inv ::
  "('f, 'j) FileSystem \<Rightarrow> string \<Rightarrow> ('f \<Rightarrow> bool) \<Rightarrow> 'f ExternalStorerFileWriter \<Rightarrow> bool" where
  "writer_inv fs base P w \<longleftrightarrow> (confining fs base P \<longrightarrow> baseDir w = base \<and> P (fileSystem w))"

lemma keeps_fsM:
  assumes "\<And>P. confining fs base P \<Longrightarrow> keeps P m"
  shows "keeps (writer_inv fs base P) (fsM m)"
  using assms by (auto simp: keeps_def fsM_def memberM_def writer_inv_def split: prod.split) (metis snd_conv)

text \<open>The base directory is read before each call; it is the one of the invariant.\<close>

lemma keeps_baseDir:
  assumes "\<And>b. b = base \<Longrightarrow> keeps (writer_inv fs base P) (m b)"
  shows "keeps (writer_inv fs base P) (bindM (getM baseDir) m)"
proof (rule keepsI)
  fix s assume inv: "writer_inv fs base P s"
  show "writer_inv fs base P (snd (bindM (getM baseDir) m s))"
  proof (cases "confining fs base P")
    case True
    then have "baseDir s = base" using inv by (simp add: writer_inv_def)
    then show ?thesis
      using assms(1) [OF refl] inv by (simp add: keeps_def prog_simps)
  qed (simp add: writer_inv_def)
qed

lemma createFolder_keeps: "keeps (writer_inv fs base P) (createFolder fs p)"
  unfolding createFolder_def Let_def
  by (intro keeps_intros keeps_baseDir keeps_fsM; auto simp: confining_def inside_path)

lemma createFolder_valid: "createFolder fs p s = (Inr True, t) \<Longrightarrow> isValidPath p"
  by (auto simp: createFolder_def returnM_def split: if_splits)

lemma createFile_keeps: "keeps (writer_inv fs base P) (createFile fs p j)"
proof (rule keepsI)
  fix s assume inv: "writer_inv fs base P s"
  obtain r t where run: "createFolder fs p s = (r, t)" by fastforce
  have t: "writer_inv fs base P t" by (rule keepsD [OF createFolder_keeps inv run])
  let ?file = "\<lambda>base. path_append (path_append base (getRelativePath p)) ''index.json''"
  show "writer_inv fs base P (snd (createFile fs p j s))"
  proof (cases "r = Inr True")
    case True
    then have "isValidPath p" using run createFolder_valid by blast
    then have "keeps (writer_inv fs base P) (bindM (getM baseDir) (\<lambda>b.
        bindM (fsM (fs_write_file fs (?file b) j)) (\<lambda>_. returnM True)))"
      by (intro keeps_intros keeps_baseDir keeps_fsM; auto simp: confining_def inside_file)
    with t show ?thesis
      by (simp add: createFile_def bindM_def [of "createFolder fs p"] run True Let_def keeps_def)
  next
    case False
    then show ?thesis
      using t by (cases r) (auto simp: createFile_def bindM_def run returnM_def split: if_splits)
  qed
qed

lemma removeAll_keeps: "keeps (writer_inv fs base P) (removeAll fs p)"
  unfolding removeAll_def
  by (intro keeps_intros keeps_baseDir keeps_fsM; auto simp: confining_def inside_path)

end
