(* ===== verification/ExternalStorer.thy ===== *)
theory ExternalStorer
  imports FileNotifier FileWriter
begin

text \<open>
  \<open>ExternalStorerFileInterface\<close> of \<^verbatim>\<open>src/rde/external_storer_file.cpp\<close>: publishing a decoded
  log as a JSON file, with the two queues of log entry paths and the removal of the oldest entry.
  The JSON library, the random UUID generator, the D-Bus object server and the file handler behind
  the class's interface are arguments.
\<close>

section \<open>What the class calls\<close>

text \<open>
  nlohmann JSON on values \<open>'j\<close>. Parsing gives a value, a \<open>parse_error\<close>, or another exception
  of the library; reading a member as a string throws when it is not a string.
\<close>

datatype 'j parsed = Parsed 'j | ParseError | ParseThrows exn

record 'j JsonLib =
  json_parse :: "string \<Rightarrow> 'j parsed"
  json_contains :: "'j \<Rightarrow> string \<Rightarrow> bool"
  json_get_string :: "'j \<Rightarrow> string \<Rightarrow> string option"
  json_set_string :: "string \<Rightarrow> string \<Rightarrow> 'j \<Rightarrow> 'j"
  json_erase :: "string \<Rightarrow> 'j \<Rightarrow> 'j"
  json_empty :: 'j

text \<open>The virtual \<open>FileHandlerInterface\<close>.\<close>

record ('f, 'j) FileHandlerInterface =
  fh_createFolder :: "string \<Rightarrow> ('f, bool) prog"
  fh_createFile :: "string \<Rightarrow> 'j \<Rightarrow> ('f, bool) prog"
  fh_removeAll :: "string \<Rightarrow> ('f, bool) prog"

record ('f, 'j, 'g, 'o, 'h) StorerEnv =
  json_lib :: "'j JsonLib"
  file_iface :: "('f, 'j) FileHandlerInterface"
  next_uuid :: "('g, string) prog"
  object_server :: "('o, 'h) ObjectServer"

section \<open>The class\<close>

datatype JsonPdrType = logEntry | logService | other

record ('f, 'g, 'o) ExternalStorerFileInterface =
  rootPath :: string
  fileHandler :: 'f
  logServiceId :: string
  cperNotifier :: "'o CperFileNotifierHandler"
  randomGen :: 'g
  logEntrySavedQueue :: "string list"
  logEntryQueue :: "string list"
  maxNumSavedLogEntries :: u32
  maxNumLogEntries :: u32

definition ExternalStorerFileInterface_new ::
  "'o \<Rightarrow> string \<Rightarrow> 'f \<Rightarrow> 'g \<Rightarrow> u32 \<Rightarrow> u32 \<Rightarrow> ('f, 'g, 'o) ExternalStorerFileInterface" where
  "ExternalStorerFileInterface_new conn root fh gen numSavedLogEntries numLogEntries =
     \<lparr>rootPath = root, fileHandler = fh, logServiceId = [],
      cperNotifier = CperFileNotifierHandler_new conn, randomGen = gen, logEntrySavedQueue = [],
      logEntryQueue = [], maxNumSavedLogEntries = numSavedLogEntries, maxNumLogEntries = numLogEntries\<rparr>"

text \<open>The default arguments of the constructor.\<close>

definition default_numSavedLogEntries :: u32 where "default_numSavedLogEntries = 20"
definition default_numLogEntries :: u32 where "default_numLogEntries = 980"

text \<open>Calls on the members.\<close>

definition fhM :: "('f, 'a) prog \<Rightarrow> (('f, 'g, 'o) ExternalStorerFileInterface, 'a) prog" where
  "fhM = memberM fileHandler (\<lambda>f s. s\<lparr>fileHandler := f\<rparr>)"

definition genM :: "('g, 'a) prog \<Rightarrow> (('f, 'g, 'o) ExternalStorerFileInterface, 'a) prog" where
  "genM = memberM randomGen (\<lambda>g s. s\<lparr>randomGen := g\<rparr>)"

definition notifierM ::
  "('o CperFileNotifierHandler, 'a) prog \<Rightarrow> (('f, 'g, 'o) ExternalStorerFileInterface, 'a) prog" where
  "notifierM = memberM cperNotifier (\<lambda>n s. s\<lparr>cperNotifier := n\<rparr>)"

text \<open>\<open>std::string::find(needle) != npos\<close>.\<close>

fun has_substring :: "string \<Rightarrow> string \<Rightarrow> bool" where
  "has_substring needle [] \<longleftrightarrow> needle = []"
| "has_substring needle (c # cs) \<longleftrightarrow>
     take (length needle) (c # cs) = needle \<or> has_substring needle cs"

text \<open>Reading a string member; a value of another type throws.\<close>

definition get_string :: "'j JsonLib \<Rightarrow> 'j \<Rightarrow> string \<Rightarrow> ('s, string) prog" where
  "get_string jl j k =
     (case json_get_string jl j k of None \<Rightarrow> throwM (LibraryError ''type_error'') | Some v \<Rightarrow> returnM v)"

definition getSchemaType :: "'j JsonLib \<Rightarrow> 'j \<Rightarrow> ('s, JsonPdrType) prog" where
  "getSchemaType jl jsonSchema =
     bindM (get_string jl jsonSchema ''@odata.type'') (\<lambda>t.
     if has_substring ''LogEntry'' t then returnM logEntry
     else bindM (get_string jl jsonSchema ''@odata.type'') (\<lambda>t.
       if has_substring ''LogService'' t then returnM logService else returnM other))"

definition entry_path :: "string \<Rightarrow> string \<Rightarrow> string" where
  "entry_path serviceId uuid =
     ''/redfish/v1/Systems/system/LogServices/'' @ serviceId @ ''/Entries/'' @ uuid"

text \<open>
  Making room: when the queue is at its limit its oldest path is taken out and its files removed;
  \<open>front()\<close> of an empty queue is undefined. The result is whether the entry can be processed.
\<close>

definition evictOldest ::
  "('f, 'j) FileHandlerInterface \<Rightarrow> (('f, 'g, 'o) ExternalStorerFileInterface, bool) prog" where
  "evictOldest fh =
     bindM (getM logEntryQueue) (\<lambda>q.
     bindM (getM maxNumLogEntries) (\<lambda>limit.
     if length q = unat limit
     then (case q of
             [] \<Rightarrow> undefinedM
           | oldestFilePath # rest \<Rightarrow>
               bindM (modifyM (\<lambda>s. s\<lparr>logEntryQueue := rest\<rparr>)) (\<lambda>_.
               fhM (fh_removeAll fh oldestFilePath)))
     else returnM True))"

definition pushEntry :: "string \<Rightarrow> (('f, 'g, 'o) ExternalStorerFileInterface, unit) prog" where
  "pushEntry subPath =
     modifyM (\<lambda>s.
       if length (logEntrySavedQueue s) < unat (maxNumSavedLogEntries s)
       then s\<lparr>logEntrySavedQueue := logEntrySavedQueue s @ [subPath]\<rparr>
       else s\<lparr>logEntryQueue := logEntryQueue s @ [subPath]\<rparr>)"

text \<open>Writing, announcing and recording a new entry.\<close>

definition storeEntry ::
  "('f, 'j, 'g, 'o, 'h) StorerEnv \<Rightarrow> string \<Rightarrow> 'j \<Rightarrow> (('f, 'g, 'o) ExternalStorerFileInterface, bool) prog"
where
  "storeEntry env serviceId entry =
     bindM (genM (next_uuid env)) (\<lambda>id.
     let subPath = entry_path serviceId id;
         entry' = json_erase (json_lib env) ''@odata.id'' (json_set_string (json_lib env) ''Id'' id entry)
     in bindM (fhM (fh_createFile (file_iface env) subPath entry')) (\<lambda>created.
        if \<not> created then returnM False
        else bindM (getM rootPath) (\<lambda>root.
             bindM (notifierM (createEntry (object_server env) (root @ subPath @ ''/index.json''))) (\<lambda>_.
             bindM (pushEntry subPath) (\<lambda>_. returnM True)))))"

definition processLogEntry ::
  "('f, 'j, 'g, 'o, 'h) StorerEnv \<Rightarrow> 'j \<Rightarrow> (('f, 'g, 'o) ExternalStorerFileInterface, bool) prog" where
  "processLogEntry env entry =
     bindM (getM logServiceId) (\<lambda>serviceId.
     if serviceId = [] then returnM False
     else bindM (evictOldest (file_iface env)) (\<lambda>room.
     if \<not> room then returnM False
     else storeEntry env serviceId entry))"

text \<open>The member function \<open>createFile\<close> forwards to the file handler.\<close>

definition storer_createFile ::
  "('f, 'j, 'g, 'o, 'h) StorerEnv \<Rightarrow> string \<Rightarrow> 'j \<Rightarrow> (('f, 'g, 'o) ExternalStorerFileInterface, bool) prog"
where
  "storer_createFile env subPath jsonPdr = fhM (fh_createFile (file_iface env) subPath jsonPdr)"

definition processLogService ::
  "('f, 'j, 'g, 'o, 'h) StorerEnv \<Rightarrow> 'j \<Rightarrow> (('f, 'g, 'o) ExternalStorerFileInterface, bool) prog" where
  "processLogService env service =
     (let jl = json_lib env
      in if \<not> json_contains jl service ''@odata.id'' then returnM False
         else if \<not> json_contains jl service ''Id'' then returnM False
         else bindM (get_string jl service ''Id'') (\<lambda>id.
              bindM (modifyM (\<lambda>s. s\<lparr>logServiceId := id\<rparr>)) (\<lambda>_.
              bindM (get_string jl service ''@odata.id'') (\<lambda>path.
              bindM (storer_createFile env path service) (\<lambda>created.
              if \<not> created then returnM False
              else bindM (get_string jl service ''@odata.id'') (\<lambda>path.
                   storer_createFile env (path @ ''/Entries'') (json_empty jl)))))))"

definition processOtherTypes ::
  "('f, 'j, 'g, 'o, 'h) StorerEnv \<Rightarrow> 'j \<Rightarrow> (('f, 'g, 'o) ExternalStorerFileInterface, bool) prog" where
  "processOtherTypes env jsonPdr =
     (if \<not> json_contains (json_lib env) jsonPdr ''@odata.id'' then returnM False
      else bindM (get_string (json_lib env) jsonPdr ''@odata.id'') (\<lambda>path.
           storer_createFile env path jsonPdr))"

definition storer_publishJson ::
  "('f, 'j, 'g, 'o, 'h) StorerEnv \<Rightarrow> string \<Rightarrow> (('f, 'g, 'o) ExternalStorerFileInterface, bool) prog"
where
  "storer_publishJson env jsonStr =
     (case json_parse (json_lib env) jsonStr of
        ParseError \<Rightarrow> returnM False
      | ParseThrows e \<Rightarrow> throwM e
      | Parsed jsonDecoded \<Rightarrow>
          if \<not> json_contains (json_lib env) jsonDecoded ''@odata.type'' then returnM False
          else bindM (getSchemaType (json_lib env) jsonDecoded) (\<lambda>schemaType.
               if schemaType = logEntry then processLogEntry env jsonDecoded
               else if schemaType = logService then processLogService env jsonDecoded
               else processOtherTypes env jsonDecoded))"

text \<open>The file handler the daemon passes: the writer over a file system.\<close>

definition writer_interface ::
  "('f, 'j) FileSystem \<Rightarrow> ('f ExternalStorerFileWriter, 'j) FileHandlerInterface" where
  "writer_interface fs =
     \<lparr>fh_createFolder = createFolder fs, fh_createFile = createFile fs, fh_removeAll = removeAll fs\<rparr>"

end
