(* ===== verification/ReadLoop.thy ===== *)
theory ReadLoop
  imports Buffer PciHandler RdeHandler ExternalStorer
begin

text \<open>
  \<^verbatim>\<open>src/main.cpp\<close>: one run of the timer handler \<open>readLoop\<close> over the shared buffer and the
  command handler, and the objects \<open>main\<close> builds before it starts the timer. Re-arming the timer
  is the result of the run: \<open>True\<close> when \<open>async_wait\<close> was called again.
\<close>

record ('d, 'x) Daemon =
  bufferInterface :: "'d BufferImpl"
  rdeCommandHandler :: "'x RdeCommandHandler"

definition bufM :: "('d BufferImpl, 'a) prog \<Rightarrow> (('d, 'x) Daemon, 'a) prog" where
  "bufM = memberM bufferInterface (\<lambda>b s. s\<lparr>bufferInterface := b\<rparr>)"

definition rdeM :: "('x RdeCommandHandler, 'a) prog \<Rightarrow> (('d, 'x) Daemon, 'a) prog" where
  "rdeM = memberM rdeCommandHandler (\<lambda>h s. s\<lparr>rdeCommandHandler := h\<rparr>)"

text \<open>The constants of the anonymous namespace, at the types the calls pass them.\<close>

definition bmcInterfaceVersion_const :: "config \<Rightarrow> u32" where
  "bmcInterfaceVersion_const cfg = word_of_nat (BMC_INTERFACE_VERSION cfg)"

definition queueSize_const :: "config \<Rightarrow> u16" where
  "queueSize_const cfg = word_of_nat (QUEUE_REGION_SIZE cfg)"

definition ueRegionSize_const :: "config \<Rightarrow> u16" where
  "ueRegionSize_const cfg = word_of_nat (UE_REGION_SIZE cfg)"

definition magicNumber_const :: "config \<Rightarrow> u32 \<times> u32 \<times> u32 \<times> u32" where
  "magicNumber_const cfg = (case MAGIC_NUMBER cfg of (a, b, c, d) \<Rightarrow>
     (word_of_nat a, word_of_nat b, word_of_nat c, word_of_nat d))"

definition initializeBuffer :: "config \<Rightarrow> 'd DataInterface \<Rightarrow> ('d BufferImpl, unit) prog" where
  "initializeBuffer cfg di = initialize di (bmcInterfaceVersion_const cfg) (queueSize_const cfg)
     (ueRegionSize_const cfg) (magicNumber_const cfg)"

text \<open>The UE part of the \<open>try\<close> block.\<close>

definition processUeLog ::
  "config \<Rightarrow> 'd DataInterface \<Rightarrow> 'x RdeEnv \<Rightarrow> (('d, 'x) Daemon, unit) prog" where
  "processUeLog cfg di env =
     bindM (bufM (readUeLogFromReservedRegion di)) (\<lambda>ueLog.
     if ueLog \<noteq> [] then
       bindM (rdeM (decodeRdeCommand cfg env ueLog RdeOperationInitRequest)) (\<lambda>ueDecodeStatus.
       if ueDecodeStatus \<noteq> RdeOk \<and> ueDecodeStatus \<noteq> RdeStopFlagReceived
       then throwM (UeLogCorrupt (status_code ueDecodeStatus))
       else bindM (bufM getCachedBufferHeader) (\<lambda>bufferHeader.
            bufM (updateBmcFlags di (xor (bmcFlags bufferHeader) flag_ueSwitch))))
     else returnM ())"

text \<open>The loop over the entries.\<close>

fun processEntries ::
  "config \<Rightarrow> 'd DataInterface \<Rightarrow> 'x RdeEnv \<Rightarrow> EntryPair list \<Rightarrow> (('d, 'x) Daemon, unit) prog" where
  "processEntries cfg di env [] = returnM ()"
| "processEntries cfg di env ((entryHeader, entry) # entryPairs) =
     bindM (rdeM (decodeRdeCommand cfg env entry (rdeCommandType entryHeader))) (\<lambda>rdeDecodeStatus.
     bindM
       (if rdeDecodeStatus = RdeStopFlagReceived
        then bindM (bufM getCachedBufferHeader) (\<lambda>bufferHeader.
             bufM (updateBmcFlags di (or (bmcFlags bufferHeader) flag_ready)))
        else returnM ()) (\<lambda>_. processEntries cfg di env entryPairs))"

definition processLogs ::
  "config \<Rightarrow> 'd DataInterface \<Rightarrow> 'x RdeEnv \<Rightarrow> (('d, 'x) Daemon, unit) prog" where
  "processLogs cfg di env =
     bindM (processUeLog cfg di env) (\<lambda>_.
     bindM (bufM (checkForOverflowAndAcknowledge di)) (\<lambda>_.
     bindM (bufM (readErrorLogs cfg di)) (\<lambda>entryPairs.
     processEntries cfg di env entryPairs)))"

text \<open>
  The handler: both \<open>catch\<close> clauses re-initialise the buffer, and give up when that throws too.
\<close>

definition readLoop ::
  "config \<Rightarrow> 'd DataInterface \<Rightarrow> 'x RdeEnv \<Rightarrow> bool \<Rightarrow> (('d, 'x) Daemon, bool) prog" where
  "readLoop cfg di env error =
     (if error then returnM False
      else tryM (bindM (processLogs cfg di env) (\<lambda>_. returnM True)) (\<lambda>e.
             tryM (bindM (bufM (initializeBuffer cfg di)) (\<lambda>_. returnM True)) (\<lambda>reinit_e.
               returnM False)))"

section \<open>The objects of the daemon\<close>

text \<open>
  \<open>main\<close> up to the first \<open>async_wait\<close>: \<open>mapped\<close> are the bytes of the mapped region,
  \<open>f\<close>, \<open>g\<close> and \<open>o\<close> the file system, the UUID generator and the object server. An exception
  of \<open>initialize\<close> ends the program.
\<close>

type_synonym ('f, 'g, 'o) Storer = "('f ExternalStorerFileWriter, 'g, 'o) ExternalStorerFileInterface"

definition main_objects ::
  "config \<Rightarrow> bytes \<Rightarrow> 'f \<Rightarrow> 'g \<Rightarrow> 'o \<Rightarrow> (PciDataHandler, ('f, 'g, 'o) Storer) Daemon" where
  "main_objects cfg mapped f g ob =
     \<lparr>bufferInterface = BufferImpl_new (PciDataHandler_new (MEMORY_REGION_SIZE cfg) mapped),
      rdeCommandHandler = RdeCommandHandler_new
        (ExternalStorerFileInterface_new ob ''/run/bmcweb'' (ExternalStorerFileWriter_new ''/run/bmcweb'' f)
           g default_numSavedLogEntries default_numLogEntries)\<rparr>"

definition main_init ::
  "config \<Rightarrow> bytes \<Rightarrow> 'f \<Rightarrow> 'g \<Rightarrow> 'o \<Rightarrow>
   (fault + unit) \<times> (PciDataHandler, ('f, 'g, 'o) Storer) Daemon" where
  "main_init cfg mapped f g ob =
     bufM (initializeBuffer cfg (pci_interface cfg)) (main_objects cfg mapped f g ob)"

text \<open>The environment of the command handler: the storer over the given libraries.\<close>

definition daemon_env ::
  "(BejDictionaries \<Rightarrow> bytes \<Rightarrow> int \<times> string) \<Rightarrow> ('f, 'j) FileSystem \<Rightarrow> 'j JsonLib \<Rightarrow>
   ('g, string) prog \<Rightarrow> ('o, 'h) ObjectServer \<Rightarrow> ('f, 'g, 'o) Storer RdeEnv" where
  "daemon_env decode fs jl uuid server =
     \<lparr>bej_decode = decode,
      publishJson = storer_publishJson
        \<lparr>json_lib = jl, file_iface = writer_interface fs, next_uuid = uuid, object_server = server\<rparr>\<rparr>"

section \<open>Runs of the daemon\<close>

text \<open>
  The daemon with its timer, and the BIOS on the other side of the region: a tick runs the handler
  while the timer is armed (with or without an error of the wait), and between ticks the BIOS may
  leave any bytes of the same length in the region.
\<close>

inductive daemon_step ::
  "config \<Rightarrow> 'x RdeEnv \<Rightarrow> (PciDataHandler, 'x) Daemon \<times> bool \<Rightarrow> (PciDataHandler, 'x) Daemon \<times> bool \<Rightarrow> bool"
  for cfg env where
  tick: "readLoop cfg (pci_interface cfg) env err s = (Inr armed, t) \<Longrightarrow>
    daemon_step cfg env (s, True) (t, armed)"
| bios: "d = dataInterface (bufferInterface s) \<Longrightarrow> length bytes = length (mmap d) \<Longrightarrow>
    daemon_step cfg env (s, armed)
      (s\<lparr>bufferInterface := (bufferInterface s)\<lparr>dataInterface := d\<lparr>mmap := bytes\<rparr>\<rparr>\<rparr>, armed)"

inductive_cases daemon_stepE: "daemon_step cfg env a b"

inductive daemon_reach ::
  "config \<Rightarrow> 'x RdeEnv \<Rightarrow> (PciDataHandler, 'x) Daemon \<times> bool \<Rightarrow> (PciDataHandler, 'x) Daemon \<times> bool \<Rightarrow> bool"
  for cfg env a where
  start: "daemon_reach cfg env a a"
| step: "daemon_reach cfg env a b \<Longrightarrow> daemon_step cfg env b c \<Longrightarrow> daemon_reach cfg env a c"

end
