(* ===== verification/BufferSpec.thy ===== *)
theory BufferSpec
  imports Buffer
begin

text \<open>
  The specification the circular buffer is held to, on the level of the ring of queue bytes, and
  the notions its proofs share: the header the region stores, the queue as a ring, the encoding of
  an entry, and the reader as a function of the ring alone (no cached header, no transport, no
  fixed-width pointers, no wrap-around in two reads).
\<close>

section \<open>Queue geometry\<close>

definition max_offset :: "config \<Rightarrow> nat" where
  "max_offset cfg = QUEUE_REGION_SIZE cfg - UE_REGION_SIZE cfg - 48"

definition queue_offset :: "config \<Rightarrow> nat" where
  "queue_offset cfg = 48 + UE_REGION_SIZE cfg"

definition queue_ring :: "config \<Rightarrow> bytes \<Rightarrow> bytes" where
  "queue_ring cfg r = slice (queue_offset cfg) (max_offset cfg) r"

definition header_ok :: "config \<Rightarrow> CircularBufferHeader \<Rightarrow> bool" where
  "header_ok cfg h \<longleftrightarrow>
     unat (queueSize h) = QUEUE_REGION_SIZE cfg \<and> unat (ueRegionSize h) = UE_REGION_SIZE cfg"

text \<open>The cached header agrees with the one in the region.\<close>

definition in_sync :: "('d \<Rightarrow> bytes) \<Rightarrow> 'd BufferImpl \<Rightarrow> bool" where
  "in_sync region s \<longleftrightarrow> cachedBufferHeader s = header_of_bytes (region (dataInterface s))"

lemma geometry:
  assumes "wf_config cfg"
  shows "6 < max_offset cfg" "queue_offset cfg + max_offset cfg = QUEUE_REGION_SIZE cfg"
    "max_offset cfg < 2 ^ 16" "queue_offset cfg < 2 ^ 16" "48 \<le> queue_offset cfg"
    "48 \<le> QUEUE_REGION_SIZE cfg" "QUEUE_REGION_SIZE cfg < 2 ^ 16" "32 \<le> SIZE_T_BITS cfg"
  using assms by (auto simp: wf_config_def max_offset_def queue_offset_def)

lemma queue_ring_length:
  "wf_config cfg \<Longrightarrow> QUEUE_REGION_SIZE cfg \<le> length r \<Longrightarrow> length (queue_ring cfg r) = max_offset cfg"
  using geometry [of cfg] by (simp add: queue_ring_def)

text \<open>What is stored in the header leaves the queue alone.\<close>

lemma queue_ring_header_store:
  "wf_config cfg \<Longrightarrow> QUEUE_REGION_SIZE cfg \<le> length r \<Longrightarrow> p + length bs \<le> 48 \<Longrightarrow>
   queue_ring cfg (overwrite r p bs) = queue_ring cfg r"
  using geometry [of cfg] unfolding queue_ring_def by (intro slice_overwrite_after) auto

section \<open>Entries\<close>

definition entry_bytes :: "EntryPair \<Rightarrow> bytes" where
  "entry_bytes ep = entry_header_to_bytes (fst ep) @ snd ep"

definition entry_length :: "EntryPair \<Rightarrow> nat" where
  "entry_length ep = entry_header_size + length (snd ep)"

definition total_length :: "EntryPair list \<Rightarrow> nat" where
  "total_length es = sum_list (map entry_length es)"

text \<open>
  What the producer must write: the size field is the entry's size, the entry fits the queue, and
  all bytes of header and entry together XOR to zero.
\<close>

definition valid_entry :: "nat \<Rightarrow> EntryPair \<Rightarrow> bool" where
  "valid_entry m ep \<longleftrightarrow>
     unat (entrySize (fst ep)) = length (snd ep) \<and> length (snd ep) \<le> m \<and>
     xor_all (entry_bytes ep) = 0"

lemma entry_length_pos [simp]: "0 < entry_length ep"
  by (simp add: entry_length_def entry_header_size_def)

lemma entry_bytes_length [simp]: "length (entry_bytes ep) = entry_length ep"
  by (simp add: entry_bytes_def entry_length_def)

lemma total_length_simps [simp]:
  "total_length [] = 0" "total_length (e # es) = entry_length e + total_length es"
  "total_length (es @ fs) = total_length es + total_length fs"
  by (simp_all add: total_length_def)

lemma total_length_concat: "length (concat (map entry_bytes es)) = total_length es"
  by (induction es) auto

lemma xor_all_foldl: "foldl xor a bs = xor a (xor_all bs)" for a :: u8
proof (induction bs arbitrary: a)
  case (Cons b bs)
  have "xor_all (b # bs) = xor b (xor_all bs)"
    using Cons.IH [of b] by (simp add: xor_all_def)
  then show ?case using Cons.IH [of "xor a b"] by (simp add: xor.assoc)
qed (simp add: xor_all_def)

lemma xor_all_Nil [simp]: "xor_all [] = 0"
  by (simp add: xor_all_def)

lemma xor_all_append [simp]: "xor_all (as @ bs) = xor (xor_all as) (xor_all bs)"
  unfolding xor_all_def foldl_append by (subst xor_all_foldl) (simp only: xor_all_def)

lemma xor_all_Cons [simp]: "xor_all (b # bs) = xor b (xor_all bs)"
  using xor_all_foldl [of b bs] by (simp add: xor_all_def)

section \<open>The reader on the ring\<close>

text \<open>
  \<open>ring_entries r pos budget\<close> reads entries from \<open>pos\<close> until \<open>budget\<close> bytes are used up:
  the entries and the position after them, or the exception the code throws.
\<close>

function ring_entries :: "bytes \<Rightarrow> nat \<Rightarrow> nat \<Rightarrow> exn + (EntryPair list \<times> nat)" where
  "ring_entries r pos budget =
     (if budget = 0 then Inr ([], pos)
      else
        let h = entry_header_of_bytes (ring_read r pos 6); n = unat (entrySize h);
            e = ring_read r (pos + 6) n; sum = xor_all (entry_bytes (h, e))
        in if n > length r then Inl (LengthTooBig n (length r))
           else if sum \<noteq> 0 then Inl (ChecksumNotZero sum)
           else case ring_entries r ((pos + 6 + n) mod length r) (budget - (6 + n)) of
                  Inl x \<Rightarrow> Inl x
                | Inr (es, p) \<Rightarrow> Inr ((h, e) # es, p))"
  by pat_completeness auto

termination
  by (relation "measure (\<lambda>(r, pos, budget). budget)") auto

declare ring_entries.simps [simp del]

lemma ring_entries_zero [simp]: "ring_entries r pos 0 = Inr ([], pos)"
  by (simp add: ring_entries.simps)

text \<open>The candidate entry at a position, what the reader holds against it, and the reader's step.\<close>

definition entry_at :: "bytes \<Rightarrow> nat \<Rightarrow> EntryPair" where
  "entry_at r pos =
     (let h = entry_header_of_bytes (ring_read r pos 6) in (h, ring_read r (pos + 6) (unat (entrySize h))))"

definition entry_error :: "nat \<Rightarrow> EntryPair \<Rightarrow> exn option" where
  "entry_error m ep =
     (if length (snd ep) > m then Some (LengthTooBig (length (snd ep)) m)
      else if xor_all (entry_bytes ep) \<noteq> 0 then Some (ChecksumNotZero (xor_all (entry_bytes ep)))
      else None)"

lemma ring_entries_step:
  "0 < budget \<Longrightarrow> ring_entries r pos budget =
     (case entry_error (length r) (entry_at r pos) of Some x \<Rightarrow> Inl x
      | None \<Rightarrow> (case ring_entries r ((pos + entry_length (entry_at r pos)) mod length r)
            (budget - entry_length (entry_at r pos)) of
          Inl x \<Rightarrow> Inl x | Inr (es, p) \<Rightarrow> Inr (entry_at r pos # es, p)))"
  by (subst ring_entries.simps)
    (simp add: Let_def entry_at_def entry_error_def entry_length_def entry_header_size_def add.assoc
      split: sum.split)

text \<open>
  Reading one well-formed entry: if the ring holds an encoded valid entry at \<open>pos\<close>, the reader
  takes exactly that entry.
\<close>

lemma ring_entries_Cons:
  assumes ring: "ring_read r pos (entry_length ep) = entry_bytes ep"
    and valid: "valid_entry (length r) ep" and budget: "0 < budget"
  shows "ring_entries r pos budget =
    (case ring_entries r ((pos + entry_length ep) mod length r) (budget - entry_length ep) of
       Inl x \<Rightarrow> Inl x | Inr (es, p) \<Rightarrow> Inr (ep # es, p))"
proof -
  obtain h e where ep: "ep = (h, e)" by fastforce
  have len: "entry_length ep = 6 + length e"
    by (simp add: ep entry_length_def entry_header_size_def)
  have "ring_read r pos 6 @ ring_read r (pos + 6) (length e) = entry_header_to_bytes h @ e"
    using ring unfolding len ring_read_append by (simp add: ep entry_bytes_def)
  then have hd: "ring_read r pos 6 = entry_header_to_bytes h"
    and e: "ring_read r (pos + 6) (length e) = e"
    by (simp_all add: append_eq_append_conv entry_header_size_def)
  show ?thesis
    using valid budget
    by (subst ring_entries.simps)
      (simp add: Let_def hd e entry_header_of_to_bytes valid_entry_def ep entry_length_def
        entry_header_size_def add.assoc split: sum.split)
qed

text \<open>A stream of valid entries that fills the budget exactly is read back whole.\<close>

lemma ring_entries_complete:
  assumes "ring_read r pos (total_length es) = concat (map entry_bytes es)"
    and "\<forall>ep \<in> set es. valid_entry (length r) ep" and "pos < length r"
  shows "ring_entries r pos (total_length es) = Inr (es, (pos + total_length es) mod length r)"
  using assms
proof (induction es arbitrary: pos)
  case Nil
  then show ?case by simp
next
  case (Cons ep es)
  let ?n = "entry_length ep" and ?q = "(pos + entry_length ep) mod length r"
  have split: "ring_read r pos ?n @ ring_read r (pos + ?n) (total_length es) =
      entry_bytes ep @ concat (map entry_bytes es)"
    using Cons.prems(1) by (simp add: ring_read_append)
  then have one: "ring_read r pos ?n = entry_bytes ep"
    and rest: "ring_read r (pos + ?n) (total_length es) = concat (map entry_bytes es)"
    by (simp_all add: append_eq_append_conv)
  from rest have "ring_read r ?q (total_length es) = concat (map entry_bytes es)"
    by (simp add: ring_read_mod)
  moreover have "?q < length r" using Cons.prems(3) by (intro mod_less_divisor) auto
  ultimately have "ring_entries r ?q (total_length es) = Inr (es, (?q + total_length es) mod length r)"
    using Cons.IH Cons.prems(2) by simp
  then show ?case
    using Cons.prems(2) one
    by (subst ring_entries_Cons [where ep = ep]) (simp_all add: mod_add_left_eq add.assoc)
qed

text \<open>Whatever the reader returns is in the ring, valid, and uses up the budget.\<close>

lemma ring_entries_sound:
  assumes "ring_entries r pos budget = Inr (es, p)" "0 < length r" "pos \<le> length r"
  shows "ring_read r pos (total_length es) = concat (map entry_bytes es) \<and>
    (\<forall>ep \<in> set es. valid_entry (length r) ep) \<and> budget \<le> total_length es \<and>
    (0 < budget \<longrightarrow> total_length es < budget + (6 + length r)) \<and>
    p = (if budget = 0 then pos else (pos + total_length es) mod length r)"
  using assms
proof (induction r pos budget arbitrary: es p rule: ring_entries.induct)
  case (1 r pos budget)
  show ?case
  proof (cases "budget = 0")
    case True
    with 1 show ?thesis by simp
  next
    case False
    define h where "h = entry_header_of_bytes (ring_read r pos 6)"
    define n where "n = unat (entrySize h)"
    define e where "e = ring_read r (pos + 6) n"
    let ?q = "(pos + 6 + n) mod length r"
    have run: "n \<le> length r" "xor_all (entry_bytes (h, e)) = 0"
      and "\<exists>es'. ring_entries r ?q (budget - (6 + n)) = Inr (es', p) \<and> es = (h, e) # es'"
      using "1.prems"(1) False
      by (subst (asm) ring_entries.simps;
          auto simp: Let_def h_def n_def e_def split: if_splits sum.splits)+
    then obtain es' where rec: "ring_entries r ?q (budget - (6 + n)) = Inr (es', p)"
      and es: "es = (h, e) # es'" by blast
    have q: "?q \<le> length r" using "1.prems"(2) by (simp add: less_imp_le)
    have len: "entry_length (h, e) = 6 + n"
      by (simp add: entry_length_def entry_header_size_def e_def)
    have bytes: "entry_bytes (h, e) = ring_read r pos (6 + n)"
      by (simp add: entry_bytes_def h_def entry_header_to_of_bytes entry_header_size_def
          ring_read_append e_def)
    have IH: "ring_read r ?q (total_length es') = concat (map entry_bytes es')"
      "\<forall>ep \<in> set es'. valid_entry (length r) ep" "budget - (6 + n) \<le> total_length es'"
      "0 < budget - (6 + n) \<longrightarrow> total_length es' < budget - (6 + n) + (6 + length r)"
      "p = (if budget - (6 + n) = 0 then ?q else (?q + total_length es') mod length r)"
      using "1.IH" [OF False h_def n_def e_def refl _ _ rec "1.prems"(2) q] run by auto
    have "budget - (6 + n) = 0 \<Longrightarrow> es' = []" using rec by simp
    then show ?thesis
      using False IH run len bytes es
      by (cases "budget - (6 + n) = 0")
        (auto simp: ring_read_append ring_read_mod add.assoc valid_entry_def n_def e_def
          mod_add_left_eq)
  qed
qed

section \<open>The whole read, from the bytes of the region\<close>

text \<open>Bytes between the read and the write pointer, going around the ring.\<close>

definition ring_used :: "nat \<Rightarrow> nat \<Rightarrow> nat \<Rightarrow> nat" where
  "ring_used m rp wp = (if rp \<le> wp then wp - rp else (m - rp) + wp)"

definition logs_spec :: "config \<Rightarrow> bytes \<Rightarrow> exn + EntryPair list" where
  "logs_spec cfg r =
     (let h = header_of_bytes r; m = max_offset cfg;
          wp = unat (biosWritePtr h); rp = unat (bmcReadPtr h)
      in if unat (queueSize h) \<noteq> QUEUE_REGION_SIZE cfg
         then Inl (QueueSizeMismatch (unat (queueSize h)) (QUEUE_REGION_SIZE cfg))
         else if unat (ueRegionSize h) \<noteq> UE_REGION_SIZE cfg
         then Inl (UeRegionSizeMismatch (unat (ueRegionSize h)) (UE_REGION_SIZE cfg))
         else if wp > m then Inl (WritePtrTooBig wp m)
         else if rp > m then Inl (ReadPtrTooBig rp m)
         else if wp = rp then Inr []
         else case ring_entries (queue_ring cfg r) rp (ring_used m rp wp) of
                Inl x \<Rightarrow> Inl x
              | Inr (es, q) \<Rightarrow> if wp = q then Inr es else Inl (PointersDiffer wp q))"

text \<open>
  The contents of the queue: the region's header is consistent and the bytes between the pointers
  are exactly the encodings of \<open>es\<close>, each valid.
\<close>

definition queue_holds :: "config \<Rightarrow> bytes \<Rightarrow> EntryPair list \<Rightarrow> bool" where
  "queue_holds cfg r es \<longleftrightarrow>
     (let h = header_of_bytes r; m = max_offset cfg;
          wp = unat (biosWritePtr h); rp = unat (bmcReadPtr h)
      in header_ok cfg h \<and> wp < m \<and> rp < m \<and> ring_used m rp wp = total_length es \<and>
         ring_read (queue_ring cfg r) rp (total_length es) = concat (map entry_bytes es) \<and>
         (\<forall>ep \<in> set es. valid_entry m ep))"

lemma total_length_zero: "total_length es = 0 \<longleftrightarrow> es = []"
  by (cases es) auto

lemma ring_used_add: "rp < m \<Longrightarrow> wp < m \<Longrightarrow> (rp + ring_used m rp wp) mod m = wp"
  by (auto simp: ring_used_def)

lemma logs_spec_complete:
  assumes cfg: "wf_config cfg" "QUEUE_REGION_SIZE cfg \<le> length r" and holds: "queue_holds cfg r es"
  shows "logs_spec cfg r = Inr es"
proof -
  define rp where "rp = unat (bmcReadPtr (header_of_bytes r))"
  define wp where "wp = unat (biosWritePtr (header_of_bytes r))"
  define m where "m = max_offset cfg"
  note h = holds [unfolded queue_holds_def Let_def, folded rp_def wp_def m_def]
  have len: "length (queue_ring cfg r) = m" using queue_ring_length [OF cfg] by (simp add: m_def)
  have entries: "ring_entries (queue_ring cfg r) rp (total_length es) =
      Inr (es, (rp + total_length es) mod m)"
    using h by (subst ring_entries_complete) (auto simp: len)
  have "(rp + total_length es) mod m = wp" using h ring_used_add [of rp m wp] by simp
  moreover have "rp = wp \<Longrightarrow> es = []" using h total_length_zero [of es] by (simp add: ring_used_def)
  ultimately show ?thesis
    using h entries
    by (auto simp: logs_spec_def Let_def header_ok_def simp flip: rp_def wp_def m_def)
qed

text \<open>
  Conversely, entries the specification returns are in the ring. The pointers are compared modulo
  the size of the ring, so the last entry may run exactly one time around it.
\<close>

lemma logs_spec_sound:
  assumes cfg: "wf_config cfg" "QUEUE_REGION_SIZE cfg \<le> length r" and run: "logs_spec cfg r = Inr es"
  defines "rp \<equiv> unat (bmcReadPtr (header_of_bytes r))"
    and "wp \<equiv> unat (biosWritePtr (header_of_bytes r))" and "m \<equiv> max_offset cfg"
  shows "header_ok cfg (header_of_bytes r) \<and> rp \<le> m \<and> wp \<le> m \<and>
    (es = [] \<longrightarrow> rp = wp) \<and> (es \<noteq> [] \<longrightarrow> wp < m) \<and>
    ring_read (queue_ring cfg r) rp (total_length es) = concat (map entry_bytes es) \<and>
    (\<forall>ep \<in> set es. valid_entry m ep) \<and>
    (total_length es = ring_used m rp wp \<or> total_length es = ring_used m rp wp + m)"
proof (cases "rp = wp")
  case True
  then show ?thesis
    using run by (auto simp: logs_spec_def Let_def header_ok_def ring_used_def
      simp flip: rp_def wp_def m_def split: if_splits)
next
  case False
  let ?u = "ring_used m rp wp"
  have len: "length (queue_ring cfg r) = m" using queue_ring_length [OF cfg] by (simp add: m_def)
  have m: "6 < m" using geometry [OF cfg(1)] by (simp add: m_def)
  from run False obtain q where rec: "ring_entries (queue_ring cfg r) rp ?u = Inr (es, q)"
    and q: "wp = q" and ok: "header_ok cfg (header_of_bytes r)" "rp \<le> m" "wp \<le> m"
    by (auto simp: logs_spec_def Let_def header_ok_def simp flip: rp_def wp_def m_def
      split: if_splits sum.splits)
  have "?u \<noteq> 0" using rec q False by (metis Pair_inject ring_entries_zero sum.inject(2))
  then have u: "0 < ?u" "(rp + ?u) mod m = wp mod m" using ok by (auto simp: ring_used_def)
  note sound = ring_entries_sound [OF rec, unfolded len]
  let ?t = "total_length es"
  have t: "?u \<le> ?t" "?t < ?u + (6 + m)" "wp = (rp + ?t) mod m"
    using sound u(1) m ok q by auto
  then have "wp < m" using m by simp
  have "(rp + ?t) mod m = (rp + ?u) mod m" using u(2) t(3) by simp
  then have "m dvd ?t - ?u" using t(1) by (simp add: mod_eq_dvd_iff_nat)
  then obtain k where k: "?t - ?u = m * k" by (rule dvdE)
  have "m * k < m * 2" using k t(2) m by linarith
  then have "k = 0 \<or> k = 1" by auto
  then have "?t = ?u \<or> ?t = ?u + m" using k t(1) by auto
  then show ?thesis
    using sound False ok m u(1) t(1) \<open>wp < m\<close> by auto
qed

text \<open>
  The other side of the comparison modulo the size: one entry that runs a whole round past the write
  pointer passes every check.
\<close>

lemma logs_spec_overlong:
  assumes cfg: "wf_config cfg" "QUEUE_REGION_SIZE cfg \<le> length r" and hdr: "header_ok cfg (header_of_bytes r)"
  defines "rp \<equiv> unat (bmcReadPtr (header_of_bytes r))"
    and "wp \<equiv> unat (biosWritePtr (header_of_bytes r))" and "m \<equiv> max_offset cfg"
  assumes ptrs: "rp < m" "wp < m" "rp \<noteq> wp" and valid: "valid_entry m ep"
    and ring: "ring_read (queue_ring cfg r) rp (entry_length ep) = entry_bytes ep"
    and len: "entry_length ep = ring_used m rp wp + m"
  shows "logs_spec cfg r = Inr [ep]"
proof -
  let ?u = "ring_used m rp wp"
  have m: "length (queue_ring cfg r) = m" using queue_ring_length [OF cfg] by (simp add: m_def)
  have u: "0 < ?u" "(rp + ?u) mod m = wp" using ptrs ring_used_add by (auto simp: ring_used_def)
  then have "(rp + entry_length ep) mod m = wp" by (simp add: len flip: add.assoc)
  then have "ring_entries (queue_ring cfg r) rp ?u = Inr ([ep], wp)"
    using u valid by (subst ring_entries_Cons [OF ring]) (simp_all add: m len)
  then show ?thesis
    using hdr ptrs by (simp add: logs_spec_def Let_def header_ok_def flip: rp_def wp_def m_def)
qed

section \<open>The UE log\<close>

definition ue_pending :: "CircularBufferHeader \<Rightarrow> bool" where
  "ue_pending h \<longleftrightarrow> ueRegionSize h \<noteq> 0 \<and> bit (biosFlags h) 0 \<noteq> bit (bmcFlags h) 0"

definition ue_log :: "bytes \<Rightarrow> bytes" where
  "ue_log r = slice 48 (unat (ueRegionSize (header_of_bytes r))) r"

end
