(* ===== verification/BufferRefinement.thy ===== *)
theory BufferRefinement
  imports BufferSpec PciHandler
begin

text \<open>
  The operations of the buffer implement the ring specification on every transport that gives
  access to one stable region: the lemmas are proved in the locale \<open>shared_region\<close> and hold for
  the PCI handler by its interpretation.
\<close>

section \<open>States\<close>

text \<open>
  \<open>buffer_ok\<close>: a usable configuration and a region that holds the whole queue region.
  \<open>moved\<close>: the state after the read pointer was set to \<open>p\<close>, in the region and in the cache,
  and nothing else changed.
\<close>

definition buffer_ok ::
  "config \<Rightarrow> ('d \<Rightarrow> bytes) \<Rightarrow> ('d \<Rightarrow> bool) \<Rightarrow> 'd BufferImpl \<Rightarrow> bool" where
  "buffer_ok cfg region good s \<longleftrightarrow> wf_config cfg \<and> good (dataInterface s) \<and>
     QUEUE_REGION_SIZE cfg \<le> length (region (dataInterface s))"

definition moved ::
  "('d \<Rightarrow> bytes) \<Rightarrow> nat \<Rightarrow> 'd BufferImpl \<Rightarrow> 'd BufferImpl \<Rightarrow> bool" where
  "moved region p s t \<longleftrightarrow>
     region (dataInterface t) =
       overwrite (region (dataInterface s)) 0x21 (le_bytes 3 (word_of_nat p :: u24)) \<and>
     cachedBufferHeader t = (cachedBufferHeader s)\<lparr>bmcReadPtr := word_of_nat p\<rparr>"

lemma buffer_okD:
  assumes "buffer_ok cfg region good s"
  shows "wf_config cfg" "good (dataInterface s)"
    "QUEUE_REGION_SIZE cfg \<le> length (region (dataInterface s))"
    "48 \<le> length (region (dataInterface s))"
  using assms geometry(6) [of cfg] by (auto simp: buffer_ok_def)

lemma moved_trans:
  "36 \<le> length (region (dataInterface s)) \<Longrightarrow> moved region p s t \<Longrightarrow> moved region q t u \<Longrightarrow>
   moved region q s u"
  by (simp add: moved_def overwrite_twice)

lemma moved_again: "36 \<le> length (region (dataInterface s)) \<Longrightarrow> moved region p s t \<Longrightarrow> moved region p t t"
  by (simp add: moved_def overwrite_twice)

lemma moved_header [simp]:
  "moved region p s t \<Longrightarrow> header_ok cfg (cachedBufferHeader t) = header_ok cfg (cachedBufferHeader s)"
  "moved region p s t \<Longrightarrow> bmcReadPtr (cachedBufferHeader t) = word_of_nat p"
  "moved region p s t \<Longrightarrow> biosWritePtr (cachedBufferHeader t) = biosWritePtr (cachedBufferHeader s)"
  by (auto simp: moved_def header_ok_def)

lemma moved_ring:
  "wf_config cfg \<Longrightarrow> QUEUE_REGION_SIZE cfg \<le> length (region (dataInterface s)) \<Longrightarrow> moved region p s t \<Longrightarrow>
   queue_ring cfg (region (dataInterface t)) = queue_ring cfg (region (dataInterface s))"
  by (simp add: moved_def queue_ring_header_store)

lemma moved_in_sync:
  "48 \<le> length (region (dataInterface s)) \<Longrightarrow> moved region p s t \<Longrightarrow> in_sync region s \<Longrightarrow> in_sync region t"
  by (simp add: moved_def in_sync_def header_store_read_ptr)

text \<open>
  \<open>loop_agrees\<close>: a run of the entry loop is the result of the reader on the ring, behind what was
  collected before, and its pointer is the reader's position.
\<close>

definition loop_agrees ::
  "exn + EntryPair list \<times> nat \<Rightarrow> nat \<Rightarrow> EntryPair list \<Rightarrow> (fault + EntryPair list) \<times> 's \<Rightarrow> 's \<Rightarrow> bool"
where
  "loop_agrees res q acc run t \<longleftrightarrow>
     (case res of Inl x \<Rightarrow> run = (Inl (Exn x), t) | Inr (es, p) \<Rightarrow> p = q \<and> run = (Inr (acc @ es), t))"

lemma loop_agrees_Cons:
  "loop_agrees res q (acc @ [ep]) run t \<Longrightarrow>
   loop_agrees (case res of Inl x \<Rightarrow> Inl x | Inr (es, p) \<Rightarrow> Inr (ep # es, p)) q acc run t"
  by (auto simp: loop_agrees_def split: sum.splits)

lemma ucast_and_24: "(ucast (and p 0xffffff) :: u24) = ucast (p :: u32)"
proof (rule bit_word_eqI)
  fix n assume n: "n < LENGTH(24)"
  have "(0xffffff :: u32) = mask 24" by (simp add: mask_eq_exp_minus_1)
  then have "bit (0xffffff :: u32) n" using n by (simp only: bit_mask_iff) simp
  then show "bit (ucast (and p 0xffffff) :: u24) n \<longleftrightarrow> bit (ucast p :: u24) n"
    using n by (simp add: bit_unsigned_iff bit_and_iff)
qed

lemma unat_ucast_24_32: "unat (ucast (p :: u24) :: u32) = unat p"
  by (rule unat_ucast_up) simp

section \<open>Queue geometry as the code computes it\<close>

lemma getMaxOffset_ok:
  assumes "wf_config cfg" "header_ok cfg (cachedBufferHeader s)"
  shows "getMaxOffset cfg s = (Inr (max_offset cfg), s)"
proof -
  note g = geometry [OF assms(1)]
  have "size_sub cfg (QUEUE_REGION_SIZE cfg) (UE_REGION_SIZE cfg) = QUEUE_REGION_SIZE cfg - UE_REGION_SIZE cfg"
    "size_sub cfg (QUEUE_REGION_SIZE cfg - UE_REGION_SIZE cfg) 48 = max_offset cfg"
    using g by (simp_all add: size_sub_small queue_offset_def max_offset_def)
  then show ?thesis
    using assms(2) by (simp add: getMaxOffset_def header_ok_def prog_simps header_size_def)
qed

lemma getQueueOffset_ok:
  assumes "wf_config cfg" "header_ok cfg (cachedBufferHeader s)"
  shows "getQueueOffset cfg s = (Inr (queue_offset cfg), s)"
proof -
  have "size_add cfg 48 (UE_REGION_SIZE cfg) = queue_offset cfg"
    using geometry [OF assms(1)] by (simp add: size_add_small queue_offset_def)
  then show ?thesis
    using assms(2) by (simp add: getQueueOffset_def header_ok_def prog_simps header_size_def)
qed

context shared_region
begin

section \<open>Single accesses\<close>

lemma diM_read_ok:
  "good (dataInterface s) \<Longrightarrow> unat off + unat n \<le> length (region (dataInterface s)) \<Longrightarrow>
   diM (di_read di off n) s = (Inr (slice (unat off) (unat n) (region (dataInterface s))), s)"
  by (simp add: diM_def memberM_def read_law)

lemma diM_write_ok:
  "good (dataInterface s) \<Longrightarrow> unat off + length bs \<le> length (region (dataInterface s)) \<Longrightarrow>
   length bs < 2 ^ 16 \<Longrightarrow>
   diM (di_write di off bs) s =
     (Inr (word_of_nat (length bs)), s\<lparr>dataInterface := store (unat off) bs (dataInterface s)\<rparr>)"
  by (simp add: diM_def memberM_def write_law)

lemma readBufferHeader_ok:
  assumes "good (dataInterface s)" "48 \<le> length (region (dataInterface s))"
  shows "readBufferHeader di s =
    (Inr (), s\<lparr>cachedBufferHeader := header_of_bytes (region (dataInterface s))\<rparr>)"
proof -
  have "diM (di_read di 0 48) s = (Inr (slice 0 48 (region (dataInterface s))), s)"
    using diM_read_ok [OF assms(1), where off = 0 and n = 48] assms(2) by simp
  then show ?thesis
    using assms(2)
    by (simp add: readBufferHeader_def header_size_def bindM_Inr set_cached_def prog_simps
        header_of_region)
qed

lemma updateReadPtr_ok:
  assumes "good (dataInterface s)" "48 \<le> length (region (dataInterface s))" "p < 2 ^ 24"
  shows "\<exists>t. updateReadPtr di (word_of_nat p) s = (Inr (), t) \<and> moved region p s t \<and>
    good (dataInterface t)"
proof -
  let ?b = "le_bytes 3 (word_of_nat p :: u24)"
  have u: "unat (word_of_nat p :: u32) = p"
    using assms(3) by (simp add: unat_word_of_nat_lt)
  have cast: "(ucast (and (word_of_nat p :: u32) 0xffffff) :: u24) = word_of_nat p"
    unfolding ucast_and_24 by (metis u of_nat_unat)
  have w: "diM (di_write di 0x21 ?b) s =
      (Inr 3, s\<lparr>dataInterface := store 0x21 ?b (dataInterface s)\<rparr>)"
    using diM_write_ok [OF assms(1), where off = "0x21" and bs = ?b] assms(2) by simp
  show ?thesis
    using assms(1,2) unfolding updateReadPtr_def cast
    by (simp add: Let_def bindM_def w prog_simps moved_def region_store good_store)
qed

lemma updateBmcFlags_ok:
  assumes "good (dataInterface s)" "48 \<le> length (region (dataInterface s))"
  shows "updateBmcFlags di f s =
    (Inr (), s\<lparr>dataInterface := store 0x1d (le_bytes 4 f) (dataInterface s),
       cachedBufferHeader := (cachedBufferHeader s)\<lparr>bmcFlags := f\<rparr>\<rparr>)"
proof -
  have w: "diM (di_write di 0x1d (le_bytes 4 f)) s =
      (Inr 4, s\<lparr>dataInterface := store 0x1d (le_bytes 4 f) (dataInterface s)\<rparr>)"
    using diM_write_ok [OF assms(1), where off = "0x1d" and bs = "le_bytes 4 f"] assms(2) by simp
  show ?thesis
    unfolding updateBmcFlags_def by (simp add: bindM_def w prog_simps)
qed

section \<open>The wrap-around read is a read of the ring\<close>

lemma queue_read_ok:
  assumes ok: "buffer_ok cfg region good s" and "a + n \<le> max_offset cfg"
  shows "diM (di_read di (word_of_nat (queue_offset cfg + a)) (word_of_nat n)) s =
    (Inr (slice a n (queue_ring cfg (region (dataInterface s)))), s)"
proof -
  note d = buffer_okD [OF ok] and g = geometry [OF buffer_okD(1) [OF ok]]
  have "unat (word_of_nat (queue_offset cfg + a) :: u32) = queue_offset cfg + a"
    "unat (word_of_nat n :: u32) = n"
    using g assms(2) by (simp_all add: unat_word_of_nat_lt del: of_nat_add)
  then show ?thesis
    using d(2,3) g assms(2)
    by (subst diM_read_ok) (simp_all add: queue_ring_def slice_slice)
qed

lemma wraparoundRead_ok:
  assumes ok: "buffer_ok cfg region good s" and hdr: "header_ok cfg (cachedBufferHeader s)"
    and pos: "unat pos \<le> max_offset cfg" and len: "unat n \<le> max_offset cfg"
    and not_both: "unat pos < max_offset cfg \<or> unat n < max_offset cfg"
  shows "\<exists>t. wraparoundRead cfg di pos n s =
      (Inr (ring_read (queue_ring cfg (region (dataInterface s))) (unat pos) (unat n)), t) \<and>
    moved region ((unat pos + unat n) mod max_offset cfg) s t \<and> buffer_ok cfg region good t"
proof -
  note d = buffer_okD [OF ok]
  note g = geometry [OF d(1)]
  define m where "m = max_offset cfg"
  define p where "p = unat pos"
  define k where "k = unat n"
  define r where "r = queue_ring cfg (region (dataInterface s))"
  have lr: "length r = m" unfolding r_def m_def using d(1,3) by (rule queue_ring_length)
  have bounds: "p \<le> m" "k \<le> m" "0 < m" "m < 2 ^ 16" "p < m \<or> k < m"
    using pos len not_both g by (simp_all add: p_def k_def m_def)
  define w where "w = (if k > m - p then k - (m - p) else 0)"
  define q where "q = (p + k) mod m"
  have off: "size_add cfg (queue_offset cfg) p = queue_offset cfg + p"
    "size_add cfg p (k - w) = p + (k - w)"
    using g bounds by (simp_all add: size_add_small w_def)
  have w: "p + (k - w) \<le> m" "w \<le> m" using bounds by (auto simp: w_def)
  note r1 = queue_read_ok [OF ok, of p "k - w", folded m_def r_def, OF w(1)]
  have r2: "diM (di_read di (word_of_nat (queue_offset cfg)) (word_of_nat w)) s = (Inr (slice 0 w r), s)"
    using queue_read_ok [OF ok, of 0 w, folded m_def r_def] w(2) by simp
  have "q < m" unfolding q_def using bounds(3) by (rule mod_less_divisor)
  then have "q < 2 ^ 24" using bounds(4) by simp
  from updateReadPtr_ok [OF d(2,4) this] obtain t where
    t: "updateReadPtr di (word_of_nat q) s = (Inr (), t)" "moved region q s t" "good (dataInterface t)"
    by blast
  have guards: "\<not> m < p" "\<not> m < k" using bounds by simp_all
  have lens: "length (slice p (k - w) r) = k - w" "length (slice 0 w r) = w" using w lr by simp_all
  have parts: "ring_read r p k = slice p (k - w) r @ slice 0 w r"
    using ring_read_parts [of p r k] bounds by (simp add: lr w_def)
  have position: "q = (if 0 < w then w else if p + (k - w) = m then 0 else p + (k - w))"
    unfolding q_def w_def using bounds by (intro ring_position) auto
  note run = wraparoundRead_def bindM_def getMaxOffset_ok [OF d(1) hdr, folded m_def]
    getQueueOffset_ok [OF d(1) hdr] prod.case sum.case Let_def p_def [symmetric]
    k_def [symmetric] w_def [symmetric] guards off r1 r2 lens if_True if_False simp_thms returnM_run
  have "wraparoundRead cfg di pos n s = (Inr (ring_read r p k), t)"
  proof (cases "0 < w")
    case True
    then show ?thesis using t(1) position parts by (simp only: run)
  next
    case False
    then have "ring_read r p k = slice p (k - w) r" using parts by simp
    then show ?thesis using False t(1) position by (simp only: run)
  qed
  moreover have "buffer_ok cfg region good t" using t d g by (simp add: buffer_ok_def moved_def)
  ultimately show ?thesis
    using t(2) unfolding m_def [symmetric] p_def [symmetric] k_def [symmetric] q_def [symmetric]
      r_def [symmetric] by blast
qed

lemma wraparoundRead_too_long:
  assumes "wf_config cfg" "header_ok cfg (cachedBufferHeader s)"
    and "unat pos \<le> max_offset cfg" "max_offset cfg < unat n"
  shows "wraparoundRead cfg di pos n s = (Inl (Exn (LengthTooBig (unat n) (max_offset cfg))), s)"
  using assms by (simp add: wraparoundRead_def bindM_def getMaxOffset_ok prog_simps)

section \<open>Reading entries\<close>

lemma readEntryHeader_ok:
  assumes ok: "buffer_ok cfg region good s" and hdr: "header_ok cfg (cachedBufferHeader s)"
    and pos: "unat (bmcReadPtr (cachedBufferHeader s)) = p" "p \<le> max_offset cfg"
  shows "\<exists>t. readEntryHeader cfg di s =
      (Inr (entry_header_of_bytes (ring_read (queue_ring cfg (region (dataInterface s))) p 6)), t) \<and>
    moved region ((p + 6) mod max_offset cfg) s t \<and> buffer_ok cfg region good t"
proof -
  let ?p = "ucast (bmcReadPtr (cachedBufferHeader s)) :: u32"
  have "\<exists>t. wraparoundRead cfg di ?p (word_of_nat 6) s =
      (Inr (ring_read (queue_ring cfg (region (dataInterface s))) (unat ?p) (unat (word_of_nat 6 :: u32))), t) \<and>
    moved region ((unat ?p + unat (word_of_nat 6 :: u32)) mod max_offset cfg) s t \<and> buffer_ok cfg region good t"
    using ok hdr pos geometry(1) [OF buffer_okD(1) [OF ok]]
    by (intro wraparoundRead_ok) (simp_all add: unat_ucast_24_32)
  then show ?thesis
    using pos(1) by (auto simp: readEntryHeader_def prog_simps bindM_Inr entry_header_size_def unat_ucast_24_32)
qed

text \<open>
  Reading the entry at the read pointer: too long an entry and a checksum that is not zero are
  thrown, with the pointer after the header or after the entry.
\<close>

lemma readEntry_ok:
  assumes ok: "buffer_ok cfg region good s" and hdr: "header_ok cfg (cachedBufferHeader s)"
    and pos: "unat (bmcReadPtr (cachedBufferHeader s)) = p" "p \<le> max_offset cfg"
  defines "m \<equiv> max_offset cfg"
  defines "ep \<equiv> entry_at (queue_ring cfg (region (dataInterface s))) p"
  shows "\<exists>t q. readEntry cfg di s =
      (case entry_error m ep of Some x \<Rightarrow> Inl (Exn x) | None \<Rightarrow> Inr ep, t) \<and>
    moved region q s t \<and> buffer_ok cfg region good t \<and> q < m \<and>
    (entry_error m ep = None \<longrightarrow> q = (p + entry_length ep) mod m)"
proof -
  note g = geometry [OF buffer_okD(1) [OF ok]]
  define r where "r = queue_ring cfg (region (dataInterface s))"
  define h where "h = entry_header_of_bytes (ring_read r p 6)"
  define n where "n = unat (entrySize h)"
  have ep: "ep = (h, ring_read r (p + 6) n)" by (simp add: ep_def entry_at_def r_def h_def n_def Let_def)
  obtain t where t: "readEntryHeader cfg di s = (Inr h, t)" "moved region ((p + 6) mod m) s t"
      "buffer_ok cfg region good t"
    using readEntryHeader_ok [OF ok hdr pos] by (auto simp: h_def r_def m_def)
  define q where "q = (p + 6) mod m"
  let ?q = "ucast (bmcReadPtr (cachedBufferHeader t)) :: u32"
  let ?n = "ucast (entrySize h) :: u32"
  have qm: "q < m" unfolding q_def using g by (simp add: m_def)
  have "q < 2 ^ 24" using qm g by (simp add: m_def)
  then have q: "unat ?q = q"
    using t(2) by (simp add: unat_ucast_24_32 unat_word_of_nat_lt flip: q_def)
  have n: "unat ?n = n" unfolding n_def by (rule unat_ucast_up) simp
  have hdr': "header_ok cfg (cachedBufferHeader t)" using t(2) hdr by simp
  have ring: "queue_ring cfg (region (dataInterface t)) = r" "length r = m"
    using moved_ring [OF _ _ t(2)] buffer_okD [OF ok] queue_ring_length by (auto simp: r_def m_def)
  show ?thesis
  proof (cases "n > m")
    case True
    then have "wraparoundRead cfg di ?q ?n t = (Inl (Exn (LengthTooBig n m)), t)"
      using wraparoundRead_too_long [OF buffer_okD(1) [OF t(3)] hdr', of ?q ?n] q n qm
      by (simp add: m_def)
    with True t qm show ?thesis
      by (auto simp: readEntry_def bindM_def prog_simps entry_error_def ep simp flip: q_def)
  next
    case False
    then obtain u where u: "wraparoundRead cfg di ?q ?n t = (Inr (ring_read r q n), u)"
        "moved region ((q + n) mod m) t u" "buffer_ok cfg region good u"
      using wraparoundRead_ok [OF t(3) hdr', of ?q ?n] q n qm ring by (auto simp: m_def)
    have "ring_read r q n = snd ep" by (simp add: ep q_def ring_read_mod flip: ring(2))
    moreover have "moved region ((p + entry_length ep) mod m) s u"
      using moved_trans [OF _ t(2) u(2)] buffer_okD(4) [OF ok]
      by (simp add: q_def mod_add_left_eq ep entry_length_def entry_header_size_def add.assoc)
    moreover have "(p + entry_length ep) mod m < m" using qm by (intro mod_less_divisor) simp
    ultimately show ?thesis
      using False t(1) u
      by (intro exI [of _ u] exI [of _ "(p + entry_length ep) mod m"])
        (simp add: readEntry_def bindM_def prog_simps Let_def entry_bytes_def entry_error_def ep)
  qed
qed

text \<open>The loop refines the reader on the ring.\<close>

lemma readEntries_ok:
  assumes "buffer_ok cfg region good s" "header_ok cfg (cachedBufferHeader s)"
    and "unat (bmcReadPtr (cachedBufferHeader s)) = p" "p \<le> max_offset cfg" "byteRead < bytesToRead"
  shows "\<exists>t q. buffer_ok cfg region good t \<and> moved region q s t \<and> q < max_offset cfg \<and>
    loop_agrees (ring_entries (queue_ring cfg (region (dataInterface s))) p (bytesToRead - byteRead)) q acc
      (readEntries cfg di bytesToRead byteRead acc s) t"
  using assms
proof (induction "bytesToRead - byteRead" arbitrary: byteRead acc s p rule: less_induct)
  case less
  define m where "m = max_offset cfg"
  define r where "r = queue_ring cfg (region (dataInterface s))"
  define ep where "ep = entry_at r p"
  note d = buffer_okD [OF less.prems(1)]
  have m: "m < 2 ^ 24" "length r = m"
    using geometry [OF d(1)] queue_ring_length [OF d(1,3)] by (auto simp: m_def r_def)
  from readEntry_ok [OF less.prems(1-4), folded m_def r_def, folded ep_def]
  obtain t q where t: "readEntry cfg di s =
      (case entry_error m ep of Some x \<Rightarrow> Inl (Exn x) | None \<Rightarrow> Inr ep, t)" "moved region q s t"
      "buffer_ok cfg region good t" "q < m" "entry_error m ep = None \<longrightarrow> q = (p + entry_length ep) mod m"
    by (elim exE conjE) (rule that)
  note spec = ring_entries_step [of "bytesToRead - byteRead" r p, unfolded m(2), folded ep_def]
  note goal = exI [of _ t] exI [of _ q]
  show ?case
  proof (cases "entry_error m ep")
    case (Some x)
    then show ?thesis
      using t spec less.prems(5)
      by (intro goal) (simp add: loop_agrees_def readEntries.simps [of cfg di _ byteRead] m_def r_def)
  next
    case None
    let ?b = "byteRead + entry_length ep"
    have step: "readEntries cfg di bytesToRead byteRead acc s = readEntries cfg di bytesToRead ?b (acc @ [ep]) t"
      using None t(1) less.prems(5)
      by (subst readEntries.simps) (cases ep, simp add: entry_length_def)
    have res: "ring_entries r p (bytesToRead - byteRead) =
        (case ring_entries r q (bytesToRead - ?b) of Inl x \<Rightarrow> Inl x | Inr (es, p) \<Rightarrow> Inr (ep # es, p))"
      using spec less.prems(5) None t(5) by (simp add: diff_diff_eq)
    have rt: "queue_ring cfg (region (dataInterface t)) = r" using moved_ring [OF d(1,3) t(2)] by (simp add: r_def)
    have next_t: "header_ok cfg (cachedBufferHeader t)" "unat (bmcReadPtr (cachedBufferHeader t)) = q"
      "q \<le> max_offset cfg" using t(2,4) less.prems(2) m by (simp_all add: unat_word_of_nat_lt m_def)
    have "\<exists>u q'. buffer_ok cfg region good u \<and> moved region q' t u \<and> q' < max_offset cfg \<and>
        loop_agrees (ring_entries r q (bytesToRead - ?b)) q' (acc @ [ep])
          (readEntries cfg di bytesToRead ?b (acc @ [ep]) t) u"
    proof (cases "?b < bytesToRead")
      case True
      then have "bytesToRead - ?b < bytesToRead - byteRead" using entry_length_pos [of ep] by linarith
      from less.hyps [OF this t(3) next_t True, unfolded rt] show ?thesis by blast
    next
      case False
      have "moved region q t t" using moved_again [OF _ t(2)] d(4) by simp
      then show ?thesis
        using t(3,4) False by (intro goal) (simp add: loop_agrees_def readEntries.simps [of cfg di _ ?b] m_def)
    qed
    then obtain u q' where "buffer_ok cfg region good u" "moved region q' t u" "q' < max_offset cfg"
      "loop_agrees (ring_entries r q (bytesToRead - ?b)) q' (acc @ [ep])
        (readEntries cfg di bytesToRead ?b (acc @ [ep]) t) u" by blast
    moreover from this(2) have "moved region q' s u" using moved_trans [OF _ t(2)] d(4) by simp
    ultimately show ?thesis
      unfolding r_def [symmetric] res step using loop_agrees_Cons by (intro exI [of _ u] exI [of _ q'] conjI)
  qed
qed

section \<open>Reading the logs\<close>

text \<open>
  The run of \<open>readErrorLogs\<close> is the specification on the bytes of the region; only the read
  pointer moves, and the cached header is the header of the region afterwards.
\<close>

lemma moved_refl:
  assumes "48 \<le> length (region (dataInterface s))" "in_sync region s"
  shows "moved region (unat (bmcReadPtr (cachedBufferHeader s))) s s"
proof -
  let ?r = "region (dataInterface s)"
  have "le_bytes 3 (bmcReadPtr (cachedBufferHeader s)) = slice 0x21 3 ?r"
    using assms by (simp add: in_sync_def header_of_bytes_def le_bytes_int_at)
  moreover have "word_of_nat (unat p) = p" for p :: u24 by simp
  moreover have "c = c\<lparr>bmcReadPtr := bmcReadPtr c\<rparr>" for c by (cases c) simp
  ultimately show ?thesis
    using assms(1) unfolding moved_def by (simp only: overwrite_slice_id) simp
qed

lemma readErrorLogs_run:
  assumes ok: "buffer_ok cfg region good s"
  defines "h \<equiv> header_of_bytes (region (dataInterface s))"
  defines "u \<equiv> s\<lparr>cachedBufferHeader := h\<rparr>"
  defines "rp \<equiv> unat (bmcReadPtr h)" and "wp \<equiv> unat (biosWritePtr h)" and "m \<equiv> max_offset cfg"
  shows "readErrorLogs cfg di s =
    (if unat (queueSize h) \<noteq> QUEUE_REGION_SIZE cfg
     then (Inl (Exn (QueueSizeMismatch (unat (queueSize h)) (QUEUE_REGION_SIZE cfg))), u)
     else if unat (ueRegionSize h) \<noteq> UE_REGION_SIZE cfg
     then (Inl (Exn (UeRegionSizeMismatch (unat (ueRegionSize h)) (UE_REGION_SIZE cfg))), u)
     else if wp > m then (Inl (Exn (WritePtrTooBig wp m)), u)
     else if rp > m then (Inl (Exn (ReadPtrTooBig rp m)), u)
     else if wp = rp then (Inr [], u)
     else case readEntries cfg di (ring_used m rp wp) 0 [] u of
       (Inl e, t) \<Rightarrow> (Inl e, t)
     | (Inr es, t) \<Rightarrow> if wp \<noteq> unat (bmcReadPtr (cachedBufferHeader t))
         then (Inl (Exn (PointersDiffer wp (unat (bmcReadPtr (cachedBufferHeader t))))), t)
         else (Inr es, t))"
proof -
  note d = buffer_okD [OF ok] and g = geometry [OF buffer_okD(1) [OF ok]]
  have hd: "readBufferHeader di s = (Inr (), u)" and cu: "cachedBufferHeader u = h"
    using readBufferHeader_ok d by (simp_all add: u_def h_def)
  show ?thesis
  proof (cases "header_ok cfg h")
    case False
    then show ?thesis
      by (simp add: readErrorLogs_def bindM_def prog_simps hd cu getMaxOffset_def header_ok_def)
  next
    case True
    then have mo: "getMaxOffset cfg u = (Inr m, u)"
      using getMaxOffset_ok [OF d(1), of u] cu by (simp add: m_def)
    show ?thesis
    proof (cases "wp > m \<or> rp > m \<or> wp = rp")
      case stop: True
      then show ?thesis
        using True by (auto simp: readErrorLogs_def bindM_def prog_simps hd mo cu header_ok_def Let_def
          rp_def wp_def)
    next
      case False
      then have n: "(if wp > rp then wp - rp else size_add cfg (m - rp) wp) = ring_used m rp wp"
        using g by (auto simp: ring_used_def size_add_small m_def)
      have guards: "\<not> m < wp" "\<not> m < rp" "(wp = rp) = False" using False by simp_all
      obtain r t where loop: "readEntries cfg di (ring_used m rp wp) 0 [] u = (r, t)" by fastforce
      show ?thesis
        using True unfolding header_ok_def
        by (cases r; simp only: readErrorLogs_def bindM_def getM_run hd mo cu Let_def
          prod.case sum.case rp_def [symmetric] wp_def [symmetric] guards n loop if_False if_True
          simp_thms returnM_run throwM_run split: if_split; blast?)
    qed
  qed
qed

lemma readErrorLogs_ok:
  assumes ok: "buffer_ok cfg region good s"
  defines "r \<equiv> region (dataInterface s)"
  shows "\<exists>t p. readErrorLogs cfg di s =
      (case logs_spec cfg r of Inl x \<Rightarrow> Inl (Exn x) | Inr es \<Rightarrow> Inr es, t) \<and>
    moved region p (s\<lparr>cachedBufferHeader := header_of_bytes r\<rparr>) t \<and>
    buffer_ok cfg region good t \<and> in_sync region t"
proof -
  note d = buffer_okD [OF ok] and g = geometry [OF buffer_okD(1) [OF ok]]
  define h where "h = header_of_bytes r"
  define rp where "rp = unat (bmcReadPtr h)"
  define wp where "wp = unat (biosWritePtr h)"
  define m where "m = max_offset cfg"
  define n where "n = ring_used m rp wp"
  define u where "u = s\<lparr>cachedBufferHeader := h\<rparr>"
  note run = readErrorLogs_run [OF ok, folded r_def, folded h_def, folded u_def rp_def wp_def m_def, folded n_def]
  note spec = logs_spec_def [of cfg r, unfolded Let_def, folded h_def, folded rp_def wp_def m_def, folded n_def]
  have u: "buffer_ok cfg region good u" "in_sync region u" "cachedBufferHeader u = h"
      "region (dataInterface u) = r"
    using ok by (simp_all add: u_def buffer_ok_def in_sync_def h_def r_def)
  have stay: "moved region rp u u"
    using moved_refl [of u] u d(4) by (simp add: rp_def r_def)
  show ?thesis
  proof (cases "header_ok cfg h \<and> wp \<le> m \<and> rp \<le> m \<and> wp \<noteq> rp")
    case False
    then have "readErrorLogs cfg di s =
        (case logs_spec cfg r of Inl x \<Rightarrow> Inl (Exn x) | Inr es \<Rightarrow> Inr es, u)"
      unfolding run spec header_ok_def by (simp split: if_split)
    then show ?thesis using stay u unfolding u_def h_def by blast
  next
    case True
    have "\<exists>t q. buffer_ok cfg region good t \<and> moved region q u t \<and> q \<le> m \<and>
      loop_agrees (ring_entries (queue_ring cfg r) rp n) q [] (readEntries cfg di n 0 [] u) t"
    proof (cases "n = 0")
      case True
      then show ?thesis
        using stay u(1) \<open>header_ok cfg h \<and> _\<close>
        by (intro exI [of _ u] exI [of _ rp]) (simp add: readEntries.simps loop_agrees_def)
    next
      case False
      then show ?thesis
        using readEntries_ok [OF u(1), of rp 0 n "[]"] True u by (auto simp: rp_def m_def intro: less_imp_le)
    qed
    then obtain t q where t: "buffer_ok cfg region good t" "moved region q u t" "q \<le> m"
      "loop_agrees (ring_entries (queue_ring cfg r) rp n) q [] (readEntries cfg di n 0 [] u) t"
      by blast
    have q: "unat (bmcReadPtr (cachedBufferHeader t)) = q"
      using t(2,3) g by (simp add: unat_word_of_nat_lt m_def)
    have "readErrorLogs cfg di s =
        (case logs_spec cfg r of Inl x \<Rightarrow> Inl (Exn x) | Inr es \<Rightarrow> Inr es, t)"
      using True t(4) q unfolding run spec header_ok_def loop_agrees_def
      by (cases "ring_entries (queue_ring cfg r) rp n") auto
    moreover have "in_sync region t" using moved_in_sync [OF _ t(2)] u d(4) by (simp add: r_def)
    ultimately show ?thesis using t(1,2) unfolding u_def h_def by blast
  qed
qed

section \<open>Initialization\<close>

lemma initialize_ok:
  fixes version :: u32 and qSize ueSize :: u16 and magic :: "u32 \<times> u32 \<times> u32 \<times> u32"
  assumes good: "good (dataInterface s)"
    and size: "48 \<le> unat qSize" "unat qSize \<le> length (region (dataInterface s))"
  defines "h \<equiv> init_header version qSize ueSize magic"
  shows "\<exists>t. initialize di version qSize ueSize magic s = (Inr (), t) \<and>
    good (dataInterface t) \<and> cachedBufferHeader t = h \<and>
    region (dataInterface t) = header_to_bytes h @ replicate (unat qSize - 48) 0 @
      drop (unat qSize) (region (dataInterface s))"
proof -
  let ?r = "region (dataInterface s)" and ?q = "unat qSize"
  let ?d = "store 0 (replicate ?q 0) (dataInterface s)"
  let ?s = "s\<lparr>dataInterface := ?d\<rparr>"
  have q: "?q < 2 ^ 16" using unsigned_less [of qSize, where 'a = nat] by simp
  have sz: "diM (di_getMemoryRegionSize di) s = (Inr (word_of_nat (length ?r)), s)"
    using good by (simp add: diM_def memberM_def size_law)
  have fits: "\<not> unat (word_of_nat (length ?r) :: u32) < ?q"
    using region_size_unat [OF good] size(2) by simp
  have w1: "diM (di_write di 0 (replicate ?q 0)) s = (Inr (word_of_nat ?q), ?s)"
    using diM_write_ok [OF good, where off = 0 and bs = "replicate ?q 0"] size q by simp
  have good1: "good ?d" and r1: "region ?d = replicate ?q 0 @ drop ?q ?r"
    using good_store [OF good, of 0 "replicate ?q 0"] region_store [OF good, of 0 "replicate ?q 0"] size
    by (simp_all add: overwrite_def)
  have w2: "diM (di_write di 0 (header_to_bytes h)) ?s =
      (Inr 48, ?s\<lparr>dataInterface := store 0 (header_to_bytes h) ?d\<rparr>)"
    using diM_write_ok [of ?s, where off = 0 and bs = "header_to_bytes h"] good1 r1 size
    by (simp add: header_size_def)
  have u: "unat (word_of_nat ?q :: u32) = ?q" by (rule unat_word_of_nat_lt) (use q in simp)
  let ?t = "?s\<lparr>dataInterface := store 0 (header_to_bytes h) ?d, cachedBufferHeader := h\<rparr>"
  have "initialize di version qSize ueSize magic s = (Inr (), ?t)"
    by (simp only: initialize_def h_def [symmetric] bindM_def Let_def sz prod.case sum.case fits
        if_False w1 u simp_thms w2 header_size_def set_cached_def) (simp add: modifyM_run)
  moreover have "region (dataInterface ?t) = header_to_bytes h @ replicate (?q - 48) 0 @ drop ?q ?r"
    using good1 r1 size by (simp add: region_store header_size_def overwrite_def)
  ultimately show ?thesis
    using good_store [OF good1, of 0 "header_to_bytes h"] r1 size
    by (intro exI [of _ ?t]) (simp add: header_size_def)
qed

lemma initialize_too_big:
  assumes "good (dataInterface s)" "length (region (dataInterface s)) < unat qSize"
  shows "initialize di version qSize ueSize magic s =
    (Inl (Exn (ProposedQueueTooBig (unat qSize) (length (region (dataInterface s))))), s)"
  using assms by (simp add: initialize_def diM_def memberM_def size_law bindM_def prog_simps
    region_size_unat)

section \<open>Flags\<close>

lemma readUeLog_ok:
  assumes good: "good (dataInterface s)" and len: "48 \<le> length (region (dataInterface s))"
  defines "h \<equiv> header_of_bytes (region (dataInterface s))"
  assumes ue: "48 + unat (ueRegionSize h) \<le> length (region (dataInterface s))"
  shows "readUeLogFromReservedRegion di s =
    (Inr (if ueRegionSize h \<noteq> 0 \<and> bit (biosFlags h) 0 \<noteq> bit (bmcFlags h) 0
          then slice 48 (unat (ueRegionSize h)) (region (dataInterface s)) else []),
     s\<lparr>cachedBufferHeader := h\<rparr>)"
proof -
  have flag: "and x flag_ueSwitch = 0 \<longleftrightarrow> \<not> bit x 0" for x :: u32
    by (simp add: flag_ueSwitch_def and_one_eq even_iff_mod_2_eq_zero bit_0)
  have n: "unat (ucast (ueRegionSize h) :: u32) = unat (ueRegionSize h)"
    by (rule unat_ucast_up) simp
  show ?thesis
    using good len ue
    by (auto simp: readUeLogFromReservedRegion_def bindM_def readBufferHeader_ok Let_def prog_simps
      flag bit_xor_iff diM_read_ok n header_size_def simp flip: h_def)
qed

lemma checkForOverflow_ok:
  assumes good: "good (dataInterface s)" and len: "48 \<le> length (region (dataInterface s))"
  defines "h \<equiv> header_of_bytes (region (dataInterface s))"
  defines "f \<equiv> flip_bit 1 (bmcFlags h)"
  shows "checkForOverflowAndAcknowledge di s =
    (if bit (biosFlags h) 1 \<noteq> bit (bmcFlags h) 1
     then (Inr True, s\<lparr>dataInterface := store 0x1d (le_bytes 4 f) (dataInterface s),
             cachedBufferHeader := h\<lparr>bmcFlags := f\<rparr>\<rparr>)
     else (Inr False, s\<lparr>cachedBufferHeader := h\<rparr>))"
proof -
  have flag: "and x flag_overflow = 0 \<longleftrightarrow> \<not> bit x 1" for x :: u32
    unfolding flag_overflow_def using bit_iff_and_push_bit_not_eq_0 [of x 1] by simp
  have f: "xor (bmcFlags h) flag_overflow = f"
    by (simp add: f_def flag_overflow_def flip_bit_eq_xor)
  show ?thesis
    using good len
    by (auto simp: checkForOverflowAndAcknowledge_def bindM_def readBufferHeader_ok prog_simps flag
      bit_xor_iff updateBmcFlags_ok f simp flip: h_def)
qed

end

end
