(* ===== verification/BufferSafety.thy ===== *)
theory BufferSafety
  imports BufferSpec
begin

text \<open>
  What the buffer guarantees on every transport, however the transport behaves: a region another
  processor writes while it is read, short or long reads, failing writes. Nothing is assumed of
  the \<open>DataInterface\<close>; the facts come from the checks the code makes on what it was given.
\<close>

text \<open>An entry that went through the checks: the declared size and a zero checksum.\<close>

definition checked_entry :: "nat \<Rightarrow> EntryPair \<Rightarrow> bool" where
  "checked_entry m ep \<longleftrightarrow> length (snd ep) = unat (entrySize (fst ep)) \<and>
     length (snd ep) \<le> m \<and> xor_all (entry_bytes ep) = 0"

lemma checked_is_valid: "checked_entry m ep = valid_entry m ep"
  by (auto simp: checked_entry_def valid_entry_def)

text \<open>The geometry only ever comes from a consistent header.\<close>

lemma getMaxOffset_Inr:
  "getMaxOffset cfg s = (Inr m, t) \<Longrightarrow> wf_config cfg \<Longrightarrow>
   m = max_offset cfg \<and> t = s \<and> header_ok cfg (cachedBufferHeader s)"
  using geometry [of cfg]
  by (auto simp: getMaxOffset_def prog_simps header_ok_def size_sub_small max_offset_def
      header_size_def queue_offset_def split: if_splits)

lemma wraparoundRead_length:
  assumes "wraparoundRead cfg di pos n s = (Inr bs, t)" "wf_config cfg"
  shows "length bs = unat n \<and> unat n \<le> max_offset cfg"
  using assms
  by (auto simp: wraparoundRead_def prog_invert Let_def returnM_def throwM_def
      dest!: getMaxOffset_Inr split: if_splits prod.splits)

lemma readEntry_checked:
  assumes "readEntry cfg di s = (Inr ep, t)" "wf_config cfg"
  shows "checked_entry (max_offset cfg) ep"
proof -
  have u: "unat (ucast w :: u32) = unat w" for w :: u16
    by (rule unat_ucast_up) simp
  from assms show ?thesis
    by (auto simp: readEntry_def prog_invert Let_def returnM_def throwM_def getM_def
        checked_entry_def entry_bytes_def u dest!: wraparoundRead_length split: if_splits)
qed

lemma readEntries_checked:
  assumes "readEntries cfg di bytesToRead byteRead acc s = (Inr es, t)" "wf_config cfg"
  shows "\<exists>new. es = acc @ new \<and> (\<forall>ep \<in> set new. checked_entry (max_offset cfg) ep) \<and>
    (new \<noteq> [] \<longrightarrow> byteRead + total_length (butlast new) < bytesToRead)"
  using assms
proof (induction cfg di bytesToRead byteRead acc s rule: readEntries.induct)
  case (1 cfg di bytesToRead byteRead acc s)
  show ?case
  proof (cases "byteRead < bytesToRead")
    case False
    with 1 show ?thesis by (simp add: readEntries.simps)
  next
    case True
    with "1.prems"(1) obtain ep u where run: "readEntry cfg di s = (Inr ep, u)"
      and rest: "readEntries cfg di bytesToRead (byteRead + (entry_header_size + length (snd ep)))
        (acc @ [ep]) u = (Inr es, t)"
      by (subst (asm) readEntries.simps) (auto split: prod.splits sum.splits)
    obtain new where new: "es = (acc @ [ep]) @ new"
        "\<forall>e \<in> set new. checked_entry (max_offset cfg) e"
        "new \<noteq> [] \<longrightarrow> byteRead + (entry_header_size + length (snd ep)) + total_length (butlast new)
           < bytesToRead"
      using "1.IH" [OF True run [symmetric] refl rest "1.prems"(2)] by blast
    then show ?thesis
      using readEntry_checked [OF run "1.prems"(2)] True
      by (intro exI [of _ "ep # new"]) (auto simp: entry_length_def)
  qed
qed

text \<open>
  One call of \<open>readErrorLogs\<close>: only checked entries, and all but the last of them lie within
  the queue, so a call handles a bounded number of entries.
\<close>

lemma total_length_lower: "6 * length es \<le> total_length es"
  by (induction es) (auto simp: entry_length_def entry_header_size_def)

lemma readErrorLogs_checked:
  assumes "readErrorLogs cfg di s = (Inr es, t)" "wf_config cfg"
  shows "(\<forall>ep \<in> set es. checked_entry (max_offset cfg) ep) \<and>
    (es \<noteq> [] \<longrightarrow> total_length (butlast es) < max_offset cfg)"
proof (cases "es = []")
  case False
  note g = geometry [OF assms(2)]
  from assms False obtain u n where
    run: "readEntries cfg di n 0 [] u = (Inr es, t)" and n: "n \<le> max_offset cfg"
    using g
    by (auto simp: readErrorLogs_def prog_invert Let_def returnM_def throwM_def getM_def
        size_add_small dest!: getMaxOffset_Inr split: if_splits)
  obtain new where "es = [] @ new" "\<forall>ep \<in> set new. checked_entry (max_offset cfg) ep"
      "new \<noteq> [] \<longrightarrow> 0 + total_length (butlast new) < n"
    using readEntries_checked [OF run assms(2)] by blast
  then show ?thesis using n by auto
qed simp

lemma readErrorLogs_bounded:
  assumes "readErrorLogs cfg di s = (Inr es, t)" "wf_config cfg"
  shows "6 * length es < max_offset cfg + 6"
proof (cases "es = []")
  case False
  then have "6 * (length es - 1) < max_offset cfg"
    using readErrorLogs_checked [OF assms] total_length_lower [of "butlast es"] by simp
  then show ?thesis using False by (cases es) simp_all
qed simp

end
