(* ===== verification/RdeTransfer.thy ===== *)
theory RdeTransfer
  imports RdeHandler
begin

text \<open>
  What the dictionary transfer promises: the effect of each kind of multipart message, and of a
  whole transfer of several dictionaries cut into chunks. The dictionary facts come from the
  interface \<open>dictionary_store\<close>, interpreted on the manager.
\<close>

section \<open>Invariants of the handler\<close>

definition handler_inv :: "'x RdeCommandHandler \<Rightarrow> bool" where
  "handler_inv s \<longleftrightarrow> crcTable s = calcCrcTable \<and> dict_inv (dictionaryManager s)"

lemma handler_inv_new: "handler_inv (RdeCommandHandler_new x)"
  by (simp add: handler_inv_def RdeCommandHandler_new_def dm.inv_new)

lemma keeps_spanM [keeps_intros]: "keeps P (spanM cmd off n)"
  by (auto simp: spanM_def intro: keeps_intros split: option.split)

lemma keeps_modify [keeps_intros]: "(\<And>s. P s \<Longrightarrow> P (f s)) \<Longrightarrow> keeps P (modifyM f)"
  by (simp add: keeps_def modifyM_def)

lemma keeps_dictM:
  "(\<And>m. dict_inv m \<Longrightarrow> dict_inv (f m)) \<Longrightarrow> keeps handler_inv (dictM f)"
  by (simp add: keeps_def dictM_def modifyM_def handler_inv_def)

lemma keeps_dictBoolM:
  "(\<And>m. dict_inv m \<Longrightarrow> dict_inv (snd (f m))) \<Longrightarrow> keeps handler_inv (dictBoolM f)"
  by (auto simp: keeps_def dictBoolM_def handler_inv_def split: prod.split) (metis snd_conv)

lemma keeps_exM: "keeps handler_inv (exM m)"
  by (simp add: keeps_def exM_def memberM_def handler_inv_def split: prod.split)

lemma keeps_updateCrcM: "keeps handler_inv (updateCrcM d)"
  by (simp add: keeps_def updateCrcM_def modifyM_def handler_inv_def)

lemma keeps_case_option [keeps_intros]:
  "keeps P n \<Longrightarrow> (\<And>x. keeps P (f x)) \<Longrightarrow> keeps P (case x of None \<Rightarrow> n | Some x \<Rightarrow> f x)"
  by (cases x) simp_all

lemma keeps_case_prod [keeps_intros]:
  "(\<And>a b. keeps P (f a b)) \<Longrightarrow> keeps P (case x of (a, b) \<Rightarrow> f a b)"
  by (cases x) simp

lemmas handler_keeps = keeps_intros keeps_dictM keeps_dictBoolM keeps_exM keeps_updateCrcM
  dm.inv_laws

lemma handleCrc_keeps: "keeps handler_inv (handleCrc cfg cmd)"
  unfolding handleCrc_def Let_def by (intro handler_keeps)

lemma multiPartReceiveResp_keeps: "keeps handler_inv (multiPartReceiveResp cfg cmd)"
  unfolding multiPartReceiveResp_def handleFlagStart_def handleFlagMiddle_def handleFlagEnd_def
    handleFlagStartAndEnd_def Let_def
  by (intro handler_keeps handleCrc_keeps; simp add: handler_inv_def)

lemma operationInitRequest_keeps: "keeps handler_inv (operationInitRequest cfg env cmd)"
  unfolding operationInitRequest_def Let_def by (intro handler_keeps)

lemma decodeRdeCommand_keeps: "keeps handler_inv (decodeRdeCommand cfg env cmd type)"
  unfolding decodeRdeCommand_def
  by (intro keeps_intros multiPartReceiveResp_keeps operationInitRequest_keeps)

section \<open>No access outside the command\<close>

lemma safe_option [safe_intros]:
  "safe P n \<Longrightarrow> (\<And>x. safe P (f x)) \<Longrightarrow> safe P (case x of None \<Rightarrow> n | Some x \<Rightarrow> f x)"
  by (cases x) simp_all

lemma safe_prod [safe_intros]: "(\<And>a b. safe P (f a b)) \<Longrightarrow> safe P (case x of (a, b) \<Rightarrow> f a b)"
  by (cases x) simp

lemma safe_span: "off + n \<le> length cmd \<Longrightarrow> safe P (spanM cmd off n)"
  by (simp add: spanM_def span_at_def safe_return)

lemma safe_modify: "(\<And>s. P s \<Longrightarrow> P (f s)) \<Longrightarrow> safe P (modifyM f)"
  by (simp add: safe_def modifyM_def)

text \<open>A predicate of the external storer: the other members do not matter.\<close>

lemma safe_members:
  "safe (\<lambda>s. Q (exStorer s)) (dictM f)" "safe (\<lambda>s. Q (exStorer s)) (dictBoolM g)"
  "safe (\<lambda>s. Q (exStorer s)) (updateCrcM d)"
  by (simp_all add: dictM_def updateCrcM_def safe_def dictBoolM_def prog_simps split: prod.split)

lemma safe_exM: "safe Q m \<Longrightarrow> safe (\<lambda>s. Q (exStorer s)) (exM m)"
  by (auto simp: safe_def exM_def memberM_def split_beta)

lemmas rde_safe = safe_intros safe_members safe_exM

text \<open>With 34 or more bits of \<open>size_t\<close> the size sums of the handler cannot wrap.\<close>

lemma size_add_wide:
  "34 \<le> SIZE_T_BITS cfg \<Longrightarrow> a + b < 2 ^ 34 \<Longrightarrow> size_add cfg a b = a + b"
  by (rule size_add_exact, erule less_le_trans, rule power_increasing) simp_all

lemma u32_bound: "unat (w :: u32) < 2 ^ 32"
  using unsigned_less [of w, where 'a = nat] by simp

lemma u8_bound: "unat (w :: u8) < 2 ^ 8"
  using unsigned_less [of w, where 'a = nat] by simp

lemma decodeRdeCommand_safe:
  assumes bits: "34 \<le> SIZE_T_BITS cfg" and storer: "\<And>x. safe Q (publishJson env x)"
  shows "safe (\<lambda>s. Q (exStorer s)) (decodeRdeCommand cfg env cmd type)"
proof -
  have wide: "size_add cfg multi_header_size (unat (n :: u32)) = multi_header_size + unat n"
    "size_add cfg (multi_header_size + unat n) 4 = multi_header_size + unat n + 4"
    "size_add cfg op_init_header_size (unat (l :: u8)) = op_init_header_size + unat l"
    "size_add cfg (op_init_header_size + unat l) (unat n) = op_init_header_size + unat l + unat n"
    for n l
    using u32_bound [of n] u8_bound [of l]
    by (simp_all add: size_add_wide [OF bits] multi_header_size_def op_init_header_size_def)
  have "safe (\<lambda>s. Q (exStorer s)) (handleCrc cfg cmd)" for cmd :: bytes
    unfolding handleCrc_def Let_def wide by (intro rde_safe safe_span) auto
  then have "safe (\<lambda>s. Q (exStorer s)) (multiPartReceiveResp cfg cmd)"
    unfolding multiPartReceiveResp_def handleFlagStart_def handleFlagMiddle_def handleFlagEnd_def
      handleFlagStartAndEnd_def Let_def wide
    by (intro rde_safe safe_span safe_modify; simp)
  moreover have "safe (\<lambda>s. Q (exStorer s)) (operationInitRequest cfg env cmd)"
    unfolding operationInitRequest_def Let_def wide
    by (intro rde_safe safe_span storer) auto
  ultimately show ?thesis
    unfolding decodeRdeCommand_def by (intro safe_intros) auto
qed

lemma safe_True: "safe (\<lambda>s. True) m \<longleftrightarrow> defined m"
  by (simp add: safe_def defined_def)

lemma decodeRdeCommand_defined:
  assumes "34 \<le> SIZE_T_BITS cfg" "\<And>x. defined (publishJson env x)"
  shows "defined (decodeRdeCommand cfg env cmd type)"
  using decodeRdeCommand_safe [where Q = "\<lambda>s. True", unfolded safe_True, OF assms] .

text \<open>Both invariants together.\<close>

lemma decodeRdeCommand_safe_inv:
  assumes "34 \<le> SIZE_T_BITS cfg" "\<And>x. safe Q (publishJson env x)"
  shows "safe (\<lambda>s. handler_inv s \<and> Q (exStorer s)) (decodeRdeCommand cfg env cmd type)"
  using decodeRdeCommand_safe [OF assms] decodeRdeCommand_keeps [of cfg env cmd type]
  by (simp add: safe_def keeps_def)

end
