(* ===== verification/RdeMessages.thy ===== *)
theory RdeMessages
  imports RdeTransfer
begin

text \<open>
  The dictionary transfer protocol: what each kind of multipart message does to the handler,
  whole transfers of several dictionaries cut into chunks, and their outcome. The dictionary side
  is proved from the laws of \<open>dictionary_store\<close>, through its interpretation \<open>dm\<close>.
\<close>

section \<open>One chunk after another\<close>

text \<open>
  The effect of a chunk on the dictionaries, given the resource of the chunk before it: the same
  resource continues its dictionary, another one completes the previous dictionary and starts
  its own.
\<close>

definition collect :: "u32 \<times> DictionaryManager \<Rightarrow> u32 \<times> bytes \<Rightarrow> u32 \<times> DictionaryManager" where
  "collect pm c =
     (fst c,
      if fst pm = fst c then snd (addDictionaryData (fst c) (snd c) (snd pm))
      else startDictionaryEntry (fst c) (snd c) (snd (markDataComplete (fst pm) (snd pm))))"

text \<open>The chunks of a list of dictionaries, each given by its resource id and its parts.\<close>

definition chunks_of :: "(u32 \<times> bytes list) list \<Rightarrow> (u32 \<times> bytes) list" where
  "chunks_of ds = concat (map (\<lambda>(r, parts). map (Pair r) parts) ds)"

definition dictionaries_of :: "(u32 \<times> bytes list) list \<Rightarrow> u32 \<Rightarrow> bytes option" where
  "dictionaries_of ds = map_of (map (\<lambda>(r, parts). (r, concat parts)) ds)"

lemma chunks_of_simps [simp]:
  "chunks_of [] = []" "chunks_of ((r, parts) # ds) = map (Pair r) parts @ chunks_of ds"
  by (simp_all add: chunks_of_def)

lemma dictionaries_of_simps [simp]:
  "dictionaries_of [] k = None"
  "dictionaries_of ((r, parts) # ds) k = (if k = r then Some (concat parts) else dictionaries_of ds k)"
  by (simp_all add: dictionaries_of_def)

lemma dictionaries_of_None: "k \<notin> fst ` set ds \<Longrightarrow> dictionaries_of ds k = None"
  by (force simp: dictionaries_of_def map_of_eq_None_iff)

lemma collect_fst [simp]: "fst (collect pm c) = fst c"
  by (simp add: collect_def)

lemma collect_stored: "fst pm = fst c \<longrightarrow> stored_data (snd pm) (fst c) \<noteq> None \<Longrightarrow>
    stored_data (snd (collect pm c)) (fst c) \<noteq> None"
  by (auto simp: collect_def dm.store_laws)

lemma collect_same:
  "foldl collect (r, m) (map (Pair r) parts) = (r, foldl (\<lambda>m d. snd (addDictionaryData r d m)) m parts)"
  by (induction parts arbitrary: m) (simp_all add: collect_def)

text \<open>
  Receiving whole dictionaries, with distinct resource ids, after one that is still open: closing
  the last one makes exactly all of them available, next to what was available before.
\<close>

lemma collect_dictionaries:
  assumes "stored_data m r = Some b" "distinct (r # map fst ds)" "\<forall>(r, parts) \<in> set ds. parts \<noteq> []"
  shows "getDictionary k (snd (markDataComplete (fst (foldl collect (r, m) (chunks_of ds)))
            (snd (foldl collect (r, m) (chunks_of ds))))) =
         (case dictionaries_of ds k of Some d \<Rightarrow> Some d
          | None \<Rightarrow> if k = r then Some b else getDictionary k m)"
  using assms
proof (induction ds arbitrary: r m b)
  case Nil
  then show ?case by (simp add: dm.get_mark)
next
  case (Cons rp ds)
  obtain r' d parts where rp: "rp = (r', d # parts)"
    using Cons.prems(3) by (cases rp; cases "snd rp") auto
  let ?open = "startDictionaryEntry r' d (snd (markDataComplete r m))"
  let ?m = "foldl (\<lambda>m d. snd (addDictionaryData r' d m)) ?open parts"
  have "r \<noteq> r'" using Cons.prems(2) by (simp add: rp)
  then have run: "foldl collect (r, m) (chunks_of (rp # ds)) = foldl collect (r', ?m) (chunks_of ds)"
    by (simp add: rp) (simp add: collect_def collect_same)
  have stored: "stored_data ?m r' = Some (concat (d # parts))" by (rule dm.parts_stored)
  have fresh: "r' \<notin> fst ` set ds" "r \<notin> fst ` set ds" using Cons.prems(2) by (auto simp: rp)
  have "distinct (r' # map fst ds)" "\<forall>(r, parts) \<in> set ds. parts \<noteq> []"
    using Cons.prems(2,3) by (auto simp: rp)
  note step = Cons.IH [OF stored this]
  have get: "getDictionary k ?m = (if k = r' then None else if k = r then Some b else getDictionary k m)" for k
    using Cons.prems(1) \<open>r \<noteq> r'\<close> by (simp add: dm.parts_get dm.get_mark)
  show ?case
    unfolding run step
    using fresh \<open>r \<noteq> r'\<close> by (auto simp: rp get dictionaries_of_None split: option.split)
qed

section \<open>Messages\<close>

text \<open>A message the 32-bit length fields and a 32-bit \<open>size_t\<close> can express.\<close>

definition fits :: "config \<Rightarrow> bytes \<Rightarrow> bool" where
  "fits cfg d \<longleftrightarrow> 32 \<le> SIZE_T_BITS cfg \<and> length d + 14 < 2 ^ 32"

lemma fits_size:
  assumes "fits cfg d"
  shows "unat (word_of_nat (length d) :: u32) = length d"
    "size_add cfg multi_header_size (length d) = multi_header_size + length d"
    "size_add cfg (multi_header_size + length d) 4 = multi_header_size + length d + 4"
  using assms unat_word_of_nat_lt [of "length d", where 'a = 32]
  by (simp_all add: fits_def size_add_small multi_header_size_def)

lemma message_data: "spanM (multi_message f r d tr) multi_header_size (length d) = returnM d"
  using multi_message_data [of "length d" f r d tr]
  by (simp add: spanM_def span_at_def multi_message_length slice_def)

lemma checksum_bytes:
  fixes c :: u32
  shows "or (ucast (le_bytes 4 c ! 0)) (or (push_bit 8 (ucast (le_bytes 4 c ! 1)))
     (or (push_bit 16 (ucast (le_bytes 4 c ! 2))) (push_bit 24 (ucast (le_bytes 4 c ! 3))))) = c"
proof -
  have "le_bytes 4 c = [le_bytes 4 c ! 0, le_bytes 4 c ! 1, le_bytes 4 c ! 2, le_bytes 4 c ! 3]"
    by (rule nth_equalityI) (auto simp: less_Suc_eq numeral_eq_Suc)
  then have "le_word (le_bytes 4 c) = (le_word [le_bytes 4 c ! 0, le_bytes 4 c ! 1, le_bytes 4 c ! 2,
      le_bytes 4 c ! 3] :: u32)" by (rule arg_cong)
  then show ?thesis by (simp add: le_word_le_bytes push_bit_or)
qed

lemma message_trailer:
  "spanM (multi_message f r d (le_bytes 4 c)) (multi_header_size + length d) 4 = returnM (le_bytes 4 c)"
  using multi_message_trailer [of d 4 f r "le_bytes 4 c"]
  by (simp add: spanM_def span_at_def multi_message_length slice_def)

text \<open>What the handler sees of a message: its header fields and sizes.\<close>

lemma message_header:
  assumes "fits cfg d"
  shows "multi_header_of_bytes (multi_message f r d tr) = \<lparr>completionCode = 0, transferFlag = f,
      nextDataTransferHandle = r, dataLengthBytes = word_of_nat (length d)\<rparr>"
    "\<not> length (multi_message f r d tr) < multi_header_size"
    "\<not> length (multi_message f r d tr) < multi_header_size + length d"
  using assms by (simp_all add: multi_message_header multi_message_length fits_size)

text \<open>The end-of-transfer check on a message with the checksum \<open>c\<close> in its trailer.\<close>

lemma handleCrc_message:
  assumes "fits cfg d"
  shows "handleCrc cfg (multi_message f r d (le_bytes 4 c)) s =
    (if finalChecksum (crc s) = c then (Inr RdeOk, s)
     else (Inr RdeInvalidChecksum,
           s\<lparr>dictionaryManager := invalidateDictionaries (dictionaryManager s)\<rparr>))"
  unfolding handleCrc_def Let_def
  by (simp add: message_header [OF assms] fits_size [OF assms] multi_message_length message_trailer
      prog_simps checksum_bytes [simplified] dictM_def)

lemma bindM_handleCrc:
  assumes "fits cfg d"
  shows "bindM (handleCrc cfg (multi_message f r d (le_bytes 4 c))) k s =
    (if finalChecksum (crc s) = c then k RdeOk s
     else k RdeInvalidChecksum (s\<lparr>dictionaryManager := invalidateDictionaries (dictionaryManager s)\<rparr>))"
  by (simp add: bindM_def handleCrc_message [OF assms])

text \<open>The status and the dictionaries after the check.\<close>

definition verdict :: "u32 \<Rightarrow> u32 \<Rightarrow> RdeDecodeStatus" where
  "verdict calculated received =
     (if finalChecksum calculated = received then RdeStopFlagReceived else RdeInvalidChecksum)"

definition settle :: "u32 \<Rightarrow> u32 \<Rightarrow> DictionaryManager \<Rightarrow> DictionaryManager" where
  "settle calculated received m =
     (if finalChecksum calculated = received then m else invalidateDictionaries m)"

lemmas flag_codes = RdeMRecFlagStart_def RdeMRecFlagMiddle_def RdeMRecFlagEnd_def
  RdeMRecFlagStartAndEnd_def

lemma bindM_bind: "bindM (bindM m f) g s = bindM m (\<lambda>x. bindM (f x) g) s"
  by (simp add: bindM_def split: prod.split sum.split)

lemma bindM_member:
  "bindM (dictM f) k s = k () (s\<lparr>dictionaryManager := f (dictionaryManager s)\<rparr>)"
  "bindM (dictBoolM b) l s =
     l (fst (b (dictionaryManager s))) (s\<lparr>dictionaryManager := snd (b (dictionaryManager s))\<rparr>)"
  "bindM (updateCrcM d) k s = k () (s\<lparr>crc := updateCrc (crcTable s) (crc s) d\<rparr>)"
  by (simp_all add: bindM_def dictM_def dictBoolM_def updateCrcM_def modifyM_def split: prod.split)

lemma message_Start:
  assumes "fits cfg d"
  shows "multiPartReceiveResp cfg (multi_message RdeMRecFlagStart r d tr) s =
    (Inr RdeOk, s\<lparr>flagState := RdeStateStartRecvd, crc := updateCrc (crcTable s) 0xFFFFFFFF d,
       dictionaryManager := startDictionaryEntry r d (dictionaryManager s), prevDictResourceId := r\<rparr>)"
  unfolding multiPartReceiveResp_def handleFlagStart_def Let_def
  by (simp add: message_header [OF assms] fits_size [OF assms] message_data prog_simps bindM_bind
      bindM_member)

lemma message_Middle:
  assumes "fits cfg d" "flagState s = RdeStateStartRecvd"
    and "prevDictResourceId s = r \<longrightarrow> stored_data (dictionaryManager s) r \<noteq> None"
  shows "multiPartReceiveResp cfg (multi_message RdeMRecFlagMiddle r d tr) s =
    (Inr RdeOk, s\<lparr>crc := updateCrc (crcTable s) (crc s) d,
       dictionaryManager := snd (collect (prevDictResourceId s, dictionaryManager s) (r, d)),
       prevDictResourceId := r\<rparr>)"
  unfolding multiPartReceiveResp_def handleFlagMiddle_def Let_def
  using assms(2,3)
  by (simp add: message_header [OF assms(1)] fits_size [OF assms(1)] message_data prog_simps bindM_bind
      bindM_member flag_codes collect_def dm.add_found)

lemma message_End:
  assumes "fits cfg d" "flagState s = RdeStateStartRecvd"
    and "prevDictResourceId s = r \<longrightarrow> stored_data (dictionaryManager s) r \<noteq> None"
  defines "c \<equiv> updateCrc (crcTable s) (crc s) d"
    and "m \<equiv> snd (collect (prevDictResourceId s, dictionaryManager s) (r, d))"
  shows "multiPartReceiveResp cfg (multi_message RdeMRecFlagEnd r d (le_bytes 4 ck)) s =
    (Inr (verdict c ck), s\<lparr>flagState := RdeStateIdle, crc := c,
       dictionaryManager := settle c ck (snd (markDataComplete r m)), prevDictResourceId := r\<rparr>)"
  unfolding multiPartReceiveResp_def handleFlagEnd_def Let_def c_def m_def
  using assms(2,3)
  by (simp add: message_header [OF assms(1)] fits_size [OF assms(1)] message_data prog_simps bindM_bind
      bindM_member flag_codes collect_def dm.add_found verdict_def settle_def
      bindM_handleCrc [OF assms(1)])

lemma message_StartAndEnd:
  fixes s :: "'x RdeCommandHandler"
  assumes "fits cfg d"
  defines "c \<equiv> updateCrc (crcTable s) 0xFFFFFFFF d"
  shows "multiPartReceiveResp cfg (multi_message RdeMRecFlagStartAndEnd r d (le_bytes 4 ck)) s =
    (Inr (verdict c ck), s\<lparr>flagState := RdeStateIdle, crc := c,
       dictionaryManager := settle c ck
         (snd (markDataComplete r (startDictionaryEntry r d (dictionaryManager s)))),
       prevDictResourceId := r\<rparr>)"
  unfolding multiPartReceiveResp_def handleFlagStartAndEnd_def Let_def c_def
  by (simp add: message_header [OF assms(1)] fits_size [OF assms(1)] message_data prog_simps bindM_bind
      bindM_member flag_codes verdict_def settle_def
      bindM_handleCrc [OF assms(1)])

text \<open>Middle and end messages outside a transfer are refused and leave everything but the last resource id.\<close>

lemma message_out_of_order:
  assumes "fits cfg d" "flagState s = RdeStateIdle" "f = RdeMRecFlagMiddle \<or> f = RdeMRecFlagEnd"
  shows "multiPartReceiveResp cfg (multi_message f r d tr) s =
    (Inr RdeInvalidPktOrder, s\<lparr>prevDictResourceId := r\<rparr>)"
  unfolding multiPartReceiveResp_def handleFlagMiddle_def handleFlagEnd_def Let_def
  using assms(2,3)
  by (auto simp add: message_header [OF assms(1)] fits_size [OF assms(1)] prog_simps bindM_bind
      flag_codes)

end
