(* ===== verification/RdeDelivery.thy ===== *)
theory RdeDelivery
  imports RdeMessages
begin

text \<open>
  Whole dictionary transfers: the messages a sender builds for a list of dictionaries, what the
  handler answers to them, and the dictionaries it holds afterwards.
\<close>

section \<open>The sender\<close>

text \<open>The messages after the first: middle messages, and the end message with the checksum.\<close>

fun rest_messages :: "(u32 \<times> bytes) list \<Rightarrow> u32 \<Rightarrow> bytes list" where
  "rest_messages [] c = []"
| "rest_messages [(r, d)] c = [multi_message RdeMRecFlagEnd r d (le_bytes 4 c)]"
| "rest_messages ((r, d) # cs) c = multi_message RdeMRecFlagMiddle r d [] # rest_messages cs c"

fun transfer_messages :: "(u32 \<times> bytes) list \<Rightarrow> u32 \<Rightarrow> bytes list" where
  "transfer_messages [] c = []"
| "transfer_messages [(r, d)] c = [multi_message RdeMRecFlagStartAndEnd r d (le_bytes 4 c)]"
| "transfer_messages ((r, d) # cs) c = multi_message RdeMRecFlagStart r d [] # rest_messages cs c"

text \<open>The checksum a transfer must carry: the CRC-32 of the data of all its chunks.\<close>

definition payload :: "(u32 \<times> bytes) list \<Rightarrow> bytes" where
  "payload cs = concat (map snd cs)"

lemma payload_simps [simp]: "payload [] = []" "payload (c # cs) = snd c @ payload cs"
  by (simp_all add: payload_def)

text \<open>Handing commands to the handler one after another.\<close>

fun decode_all ::
  "config \<Rightarrow> 'x RdeEnv \<Rightarrow> bytes list \<Rightarrow> ('x RdeCommandHandler, RdeDecodeStatus list) prog" where
  "decode_all cfg env [] = returnM []"
| "decode_all cfg env (m # ms) =
     bindM (decodeRdeCommand cfg env m RdeMultiPartReceiveResponse) (\<lambda>st.
     bindM (decode_all cfg env ms) (\<lambda>sts. returnM (st # sts)))"

lemma decode_all_Cons:
  "multiPartReceiveResp cfg m s = (Inr st, t) \<Longrightarrow> decode_all cfg env ms t = (Inr sts, u) \<Longrightarrow>
   decode_all cfg env (m # ms) s = (Inr (st # sts), u)"
  by (simp add: bindM_def decodeRdeCommand_def returnM_def)

section \<open>The handler's answers\<close>

text \<open>The messages after the start message.\<close>

lemma decode_rest:
  assumes "cs \<noteq> []" "\<forall>c \<in> set cs. fits cfg (snd c)" "flagState s = RdeStateStartRecvd"
    and "stored_data (dictionaryManager s) (prevDictResourceId s) \<noteq> None"
  shows "decode_all cfg env (rest_messages cs ck) s =
    (let pm = foldl collect (prevDictResourceId s, dictionaryManager s) cs;
         c = updateCrc (crcTable s) (crc s) (payload cs)
     in (Inr (replicate (length cs - 1) RdeOk @ [verdict c ck]),
         s\<lparr>flagState := RdeStateIdle, crc := c,
           dictionaryManager := settle c ck (snd (markDataComplete (fst pm) (snd pm))),
           prevDictResourceId := fst pm\<rparr>))"
  using assms
proof (induction cs ck arbitrary: s rule: rest_messages.induct)
  case (2 r d c)
  then have "fits cfg d"
    and "prevDictResourceId s = r \<longrightarrow> stored_data (dictionaryManager s) r \<noteq> None" by auto
  from message_End [OF this(1) 2(3) this(2)] show ?case
    by (simp add: decodeRdeCommand_def bindM_def returnM_def Let_def)
next
  case (3 r d c' cs c)
  let ?pm = "collect (prevDictResourceId s, dictionaryManager s) (r, d)"
  let ?t = "s\<lparr>crc := updateCrc (crcTable s) (crc s) d, dictionaryManager := snd ?pm,
      prevDictResourceId := r\<rparr>"
  have first: "multiPartReceiveResp cfg (multi_message RdeMRecFlagMiddle r d []) s = (Inr RdeOk, ?t)"
    using "3.prems" by (intro message_Middle) auto
  have stored: "stored_data (snd ?pm) r \<noteq> None"
    using "3.prems" collect_stored [of "(prevDictResourceId s, dictionaryManager s)" "(r, d)"] by auto
  have pm: "?pm = (r, snd ?pm)" by (simp add: prod_eq_iff)
  have "decode_all cfg env (rest_messages (c' # cs) c) ?t =
    (let pm = foldl collect (r, snd ?pm) (c' # cs);
         k = updateCrc (crcTable s) (updateCrc (crcTable s) (crc s) d) (payload (c' # cs))
     in (Inr (replicate (length (c' # cs) - 1) RdeOk @ [verdict k c]),
         ?t\<lparr>flagState := RdeStateIdle, crc := k,
           dictionaryManager := settle k c (snd (markDataComplete (fst pm) (snd pm))),
           prevDictResourceId := fst pm\<rparr>))"
    using "3.IH" [of ?t] "3.prems" stored by simp
  from decode_all_Cons [OF first this [unfolded Let_def]] show ?case
    by (simp add: Let_def updateCrc_append pm [symmetric])
qed simp

text \<open>A whole transfer, from any state of the handler with its table in place.\<close>

lemma decode_transfer:
  assumes "cs \<noteq> []" "\<forall>c \<in> set cs. fits cfg (snd c)"
  shows "decode_all cfg env (transfer_messages cs ck) s =
    (let m = startDictionaryEntry (fst (hd cs)) (snd (hd cs)) (dictionaryManager s);
         pm = foldl collect (fst (hd cs), m) (tl cs);
         c = updateCrc (crcTable s) 0xFFFFFFFF (payload cs)
     in (Inr (replicate (length cs - 1) RdeOk @ [verdict c ck]),
         s\<lparr>flagState := RdeStateIdle, crc := c,
           dictionaryManager := settle c ck (snd (markDataComplete (fst pm) (snd pm))),
           prevDictResourceId := fst pm\<rparr>))"
  using assms
proof (cases "(cs, ck)" rule: transfer_messages.cases)
  case (2 r d c)
  then show ?thesis
    using message_StartAndEnd [of cfg d r ck s] assms
    by (simp add: decodeRdeCommand_def bindM_def returnM_def Let_def)
next
  case (3 r d c' cs' c)
  let ?m = "startDictionaryEntry r d (dictionaryManager s)"
  let ?t = "s\<lparr>flagState := RdeStateStartRecvd, crc := updateCrc (crcTable s) 0xFFFFFFFF d,
      dictionaryManager := ?m, prevDictResourceId := r\<rparr>"
  have "multiPartReceiveResp cfg (multi_message RdeMRecFlagStart r d []) s = (Inr RdeOk, ?t)"
    using assms 3 by (intro message_Start) auto
  moreover have "decode_all cfg env (rest_messages (c' # cs') ck) ?t =
    (let pm = foldl collect (r, ?m) (c' # cs');
         k = updateCrc (crcTable s) (updateCrc (crcTable s) 0xFFFFFFFF d) (payload (c' # cs'))
     in (Inr (replicate (length (c' # cs') - 1) RdeOk @ [verdict k ck]),
         ?t\<lparr>flagState := RdeStateIdle, crc := k,
           dictionaryManager := settle k ck (snd (markDataComplete (fst pm) (snd pm))),
           prevDictResourceId := fst pm\<rparr>))"
    using assms 3 by (subst decode_rest) (auto simp: dm.store_laws)
  ultimately show ?thesis
    using decode_all_Cons [of cfg _ s RdeOk ?t env] 3 assms
    by (simp add: Let_def updateCrc_append)
qed simp

section \<open>Outcome\<close>

text \<open>The state a handler reaches by such a transfer, with the checksum that was sent.\<close>

definition transferred :: "(u32 \<times> bytes list) list \<Rightarrow> bool" where
  "transferred ds \<longleftrightarrow> ds \<noteq> [] \<and> distinct (map fst ds) \<and> (\<forall>(r, parts) \<in> set ds. parts \<noteq> [])"

lemma transfer_dictionaries:
  fixes m :: DictionaryManager
  assumes "transferred ds"
  defines "cs \<equiv> chunks_of ds"
  defines "pm \<equiv> foldl collect (fst (hd cs), startDictionaryEntry (fst (hd cs)) (snd (hd cs)) m) (tl cs)"
  shows "getDictionary k (snd (markDataComplete (fst pm) (snd pm))) =
    (case dictionaries_of ds k of Some d \<Rightarrow> Some d | None \<Rightarrow> getDictionary k m)" and "cs \<noteq> []"
proof -
  obtain r d parts ds' where ds: "ds = (r, d # parts) # ds'"
  proof (cases ds)
    case (Cons rp ds')
    with assms(1) show ?thesis
      by (cases rp; cases "snd rp") (auto simp: transferred_def intro: that)
  qed (use assms(1) in \<open>simp add: transferred_def\<close>)
  let ?m = "foldl (\<lambda>m d. snd (addDictionaryData r d m)) (startDictionaryEntry r d m) parts"
  have pm: "pm = foldl collect (r, ?m) (chunks_of ds')"
    by (simp add: pm_def cs_def ds collect_same)
  have fresh: "r \<notin> fst ` set ds'" using assms(1) by (auto simp: transferred_def ds)
  have "distinct (r # map fst ds')" "\<forall>(r, parts) \<in> set ds'. parts \<noteq> []"
    using assms(1) by (auto simp: transferred_def ds)
  from collect_dictionaries [OF dm.parts_stored this, of k d m parts] fresh
  show "getDictionary k (snd (markDataComplete (fst pm) (snd pm))) =
    (case dictionaries_of ds k of Some d \<Rightarrow> Some d | None \<Rightarrow> getDictionary k m)"
    unfolding pm by (auto simp: ds dictionaries_of_None dm.parts_get split: option.split)
  show "cs \<noteq> []" by (simp add: cs_def ds)
qed

end
