(* ===== verification/RdeOutcome.thy ===== *)
theory RdeOutcome
  imports RdeDelivery
begin

text \<open>
  What the statuses of the command handler guarantee, and where they guarantee less than their
  names suggest: a stop status means a verified transfer, publishing needs complete dictionaries;
  an end message of the wrong size is reported invalid but leaves its dictionary available, and a
  refused message between two chunks makes the next chunk replace the dictionary it continues.
\<close>

lemma return_Inr [prog_invert]: "returnM x s = (Inr y, t) \<longleftrightarrow> x = y \<and> s = t"
  by (auto simp: returnM_def)

lemma get_Inr [prog_invert]: "getM f s = (Inr y, t) \<longleftrightarrow> y = f s \<and> s = t"
  by (auto simp: getM_def)

lemma modify_Inr [prog_invert]: "modifyM f s = (Inr y, t) \<longleftrightarrow> t = f s"
  by (auto simp: modifyM_def)

lemma undefined_Inr [prog_invert]: "undefinedM s = (Inr y, t) \<longleftrightarrow> False"
  by (simp add: undefinedM_def)

lemma dictM_Inr [prog_invert]:
  "dictM f s = (Inr y, t) \<longleftrightarrow> t = s\<lparr>dictionaryManager := f (dictionaryManager s)\<rparr>"
  by (auto simp: dictM_def modifyM_def)

lemma dictBoolM_Inr [prog_invert]:
  "dictBoolM f s = (Inr y, t) \<longleftrightarrow> y = fst (f (dictionaryManager s)) \<and>
     t = s\<lparr>dictionaryManager := snd (f (dictionaryManager s))\<rparr>"
  by (auto simp: dictBoolM_def split: prod.split)

lemma updateCrcM_Inr [prog_invert]:
  "updateCrcM d s = (Inr y, t) \<longleftrightarrow> t = s\<lparr>crc := updateCrc (crcTable s) (crc s) d\<rparr>"
  by (auto simp: updateCrcM_def modifyM_def)

lemma spanM_Inr [prog_invert]:
  "spanM cmd off n s = (Inr y, t) \<longleftrightarrow> off + n \<le> length cmd \<and> y = slice off n cmd \<and> s = t"
  by (auto simp: spanM_def span_at_def returnM_def undefinedM_def)

section \<open>The stop status\<close>

text \<open>The four checksum bytes of an end message, as the code assembles them.\<close>

definition received_checksum :: "bytes \<Rightarrow> u32" where
  "received_checksum cmd =
     le_word (slice (multi_header_size + unat (dataLengthBytes (multi_header_of_bytes cmd))) 4 cmd)"

lemma four_bytes:
  assumes "length bs = 4"
  shows "or (ucast (bs ! 0)) (or (push_bit 8 (ucast (bs ! 1)))
     (or (push_bit 16 (ucast (bs ! 2))) (push_bit 24 (ucast (bs ! 3))))) = (le_word bs :: u32)"
proof -
  have "le_bytes 4 (le_word bs :: u32) = bs" using le_bytes_le_word [of bs, where 'a = 32] assms by simp
  then show ?thesis using checksum_bytes [of "le_word bs :: u32"] by simp
qed

lemma handleCrc_Ok:
  assumes "handleCrc cfg cmd s = (Inr RdeOk, t)"
  shows "t = s \<and> finalChecksum (crc s) = received_checksum cmd"
proof -
  let ?n = "multi_header_size + unat (dataLengthBytes (multi_header_of_bytes cmd))"
  from assms have "?n + 4 \<le> length cmd"
    by (auto simp: handleCrc_def Let_def prog_invert split: if_splits)
  then have "length (slice ?n 4 cmd) = 4" by simp
  from four_bytes [OF this] assms show ?thesis
    by (auto simp: handleCrc_def Let_def prog_invert received_checksum_def split: if_splits)
qed

lemma handleFlagMiddle_not_stop: "handleFlagMiddle h cmd r s \<noteq> (Inr RdeStopFlagReceived, t)"
  by (auto simp: handleFlagMiddle_def prog_invert split: if_splits)

lemma operationInitRequest_not_stop:
  "operationInitRequest cfg env cmd s \<noteq> (Inr RdeStopFlagReceived, t)"
  by (auto simp: operationInitRequest_def Let_def prog_invert split: if_splits option.splits prod.splits)

lemma handleCrc_not_stop: "handleCrc cfg cmd s \<noteq> (Inr RdeStopFlagReceived, t)"
  by (auto simp: handleCrc_def Let_def prog_invert split: if_splits)

lemma handleFlagEnd_stop:
  assumes "handleFlagEnd cfg h cmd r s = (Inr RdeStopFlagReceived, t)"
  shows "flagState t = RdeStateIdle \<and> finalChecksum (crc t) = received_checksum cmd \<and>
    getDictionary r (dictionaryManager t) \<noteq> None"
  using assms
  by (auto simp: handleFlagEnd_def prog_invert dm.store_laws handleCrc_not_stop
      split: if_splits dest!: handleCrc_Ok)

lemma handleFlagStartAndEnd_stop:
  assumes "handleFlagStartAndEnd cfg h cmd r s = (Inr RdeStopFlagReceived, t)"
  shows "flagState t = RdeStateIdle \<and> finalChecksum (crc t) = received_checksum cmd \<and>
    getDictionary r (dictionaryManager t) \<noteq> None"
  using assms
  by (auto simp: handleFlagStartAndEnd_def prog_invert dm.store_laws handleCrc_not_stop
      split: if_splits dest!: handleCrc_Ok)

lemma decodeRdeCommand_stop:
  assumes "decodeRdeCommand cfg env cmd type s = (Inr RdeStopFlagReceived, t)"
  shows "type = RdeMultiPartReceiveResponse \<and> flagState t = RdeStateIdle \<and>
    transferFlag (multi_header_of_bytes cmd) \<in> {RdeMRecFlagEnd, RdeMRecFlagStartAndEnd} \<and>
    finalChecksum (crc t) = received_checksum cmd \<and>
    getDictionary (nextDataTransferHandle (multi_header_of_bytes cmd)) (dictionaryManager t) \<noteq> None"
proof -
  let ?h = "multi_header_of_bytes cmd"
  from assms have type: "type = RdeMultiPartReceiveResponse"
    by (auto simp: decodeRdeCommand_def operationInitRequest_not_stop returnM_def split: if_splits)
  with assms have "multiPartReceiveResp cfg cmd s = (Inr RdeStopFlagReceived, t)"
    by (simp add: decodeRdeCommand_def)
  then obtain u where t: "t = u\<lparr>prevDictResourceId := nextDataTransferHandle ?h\<rparr>"
    and "(if transferFlag ?h = RdeMRecFlagEnd
          then handleFlagEnd cfg ?h cmd (nextDataTransferHandle ?h) s = (Inr RdeStopFlagReceived, u)
          else transferFlag ?h = RdeMRecFlagStartAndEnd \<and>
               handleFlagStartAndEnd cfg ?h cmd (nextDataTransferHandle ?h) s = (Inr RdeStopFlagReceived, u))"
    by (auto simp: multiPartReceiveResp_def Let_def prog_invert handleFlagMiddle_not_stop
        split: if_splits)
  then show ?thesis
    using handleFlagEnd_stop [of cfg ?h cmd _ s u] handleFlagStartAndEnd_stop [of cfg ?h cmd _ s u]
    by (auto simp: type split: if_splits)
qed

section \<open>Publishing\<close>

text \<open>
  The dictionaries an operation is decoded with: the complete ones of its resource and of the
  annotations.
\<close>

definition decode_input :: "bytes \<Rightarrow> bytes \<Rightarrow> BejDictionaries" where
  "decode_input sd ad =
     \<lparr>schemaDictionary = sd, schemaDictionarySize = word_of_nat (length sd),
      annotationDictionary = ad, annotationDictionarySize = word_of_nat (length ad),
      errorDictionary = None, errorDictionarySize = 0\<rparr>"

lemma operationInitRequest_storer:
  assumes "operationInitRequest cfg env cmd s = (res, t)" "res \<in> {Inr RdeOk, Inr RdeExternalStorerError}"
    and "containsRequestPayload (op_init_header_of_bytes cmd)"
  shows "\<exists>sd ad out. getDictionary (resourceID (op_init_header_of_bytes cmd)) (dictionaryManager s) = Some sd \<and>
    getAnnotationDictionary (dictionaryManager s) = Some ad \<and>
    bej_decode env (decode_input sd ad)
      (slice (op_init_header_size + unat (operationLocatorLength (op_init_header_of_bytes cmd)))
         (unat (requestPayloadLength (op_init_header_of_bytes cmd))) cmd) = (0, out) \<and>
    publishJson env out (exStorer s) = (Inr (res = Inr RdeOk), exStorer t) \<and>
    t = s\<lparr>exStorer := exStorer t\<rparr>"
  using assms
  by (auto simp: operationInitRequest_def Let_def prog_invert decode_input_def exM_def
      split: if_splits option.splits prod.splits)

section \<open>Weak spots\<close>

text \<open>A one-message dictionary whose checksum is missing: reported invalid, and yet available.\<close>

lemma StartAndEnd_without_checksum:
  assumes "fits cfg d"
  shows "multiPartReceiveResp cfg (multi_message RdeMRecFlagStartAndEnd r d []) s =
    (Inr RdeInvalidCommand, s\<lparr>flagState := RdeStateIdle, crc := updateCrc (crcTable s) 0xFFFFFFFF d,
       dictionaryManager := snd (markDataComplete r (startDictionaryEntry r d (dictionaryManager s))),
       prevDictResourceId := r\<rparr>)"
proof -
  have crc: "handleCrc cfg (multi_message f r d []) = returnM RdeInvalidCommand" for f
    by (rule ext) (simp add: handleCrc_def message_header [OF assms] fits_size [OF assms]
      multi_message_length)
  show ?thesis
    unfolding multiPartReceiveResp_def handleFlagStartAndEnd_def Let_def
    by (simp add: message_header [OF assms] fits_size [OF assms] message_data prog_simps bindM_bind
      bindM_member flag_codes crc [unfolded flag_codes])
qed

text \<open>A refused message changes nothing but the last resource id.\<close>

lemma message_bad_flag:
  assumes "fits cfg d" "f \<notin> {RdeMRecFlagStart, RdeMRecFlagMiddle, RdeMRecFlagEnd, RdeMRecFlagStartAndEnd}"
  shows "multiPartReceiveResp cfg (multi_message f r d tr) s =
    (Inr RdeInvalidCommand, s\<lparr>prevDictResourceId := r\<rparr>)"
  using assms(2)
  by (simp add: multiPartReceiveResp_def Let_def message_header [OF assms(1)] fits_size [OF assms(1)]
      prog_simps bindM_bind)

end
