(* ===== verification/StorerContract.thy ===== *)
theory StorerContract
  imports ExternalStorer
begin

text \<open>
  What the external storer promises: the bounds of its two queues, first-in first-out retention of
  log entries, and, through the file handler interface, confinement to the base directory.
\<close>

section \<open>The file handler interface\<close>

locale file_handler =
  fixes fh :: "('f, 'j) FileHandlerInterface" and inv :: "'f \<Rightarrow> bool"
  assumes createFile_keeps: "keeps inv (fh_createFile fh p j)"
    and removeAll_keeps: "keeps inv (fh_removeAll fh p)"
begin

lemma fhM_keeps: "keeps inv m \<Longrightarrow> keeps (\<lambda>s. inv (fileHandler s)) (fhM m)"
  by (auto simp: keeps_def fhM_def memberM_def split_beta)

lemma genM_keeps: "keeps (\<lambda>s. inv (fileHandler s)) (genM m)"
  by (simp add: keeps_def genM_def memberM_def split: prod.split)

lemma notifierM_keeps: "keeps (\<lambda>s. inv (fileHandler s)) (notifierM m)"
  by (simp add: keeps_def notifierM_def memberM_def split: prod.split)

lemma modify_keeps:
  "(\<And>s. fileHandler (f s) = fileHandler s) \<Longrightarrow> keeps (\<lambda>s. inv (fileHandler s)) (modifyM f)"
  by (simp add: keeps_def modifyM_def)

end

lemma keeps_get_string [keeps_intros]: "keeps P (get_string jl j k)"
  by (simp add: get_string_def keeps_return keeps_throw split: option.split)

lemma keeps_getSchemaType [keeps_intros]: "keeps P (getSchemaType jl j)"
  unfolding getSchemaType_def by (intro keeps_intros)

lemma keeps_list_case [keeps_intros]:
  "keeps P n \<Longrightarrow> (\<And>x xs. keeps P (f x xs)) \<Longrightarrow> keeps P (case q of [] \<Rightarrow> n | x # xs \<Rightarrow> f x xs)"
  by (cases q) simp_all

lemma keeps_parsed_case [keeps_intros]:
  "keeps P a \<Longrightarrow> (\<And>e. keeps P (b e)) \<Longrightarrow> (\<And>j. keeps P (c j)) \<Longrightarrow>
   keeps P (case r of ParseError \<Rightarrow> a | ParseThrows e \<Rightarrow> b e | Parsed j \<Rightarrow> c j)"
  by (cases r) simp_all

context file_handler
begin

text \<open>Whatever is published, the storer reaches the files through the handler only.\<close>

lemma publishJson_keeps:
  assumes "file_iface env = fh"
  shows "keeps (\<lambda>s. inv (fileHandler s)) (storer_publishJson env jsonStr)"
  unfolding storer_publishJson_def processLogEntry_def storeEntry_def processLogService_def processOtherTypes_def
    evictOldest_def pushEntry_def storer_createFile_def Let_def assms
  by (intro keeps_intros fhM_keeps genM_keeps notifierM_keeps modify_keeps createFile_keeps
      removeAll_keeps) simp_all

end

interpretation writer: file_handler "writer_interface fs" "writer_inv fs base P" for fs base P
  by unfold_locales (simp_all add: writer_interface_def createFile_keeps removeAll_keeps)

section \<open>Queues\<close>

definition queues_ok :: "('f, 'g, 'o) ExternalStorerFileInterface \<Rightarrow> bool" where
  "queues_ok s \<longleftrightarrow>
     length (logEntrySavedQueue s) \<le> unat (maxNumSavedLogEntries s) \<and>
     length (logEntryQueue s) \<le> unat (maxNumLogEntries s) \<and>
     (logEntryQueue s \<noteq> [] \<longrightarrow> length (logEntrySavedQueue s) = unat (maxNumSavedLogEntries s))"

lemma queues_ok_new: "queues_ok (ExternalStorerFileInterface_new conn root fh gen ms m)"
  by (simp add: queues_ok_def ExternalStorerFileInterface_new_def)

text \<open>The part of the state the queues live in.\<close>

definition qview :: "('f, 'g, 'o) ExternalStorerFileInterface \<Rightarrow> string list \<times> string list \<times> nat \<times> nat \<times> string" where
  "qview s = (logEntrySavedQueue s, logEntryQueue s, unat (maxNumSavedLogEntries s),
     unat (maxNumLogEntries s), logServiceId s)"

lemma qview_members [simp]:
  "qview (s\<lparr>fileHandler := f\<rparr>) = qview s" "qview (s\<lparr>randomGen := g\<rparr>) = qview s"
  "qview (s\<lparr>cperNotifier := n\<rparr>) = qview s"
  by (simp_all add: qview_def)

lemma member_qview:
  "fhM m s = (r, t) \<Longrightarrow> qview t = qview s" "genM m' s = (r', t) \<Longrightarrow> qview t = qview s"
  "notifierM m'' s = (r'', t) \<Longrightarrow> qview t = qview s"
  by (auto simp: fhM_def genM_def notifierM_def memberM_def split: prod.splits)

text \<open>What making room does to the queue: nothing below the limit, the oldest path out at it.\<close>

lemma evictOldest_qview:
  assumes "evictOldest fh s = (r, t)" "qview s = (sv, q, ms, m, i)"
  shows "if length q \<noteq> m then r = Inr True \<and> t = s
    else if q = [] then r = Inl Undefined \<and> t = s
    else qview t = (sv, tl q, ms, m, i) \<and> (\<exists>f. fh_removeAll fh (hd q) (fileHandler s) = (r, f))"
  using assms
  by (cases q) (auto simp: evictOldest_def prog_simps fhM_def memberM_def qview_def split: prod.splits)

lemma pushEntry_qview:
  assumes "qview s = (sv, q, ms, m, i)" "pushEntry p s = (r, t)"
  shows "r = Inr ()" "qview t =
    (if length sv < ms then (sv @ [p], q, ms, m, i) else (sv, q @ [p], ms, m, i))"
  using assms by (auto simp: pushEntry_def qview_def modifyM_def)

lemma storeEntry_qview:
  assumes run: "storeEntry env i e s = (r, t)" and s: "qview s = (sv, q, ms, m, j)"
  shows "if r = Inr True then \<exists>uuid g. next_uuid env (randomGen s) = (Inr uuid, g) \<and>
      qview t = (if length sv < ms then (sv @ [entry_path i uuid], q, ms, m, j)
                 else (sv, q @ [entry_path i uuid], ms, m, j))
    else qview t = (sv, q, ms, m, j)"
proof -
  obtain x u where gen: "genM (next_uuid env) s = (x, u)" by fastforce
  have u: "qview u = (sv, q, ms, m, j)" using member_qview(2) [OF gen] s by simp
  show ?thesis
  proof (cases x)
    case (Inr uuid)
    let ?e = "json_erase (json_lib env) ''@odata.id'' (json_set_string (json_lib env) ''Id'' uuid e)"
      and ?p = "entry_path i uuid"
    obtain c v where wr: "fhM (fh_createFile (file_iface env) ?p ?e) u = (c, v)" by fastforce
    have v: "qview v = (sv, q, ms, m, j)" using member_qview(1) [OF wr] u by simp
    obtain n w where nt: "notifierM (createEntry (object_server env) (rootPath v @ ?p @ ''/index.json'')) v
        = (n, w)" by fastforce
    have w: "qview w = (sv, q, ms, m, j)" using member_qview(3) [OF nt] v by simp
    obtain z where push: "pushEntry ?p w = (Inr (), z)"
      by (simp add: pushEntry_def modifyM_def)
    have "\<exists>g. next_uuid env (randomGen s) = (Inr uuid, g)"
      using gen Inr by (auto simp: genM_def memberM_def split: prod.splits)
    then show ?thesis
      using run v w pushEntry_qview(2) [OF w push]
      by (auto simp: storeEntry_def bindM_def gen Inr Let_def wr getM_def nt push returnM_def
          split: sum.splits if_splits)
  qed (use run u in \<open>auto simp: storeEntry_def bindM_def gen\<close>)
qed

text \<open>The queues after processing a log entry, whatever the outcome.\<close>

lemma processLogEntry_qview:
  assumes run: "processLogEntry env e s = (r, t)" and s: "qview s = (sv, q, ms, m, i)"
  defines "q' \<equiv> if length q = m then tl q else q"
  shows "if i = [] then r = Inr False \<and> t = s
    else if r = Inr True then (length q = m \<longrightarrow> q \<noteq> []) \<and> (\<exists>uuid g. next_uuid env (randomGen s) = (Inr uuid, g) \<and>
        qview t = (if length sv < ms then (sv @ [entry_path i uuid], q', ms, m, i)
                   else (sv, q' @ [entry_path i uuid], ms, m, i)))
    else qview t = (sv, q', ms, m, i)"
proof -
  have i: "logServiceId s = i" using s by (simp add: qview_def)
  obtain x u where evict: "evictOldest (file_iface env) s = (x, u)" by fastforce
  have gen: "randomGen u = randomGen s"
    using evict by (auto simp: evictOldest_def prog_simps fhM_def memberM_def split: if_splits list.splits prod.splits)
  have u: "qview u = (sv, q', ms, m, i)"
    using evictOldest_qview [OF evict s] s by (auto simp: q'_def split: if_splits)
  have ne: "length q = m \<longrightarrow> q \<noteq> []" if "x \<noteq> Inl Undefined"
    using evictOldest_qview [OF evict s] that by auto
  have step: "i \<noteq> [] \<Longrightarrow> (r, t) = (case x of Inl f \<Rightarrow> (Inl f, u)
      | Inr b \<Rightarrow> if \<not> b then (Inr False, u) else storeEntry env i e u)"
    using run by (cases x) (auto simp: processLogEntry_def getM_def i bindM_def evict returnM_def)
  show ?thesis
  proof (cases "i \<noteq> [] \<and> x = Inr True")
    case True
    then have "storeEntry env i e u = (r, t)" using step by simp
    from storeEntry_qview [OF this u, unfolded gen] True ne show ?thesis
      by (cases "r = Inr True") auto
  next
    case False
    then show ?thesis
      using step run u by (auto simp: processLogEntry_def prog_simps i split: sum.splits if_splits)
  qed
qed

text \<open>Every other kind of PDR leaves the queues alone.\<close>

definition same_queues ::
  "('f, 'g, 'o) ExternalStorerFileInterface \<Rightarrow> ('f, 'g, 'o) ExternalStorerFileInterface \<Rightarrow> bool" where
  "same_queues s t \<longleftrightarrow> logEntrySavedQueue t = logEntrySavedQueue s \<and> logEntryQueue t = logEntryQueue s \<and>
     maxNumSavedLogEntries t = maxNumSavedLogEntries s \<and> maxNumLogEntries t = maxNumLogEntries s"

lemma keeps_same_fhM: "keeps (same_queues s) (fhM m)"
  by (simp add: keeps_def fhM_def memberM_def same_queues_def split: prod.split)

lemma keeps_same_modify: "(\<And>u. same_queues u (f u)) \<Longrightarrow> keeps (same_queues s) (modifyM f)"
  by (simp add: keeps_def modifyM_def same_queues_def)

lemma processLogService_queues: "keeps (same_queues s) (processLogService env j)"
  unfolding processLogService_def storer_createFile_def Let_def
  by (intro keeps_intros keeps_same_fhM keeps_same_modify) (simp_all add: same_queues_def)

lemma processOtherTypes_queues: "keeps (same_queues s) (processOtherTypes env j)"
  unfolding processOtherTypes_def storer_createFile_def by (intro keeps_intros keeps_same_fhM)

lemma same_queues_ok:
  fixes m :: "(('f, 'g, 'o) ExternalStorerFileInterface, 'a) prog"
  assumes "\<And>s. keeps (same_queues s) m"
  shows "keeps queues_ok m"
proof (rule keepsI)
  fix s :: "('f, 'g, 'o) ExternalStorerFileInterface"
  assume ok: "queues_ok s"
  have "same_queues s s \<longrightarrow> same_queues s (snd (m s))" using assms [of s] by (simp add: keeps_def)
  then show "queues_ok (snd (m s))" using ok by (simp add: same_queues_def queues_ok_def)
qed

lemma processLogEntry_queues_ok:
  fixes env :: "('f, 'j, 'g, 'o, 'h) StorerEnv"
  shows "keeps queues_ok (processLogEntry env e)"
proof (rule keepsI)
  fix s :: "('f, 'g, 'o) ExternalStorerFileInterface"
  assume ok: "queues_ok s"
  obtain r t where run: "processLogEntry env e s = (r, t)" by fastforce
  obtain sv q ms m i where s: "qview s = (sv, q, ms, m, i)" by (metis prod_cases5)
  have view: "queues_ok u \<longleftrightarrow> (case qview u of (sv, q, ms, m, i) \<Rightarrow>
      length sv \<le> ms \<and> length q \<le> m \<and> (q \<noteq> [] \<longrightarrow> length sv = ms))" for u
    by (simp add: queues_ok_def qview_def)
  have "queues_ok t"
    using processLogEntry_qview [OF run s] ok
    by (cases q) (auto simp: view s split: if_splits)
  then show "queues_ok (snd (processLogEntry env e s))" by (simp add: run)
qed

lemma publishJson_queues_ok: "keeps queues_ok (storer_publishJson env jsonStr)"
proof -
  have "keeps queues_ok (processLogService env j)" "keeps queues_ok (processOtherTypes env j)" for j
    by (rule same_queues_ok processLogService_queues processOtherTypes_queues)+
  then show ?thesis
    unfolding storer_publishJson_def by (intro keeps_intros processLogEntry_queues_ok)
qed

text \<open>The limits never change.\<close>

definition limits :: "u32 \<Rightarrow> u32 \<Rightarrow> ('f, 'g, 'o) ExternalStorerFileInterface \<Rightarrow> bool" where
  "limits ms m s \<longleftrightarrow> maxNumSavedLogEntries s = ms \<and> maxNumLogEntries s = m"

lemma keeps_limits_members:
  "keeps (limits ms m) (fhM f)" "keeps (limits ms m) (genM g)" "keeps (limits ms m) (notifierM n)"
  by (simp_all add: keeps_def fhM_def genM_def notifierM_def memberM_def limits_def split: prod.split)

lemma keeps_limits_modify:
  "(\<And>s. maxNumSavedLogEntries (f s) = maxNumSavedLogEntries s \<and> maxNumLogEntries (f s) = maxNumLogEntries s) \<Longrightarrow>
   keeps (limits ms m) (modifyM f)"
  by (simp add: keeps_def modifyM_def limits_def)

lemma publishJson_limits: "keeps (limits ms m) (storer_publishJson env jsonStr)"
  unfolding storer_publishJson_def processLogEntry_def storeEntry_def processLogService_def
    processOtherTypes_def evictOldest_def pushEntry_def storer_createFile_def Let_def
  by (intro keeps_intros keeps_limits_members keeps_limits_modify) simp_all

section \<open>Retention\<close>

text \<open>
  Of a history of entries the first \<open>ms\<close> are kept for good and of the others the last \<open>m\<close>.
\<close>

definition retained :: "nat \<Rightarrow> nat \<Rightarrow> string list \<Rightarrow> string list \<times> string list" where
  "retained ms m h = (take ms h, drop (length (drop ms h) - m) (drop ms h))"

lemma retained_snoc:
  assumes "retained ms m h = (sv, q)" "0 < m"
  defines "q' \<equiv> if length q = m then tl q else q"
  shows "retained ms m (h @ [p]) = (if length sv < ms then (sv @ [p], q') else (sv, q' @ [p]))"
proof (cases "length h < ms")
  case True
  then show ?thesis using assms by (auto simp: retained_def)
next
  case False
  define r where "r = drop ms h"
  have q: "q = drop (length r - m) r" using assms(1) by (simp add: retained_def r_def)
  have sv: "sv = take ms h" "length sv = ms" using assms(1) False by (auto simp: retained_def)
  have "drop (length r + 1 - m) (r @ [p]) = q' @ [p]"
  proof (cases "m \<le> length r")
    case True
    then have "length q = m" "length r + 1 - m = Suc (length r - m)" using q by simp_all
    then show ?thesis using True assms(2) by (simp add: q'_def q drop_Suc tl_drop)
  qed (use q in \<open>auto simp: q'_def\<close>)
  then show ?thesis using False sv by (simp add: retained_def r_def Suc_diff_le)
qed

definition retains :: "string list \<Rightarrow> ('f, 'g, 'o) ExternalStorerFileInterface \<Rightarrow> bool" where
  "retains h s \<longleftrightarrow> retained (unat (maxNumSavedLogEntries s)) (unat (maxNumLogEntries s)) h =
     (logEntrySavedQueue s, logEntryQueue s)"

lemma retains_new: "retains [] (ExternalStorerFileInterface_new conn root fh gen ms m)"
  by (simp add: retains_def retained_def ExternalStorerFileInterface_new_def)

lemma processLogEntry_retains:
  assumes "processLogEntry env e s = (Inr True, t)" "retains h s"
  shows "\<exists>uuid g. next_uuid env (randomGen s) = (Inr uuid, g) \<and>
    retains (h @ [entry_path (logServiceId s) uuid]) t \<and> logServiceId t = logServiceId s"
proof -
  obtain sv q ms m i where s: "qview s = (sv, q, ms, m, i)" by (metis prod_cases5)
  from processLogEntry_qview [OF assms(1) s] obtain uuid g where
    uuid: "next_uuid env (randomGen s) = (Inr uuid, g)" and ne: "length q = m \<longrightarrow> q \<noteq> []" and
    t: "qview t = (if length sv < ms
      then (sv @ [entry_path i uuid], if length q = m then tl q else q, ms, m, i)
      else (sv, (if length q = m then tl q else q) @ [entry_path i uuid], ms, m, i))"
    by (auto split: if_split_asm)
  have view: "retains h u \<longleftrightarrow> (case qview u of (sv, q, ms, m, i) \<Rightarrow> retained ms m h = (sv, q))" for h u
    by (simp add: retains_def qview_def)
  have ret: "retained ms m h = (sv, q)" using assms(2) by (simp add: view s)
  then have "0 < m" using ne by (cases m) (auto simp: retained_def)
  have i: "logServiceId s = i" "logServiceId t = i"
    using s t by (simp_all add: qview_def split: if_splits)
  have "retains (h @ [entry_path i uuid]) t"
    using retained_snoc [OF ret \<open>0 < m\<close>, of "entry_path i uuid"] t by (simp add: view)
  with uuid i show ?thesis by auto
qed

section \<open>No undefined behaviour\<close>

text \<open>The libraries return or throw; then so does the storer, unless its limit is zero.\<close>

definition env_defined :: "('f, 'j, 'g, 'o, 'h) StorerEnv \<Rightarrow> bool" where
  "env_defined env \<longleftrightarrow> defined (next_uuid env) \<and>
     (\<forall>p j. defined (fh_createFile (file_iface env) p j)) \<and> (\<forall>p. defined (fh_removeAll (file_iface env) p)) \<and>
     (\<forall>p i. defined (add_interface (object_server env) p i)) \<and>
     (\<forall>h n v. defined (register_property (object_server env) h n v)) \<and>
     (\<forall>h. defined (iface_initialize (object_server env) h))"

abbreviation has_limit :: "('f, 'g, 'o) ExternalStorerFileInterface \<Rightarrow> bool" where
  "has_limit s \<equiv> maxNumLogEntries s \<noteq> 0"

lemma safe_storer_members:
  "defined m \<Longrightarrow> safe has_limit (fhM m)" "defined m' \<Longrightarrow> safe has_limit (genM m')"
  "defined m'' \<Longrightarrow> safe has_limit (notifierM m'')"
  by (auto simp: safe_def defined_def fhM_def genM_def notifierM_def memberM_def split_beta)

lemma defined_serverM: "defined m \<Longrightarrow> defined (serverM m)"
  by (auto simp: defined_def serverM_def memberM_def split_beta)

lemma defined_createEntry: "env_defined env \<Longrightarrow> defined (createEntry (object_server env) p)"
  unfolding createEntry_def CperFileNotifier_new_def CperFileNotifier_delete_def
  by (intro defined_bind defined_serverM defined_simple) (simp_all add: env_defined_def)

lemma evictOldest_safe:
  fixes fh :: "('f, 'j) FileHandlerInterface"
  assumes "\<And>p. defined (fh_removeAll fh p)"
  shows "safe has_limit (evictOldest fh :: (('f, 'g, 'o) ExternalStorerFileInterface, bool) prog)"
proof (rule safe_run)
  fix s :: "('f, 'g, 'o) ExternalStorerFileInterface"
  assume lim: "has_limit s"
  obtain r t where run: "evictOldest fh s = (r, t)" by fastforce
  obtain sv q ms m i where s: "qview s = (sv, q, ms, m, i)" by (metis prod_cases5)
  have m: "m \<noteq> 0" using lim s unat_gt_0 [of "maxNumLogEntries s"] by (auto simp: qview_def)
  have "r \<noteq> Inl Undefined"
    using evictOldest_qview [OF run s] m assms by (auto simp: defined_def split: if_splits) (metis fst_conv)
  moreover have "has_limit t"
    using evictOldest_qview [OF run s] lim m by (auto simp: qview_def split: if_splits)
  ultimately show "\<exists>r t. evictOldest fh s = (r, t) \<and> has_limit t \<and> r \<noteq> Inl Undefined"
    using run by blast
qed

lemma safe_get_string: "safe P (get_string jl j k)"
  by (simp add: get_string_def safe_return safe_throw split: option.split)

lemma safe_limit_modify:
  "(\<And>s. maxNumLogEntries (f s) = maxNumLogEntries s) \<Longrightarrow> safe has_limit (modifyM f)"
  by (simp add: safe_def modifyM_def)

lemma safe_parsed:
  "safe P a \<Longrightarrow> (\<And>e. safe P (b e)) \<Longrightarrow> (\<And>j. safe P (c j)) \<Longrightarrow>
   safe P (case r of ParseError \<Rightarrow> a | ParseThrows e \<Rightarrow> b e | Parsed j \<Rightarrow> c j)"
  by (cases r) simp_all

lemma publishJson_safe:
  assumes "env_defined env"
  shows "safe has_limit (storer_publishJson env jsonStr)"
  unfolding storer_publishJson_def processLogEntry_def storeEntry_def processLogService_def
    processOtherTypes_def storer_createFile_def pushEntry_def getSchemaType_def Let_def
  by (intro safe_intros safe_parsed safe_storer_members evictOldest_safe safe_get_string
      safe_limit_modify defined_createEntry assms)
    (use assms in \<open>simp_all add: env_defined_def\<close>)

text \<open>With a limit of zero the first entry reads the front of an empty queue.\<close>

lemma processLogEntry_zero_limit:
  assumes "maxNumLogEntries s = 0" "logEntryQueue s = []" "logServiceId s \<noteq> []"
  shows "processLogEntry env e s = (Inl Undefined, s)"
  using assms by (simp add: processLogEntry_def evictOldest_def bindM_def getM_def undefinedM_def)

end
