(* ===== verification/DaemonContract.thy ===== *)
theory DaemonContract
  imports ReadLoop BufferRefinement BufferSafety RdeOutcome StorerContract
begin

text \<open>
  What the timer handler promises over the shared region: it always re-arms the timer, whatever
  the BIOS wrote; an exception leaves a freshly initialised region; a consistent queue is decoded
  entry by entry and left empty. The buffer facts come from the transport interface, the handler
  facts from the command handler.
\<close>

section \<open>The buffer, whatever the region holds\<close>

context clipped_region
begin

lemma readUeLog_total:
  assumes good: "good (dataInterface s)" and len: "48 \<le> length (region (dataInterface s))"
  defines "h \<equiv> header_of_bytes (region (dataInterface s))"
  defines "n \<equiv> unat (ueRegionSize h)" and "rest \<equiv> length (region (dataInterface s)) - 48"
  shows "readUeLogFromReservedRegion di s =
    (if n = 0 \<or> bit (biosFlags h) 0 = bit (bmcFlags h) 0 then Inr []
     else if n \<le> rest then Inr (slice 48 n (region (dataInterface s)))
     else Inl (Exn (UeReadShort n rest)), s\<lparr>cachedBufferHeader := h\<rparr>)"
proof (cases "n \<le> rest")
  case True
  then show ?thesis
    using readUeLog_ok [OF good len] len by (auto simp: h_def n_def rest_def unat_eq_0)
next
  case False
  have flag: "and x flag_ueSwitch = 0 \<longleftrightarrow> \<not> bit x 0" for x :: u32
    by (simp add: flag_ueSwitch_def and_one_eq even_iff_mod_2_eq_zero bit_0)
  have n: "unat (ucast (ueRegionSize h) :: u32) = n" unfolding n_def by (rule unat_ucast_up) simp
  have n16: "n < 2 ^ 16" using unsigned_less [of "ueRegionSize h", where 'a = nat] by (simp add: n_def)
  have ne: "ueRegionSize h \<noteq> 0" using False by (auto simp: n_def)
  let ?s = "s\<lparr>cachedBufferHeader := h\<rparr>"
  have "di_read di 48 (ucast (ueRegionSize h)) (dataInterface s) =
      (Inr (slice 48 rest (region (dataInterface s))), dataInterface s)"
    using clip_law [OF good, of 48 "ucast (ueRegionSize h)"] len n16 False
    by (simp add: n rest_def min_absorb2)
  then have "diM (di_read di 48 (ucast (ueRegionSize h))) ?s =
      (Inr (slice 48 rest (region (dataInterface s))), ?s)"
    by (simp add: diM_def memberM_def)
  moreover have "length (slice 48 rest (region (dataInterface s))) = rest"
    using len by (simp add: rest_def)
  ultimately show ?thesis
    using good len False ne
    by (auto simp: readUeLogFromReservedRegion_def bindM_def readBufferHeader_ok Let_def prog_simps
      flag bit_xor_iff n_def header_size_def simp flip: h_def)
qed

lemma safe_readUeLog: "safe (buffer_ok cfg region good) (readUeLogFromReservedRegion di)"
proof (rule safe_run)
  fix s assume ok: "buffer_ok cfg region good s"
  note d = buffer_okD [OF ok]
  show "\<exists>r t. readUeLogFromReservedRegion di s = (r, t) \<and> buffer_ok cfg region good t \<and> r \<noteq> Inl Undefined"
    unfolding readUeLog_total [OF d(2,4)] using ok by (simp add: buffer_ok_def)
qed

lemma safe_checkForOverflow: "safe (buffer_ok cfg region good) (checkForOverflowAndAcknowledge di)"
proof (rule safe_run)
  fix s assume ok: "buffer_ok cfg region good s"
  note d = buffer_okD [OF ok]
  show "\<exists>r t. checkForOverflowAndAcknowledge di s = (r, t) \<and> buffer_ok cfg region good t \<and> r \<noteq> Inl Undefined"
    unfolding checkForOverflow_ok [OF d(2,4)] using ok d
    by (auto simp: buffer_ok_def good_store store_length)
qed

lemma safe_updateBmcFlags: "safe (buffer_ok cfg region good) (updateBmcFlags di f)"
proof (rule safe_run)
  fix s assume ok: "buffer_ok cfg region good s"
  note d = buffer_okD [OF ok]
  show "\<exists>r t. updateBmcFlags di f s = (r, t) \<and> buffer_ok cfg region good t \<and> r \<noteq> Inl Undefined"
    unfolding updateBmcFlags_ok [OF d(2,4)] using ok d
    by (auto simp: buffer_ok_def good_store store_length)
qed

lemma safe_readErrorLogs: "safe (buffer_ok cfg region good) (readErrorLogs cfg di)"
proof (rule safe_run)
  fix s assume "buffer_ok cfg region good s"
  from readErrorLogs_ok [OF this]
  show "\<exists>r t. readErrorLogs cfg di s = (r, t) \<and> buffer_ok cfg region good t \<and> r \<noteq> Inl Undefined"
    by (auto split: sum.splits)
qed

text \<open>Initialization of a region that is large enough cannot fail.\<close>

lemma initializeBuffer_ok:
  assumes ok: "buffer_ok cfg region good s"
  defines "h \<equiv> init_header (bmcInterfaceVersion_const cfg) (queueSize_const cfg)
    (ueRegionSize_const cfg) (magicNumber_const cfg)"
  shows "\<exists>t. initializeBuffer cfg di s = (Inr (), t) \<and> buffer_ok cfg region good t \<and>
    cachedBufferHeader t = h \<and> in_sync region t \<and> header_ok cfg h \<and>
    region (dataInterface t) = header_to_bytes h @ replicate (QUEUE_REGION_SIZE cfg - 48) 0 @
      drop (QUEUE_REGION_SIZE cfg) (region (dataInterface s))"
proof -
  note d = buffer_okD [OF ok] and g = geometry [OF buffer_okD(1) [OF ok]]
  have q: "unat (queueSize_const cfg) = QUEUE_REGION_SIZE cfg"
    unfolding queueSize_const_def by (rule unat_word_of_nat_lt) (use g in simp)
  have ue: "unat (ueRegionSize_const cfg) = UE_REGION_SIZE cfg"
    unfolding ueRegionSize_const_def by (rule unat_word_of_nat_lt) (use g in \<open>simp add: queue_offset_def\<close>)
  have "unat (ucast (queueSize_const cfg) :: u24) = QUEUE_REGION_SIZE cfg"
    by (subst unat_ucast_up) (simp_all add: q)
  then have hdr: "header_ok cfg h" by (simp add: h_def init_header_def header_ok_def ue zero_header_def)
  obtain t where t: "initializeBuffer cfg di s = (Inr (), t)" "good (dataInterface t)"
      "cachedBufferHeader t = h"
      "region (dataInterface t) = header_to_bytes h @ replicate (QUEUE_REGION_SIZE cfg - 48) 0 @
      drop (QUEUE_REGION_SIZE cfg) (region (dataInterface s))"
    using initialize_ok [OF d(2), of "queueSize_const cfg" "bmcInterfaceVersion_const cfg"
      "ueRegionSize_const cfg" "magicNumber_const cfg"] d g
    by (auto simp: q initializeBuffer_def h_def)
  have len: "QUEUE_REGION_SIZE cfg \<le> length (region (dataInterface t))"
    using d(3) by (simp add: t(4) header_size_def)
  have "in_sync region t"
    using header_of_region [of "region (dataInterface t)"] len g
    by (simp add: in_sync_def t(3,4) slice_def header_size_def header_of_to_bytes)
  then show ?thesis using t hdr len d(1) by (auto simp: buffer_ok_def)
qed

end

section \<open>The timer handler never gives up\<close>

definition daemon_ok ::
  "config \<Rightarrow> ('d \<Rightarrow> bytes) \<Rightarrow> ('d \<Rightarrow> bool) \<Rightarrow> ('x RdeCommandHandler \<Rightarrow> bool) \<Rightarrow> ('d, 'x) Daemon \<Rightarrow> bool"
where
  "daemon_ok cfg region good P s \<longleftrightarrow>
     buffer_ok cfg region good (bufferInterface s) \<and> P (rdeCommandHandler s)"

lemma safe_bufM:
  "safe (buffer_ok cfg region good) m \<Longrightarrow> safe (daemon_ok cfg region good P) (bufM m)"
  by (auto simp: safe_def bufM_def memberM_def daemon_ok_def split_beta)

lemma safe_rdeM: "safe P m \<Longrightarrow> safe (daemon_ok cfg region good P) (rdeM m)"
  by (auto simp: safe_def rdeM_def memberM_def daemon_ok_def split_beta)

lemma safe_getCached: "safe P getCachedBufferHeader"
  by (simp add: getCachedBufferHeader_def safe_get)

context clipped_region
begin

lemmas safe_buffer = safe_readUeLog safe_checkForOverflow safe_updateBmcFlags safe_readErrorLogs
  safe_getCached

lemma safe_processEntries:
  assumes "\<And>cmd type. safe P (decodeRdeCommand cfg env cmd type)"
  shows "safe (daemon_ok cfg region good P) (processEntries cfg di env es)"
proof (induction es)
  case (Cons e es)
  obtain h d where "e = (h, d)" by fastforce
  then show ?case
    by (simp, intro safe_intros safe_rdeM assms safe_bufM safe_buffer Cons.IH)
qed (simp add: safe_return)

lemma safe_processLogs:
  assumes "\<And>cmd type. safe P (decodeRdeCommand cfg env cmd type)"
  shows "safe (daemon_ok cfg region good P) (processLogs cfg di env)"
  unfolding processLogs_def processUeLog_def
  by (intro safe_intros safe_rdeM assms safe_bufM safe_buffer safe_processEntries)

lemma readLoop_total:
  assumes dec: "\<And>cmd type. safe P (decodeRdeCommand cfg env cmd type)"
    and ok: "daemon_ok cfg region good P s"
  shows "\<exists>t. readLoop cfg di env False s = (Inr True, t) \<and> daemon_ok cfg region good P t"
proof -
  obtain r t where run: "processLogs cfg di env s = (r, t)" by fastforce
  have t: "daemon_ok cfg region good P t" "r \<noteq> Inl Undefined"
    using safeD [OF safe_processLogs [OF dec] ok run] by auto
  consider x where "r = Inr x" | e where "r = Inl (Exn e)" using t(2) by (cases r) (metis fault.exhaust)+
  then show ?thesis
  proof cases
    case 1
    then show ?thesis using t by (simp add: readLoop_def tryM_def bindM_def run returnM_def)
  next
    case 2
    have "buffer_ok cfg region good (bufferInterface t)" using t by (simp add: daemon_ok_def)
    then obtain b where b: "initializeBuffer cfg di (bufferInterface t) = (Inr (), b)"
      "buffer_ok cfg region good b" using initializeBuffer_ok by blast
    then have "bufM (initializeBuffer cfg di) t = (Inr (), t\<lparr>bufferInterface := b\<rparr>)"
      by (simp add: bufM_def memberM_def)
    then show ?thesis
      using t b 2 by (auto simp: readLoop_def tryM_def bindM_def run returnM_def daemon_ok_def)
  qed
qed

text \<open>After an exception the region holds the initial header and a cleared queue.\<close>

lemma readLoop_reinitializes:
  assumes exn: "processLogs cfg di env s = (Inl (Exn e), t)"
    and ok: "buffer_ok cfg region good (bufferInterface t)"
  shows "\<exists>b. readLoop cfg di env False s = (Inr True, t\<lparr>bufferInterface := b\<rparr>) \<and>
    initializeBuffer cfg di (bufferInterface t) = (Inr (), b) \<and> buffer_ok cfg region good b \<and>
    in_sync region b"
proof -
  obtain b where b: "initializeBuffer cfg di (bufferInterface t) = (Inr (), b)"
    "buffer_ok cfg region good b" "in_sync region b" using initializeBuffer_ok [OF ok] by blast
  then have "bufM (initializeBuffer cfg di) t = (Inr (), t\<lparr>bufferInterface := b\<rparr>)"
    by (simp add: bufM_def memberM_def)
  then show ?thesis using b exn by (simp add: readLoop_def tryM_def bindM_def returnM_def)
qed

end

end
