(* ===== verification/DaemonTick.thy ===== *)
theory DaemonTick
  imports DaemonContract
begin

text \<open>
  One successful run of the timer handler, from the header and the queue the BIOS left to the
  header the BIOS finds afterwards: the pending UE log and then the entries of the queue are
  decoded in order, the read pointer catches up with the write pointer, and the flags answer the
  BIOS's.
\<close>

section \<open>Views of the region\<close>

definition region_header :: "('d \<Rightarrow> bytes) \<Rightarrow> 'd BufferImpl \<Rightarrow> CircularBufferHeader" where
  "region_header region b = header_of_bytes (region (dataInterface b))"

definition region_queue :: "config \<Rightarrow> ('d \<Rightarrow> bytes) \<Rightarrow> 'd BufferImpl \<Rightarrow> bytes" where
  "region_queue cfg region b = queue_ring cfg (region (dataInterface b))"

text \<open>\<open>becomes\<close>: a consistent successor with the given header and the same queue bytes.\<close>

definition becomes ::
  "config \<Rightarrow> ('d \<Rightarrow> bytes) \<Rightarrow> ('d \<Rightarrow> bool) \<Rightarrow> 'd BufferImpl \<Rightarrow> CircularBufferHeader \<Rightarrow> 'd BufferImpl \<Rightarrow> bool"
where
  "becomes cfg region good b h b' \<longleftrightarrow> buffer_ok cfg region good b' \<and> in_sync region b' \<and>
     region_header region b' = h \<and> region_queue cfg region b' = region_queue cfg region b"

lemma becomes_cached: "becomes cfg region good b h b' \<Longrightarrow> cachedBufferHeader b' = h"
  by (simp add: becomes_def in_sync_def region_header_def)

lemma becomes_trans:
  "becomes cfg region good a h b \<Longrightarrow> becomes cfg region good b i c \<Longrightarrow> becomes cfg region good a i c"
  by (simp add: becomes_def)

lemma queue_holds_flags:
  assumes "region_queue cfg region b' = region_queue cfg region b"
    and "region_header region b' = (region_header region b)\<lparr>bmcFlags := f\<rparr>"
  shows "queue_holds cfg (region (dataInterface b')) es = queue_holds cfg (region (dataInterface b)) es"
  using assms
  by (simp add: queue_holds_def Let_def region_queue_def region_header_def header_ok_def)

context clipped_region
begin

lemma updateBmcFlags_becomes:
  assumes ok: "buffer_ok cfg region good b" and sync: "in_sync region b"
  shows "\<exists>b'. updateBmcFlags di f b = (Inr (), b') \<and>
    becomes cfg region good b ((region_header region b)\<lparr>bmcFlags := f\<rparr>) b'"
proof -
  note d = buffer_okD [OF ok]
  have "region (store 0x1d (le_bytes 4 f) (dataInterface b)) =
      overwrite (region (dataInterface b)) 0x1d (le_bytes 4 f)"
    using d by (simp add: region_store)
  then show ?thesis
    using d sync
    by (simp add: updateBmcFlags_ok becomes_def buffer_ok_def good_store in_sync_def region_header_def
      region_queue_def header_store_bmc_flags queue_ring_header_store)
qed

lemma overflow_becomes:
  assumes ok: "buffer_ok cfg region good b"
  defines "h \<equiv> region_header region b"
  shows "\<exists>b'. checkForOverflowAndAcknowledge di b = (Inr (bit (biosFlags h) 1 \<noteq> bit (bmcFlags h) 1), b') \<and>
    becomes cfg region good b
      (h\<lparr>bmcFlags := if bit (biosFlags h) 1 \<noteq> bit (bmcFlags h) 1 then flip_bit 1 (bmcFlags h)
         else bmcFlags h\<rparr>) b'"
proof -
  note d = buffer_okD [OF ok]
  let ?f = "flip_bit 1 (bmcFlags h)"
  have "region (store 0x1d (le_bytes 4 ?f) (dataInterface b)) =
      overwrite (region (dataInterface b)) 0x1d (le_bytes 4 ?f)"
    using d by (simp add: region_store)
  then show ?thesis
    using d checkForOverflow_ok [OF d(2,4)]
    by (simp add: h_def region_header_def becomes_def buffer_ok_def good_store in_sync_def
      region_queue_def header_store_bmc_flags queue_ring_header_store)
qed

lemma readErrorLogs_becomes:
  assumes ok: "buffer_ok cfg region good b" and holds: "queue_holds cfg (region (dataInterface b)) es"
  defines "h \<equiv> region_header region b"
  shows "\<exists>b'. readErrorLogs cfg di b = (Inr es, b') \<and>
    becomes cfg region good b (h\<lparr>bmcReadPtr := biosWritePtr h\<rparr>) b'"
proof -
  note d = buffer_okD [OF ok]
  let ?u = "b\<lparr>cachedBufferHeader := h\<rparr>"
  obtain t p where run: "readErrorLogs cfg di b = (Inr es, t)" and t: "moved region p ?u t"
      "buffer_ok cfg region good t" "in_sync region t"
    using readErrorLogs_ok [OF ok] logs_spec_complete [OF d(1,3) holds]
    by (auto simp: h_def region_header_def)
  have "unat (bmcReadPtr (cachedBufferHeader t)) = unat (biosWritePtr h)"
    using run unfolding readErrorLogs_run [OF ok]
    by (auto simp: h_def region_header_def split: if_splits sum.splits prod.splits)
  then have "bmcReadPtr (cachedBufferHeader t) = biosWritePtr h" by (rule unsigned_word_eqI)
  moreover have cached: "cachedBufferHeader t = h\<lparr>bmcReadPtr := word_of_nat p\<rparr>"
    using t(1) by (simp add: moved_def)
  ultimately have "region_header region t = h\<lparr>bmcReadPtr := biosWritePtr h\<rparr>"
    using t(3) by (simp add: in_sync_def region_header_def)
  moreover have "region_queue cfg region t = region_queue cfg region b"
    using moved_ring [OF d(1) _ t(1)] d(3) by (simp add: region_queue_def)
  ultimately show ?thesis using run t by (auto simp: becomes_def)
qed

end

section \<open>The entries\<close>

text \<open>Decoding the entries of a queue in order, by the command handler alone.\<close>

fun decode_entries ::
  "config \<Rightarrow> 'x RdeEnv \<Rightarrow> EntryPair list \<Rightarrow> ('x RdeCommandHandler, RdeDecodeStatus list) prog" where
  "decode_entries cfg env [] = returnM []"
| "decode_entries cfg env ((h, d) # es) =
     bindM (decodeRdeCommand cfg env d (rdeCommandType h)) (\<lambda>st.
     bindM (decode_entries cfg env es) (\<lambda>sts. returnM (st # sts)))"

definition ready_after :: "RdeDecodeStatus list \<Rightarrow> u32 \<Rightarrow> u32" where
  "ready_after sts f = (if RdeStopFlagReceived \<in> set sts then or f flag_ready else f)"

lemma ready_after_Cons:
  "ready_after sts (if st = RdeStopFlagReceived then or f flag_ready else f) = ready_after (st # sts) f"
  by (simp add: ready_after_def or.assoc)

context clipped_region
begin

lemma processEntries_ok:
  assumes "buffer_ok cfg region good (bufferInterface s)" "in_sync region (bufferInterface s)"
    and "decode_entries cfg env es (rdeCommandHandler s) = (Inr sts, x)"
  defines "h \<equiv> region_header region (bufferInterface s)"
  shows "\<exists>t. processEntries cfg di env es s = (Inr (), t) \<and> rdeCommandHandler t = x \<and>
    becomes cfg region good (bufferInterface s) (h\<lparr>bmcFlags := ready_after sts (bmcFlags h)\<rparr>)
      (bufferInterface t)"
  using assms(1-3) unfolding h_def
proof (induction es arbitrary: s sts)
  case Nil
  then show ?case by (simp add: returnM_def ready_after_def becomes_def)
next
  case (Cons e es)
  obtain hd d where e: "e = (hd, d)" by fastforce
  from Cons.prems(3) obtain st y sts' where
    dec: "decodeRdeCommand cfg env d (rdeCommandType hd) (rdeCommandHandler s) = (Inr st, y)" and
    rest: "decode_entries cfg env es y = (Inr sts', x)" and sts: "sts = st # sts'"
    by (auto simp: e prog_invert)
  let ?s = "s\<lparr>rdeCommandHandler := y\<rparr>"
  let ?h = "region_header region (bufferInterface s)"
  let ?f = "if st = RdeStopFlagReceived then or (bmcFlags ?h) flag_ready else bmcFlags ?h"
  have cached: "cachedBufferHeader (bufferInterface s) = ?h"
    using Cons.prems(2) by (simp add: in_sync_def region_header_def)
  obtain b where
    flags: "(if st = RdeStopFlagReceived
        then bindM (bufM getCachedBufferHeader) (\<lambda>bh. bufM (updateBmcFlags di (or (bmcFlags bh) flag_ready)))
        else returnM ()) ?s = (Inr (), ?s\<lparr>bufferInterface := b\<rparr>)"
    and b: "becomes cfg region good (bufferInterface s) (?h\<lparr>bmcFlags := ?f\<rparr>) b"
  proof (cases "st = RdeStopFlagReceived")
    case True
    obtain b where "updateBmcFlags di (or (bmcFlags ?h) flag_ready) (bufferInterface s) = (Inr (), b)"
      "becomes cfg region good (bufferInterface s) (?h\<lparr>bmcFlags := or (bmcFlags ?h) flag_ready\<rparr>) b"
      using updateBmcFlags_becomes [OF Cons.prems(1,2)] by blast
    then show ?thesis
      using True cached by (intro that [of b]) (simp_all add: bindM_def bufM_def memberM_def
        getCachedBufferHeader_def getM_def)
  next
    case False
    then show ?thesis
      using Cons.prems by (intro that [of "bufferInterface s"]) (simp_all add: becomes_def returnM_def)
  qed
  let ?t = "?s\<lparr>bufferInterface := b\<rparr>"
  have "buffer_ok cfg region good (bufferInterface ?t)" "in_sync region (bufferInterface ?t)"
    and hb: "region_header region b = ?h\<lparr>bmcFlags := ?f\<rparr>"
    using b by (simp_all add: becomes_def)
  from Cons.IH [OF this(1,2), of sts'] rest obtain u where
    u: "processEntries cfg di env es ?t = (Inr (), u)" "rdeCommandHandler u = x"
      "becomes cfg region good b (?h\<lparr>bmcFlags := ready_after sts' ?f\<rparr>) (bufferInterface u)"
    by (auto simp: hb)
  have "processEntries cfg di env (e # es) s = (Inr (), u)"
    using flags u(1) by (simp add: e bindM_def rdeM_def memberM_def dec)
  then show ?case
    using u(2) becomes_trans [OF b u(3)] by (auto simp: sts ready_after_Cons)
qed

end

section \<open>The UE log\<close>

context clipped_region
begin

lemma processUeLog_ok:
  assumes ok: "buffer_ok cfg region good (bufferInterface s)"
  defines "r \<equiv> region (dataInterface (bufferInterface s))"
  defines "h \<equiv> region_header region (bufferInterface s)"
  assumes hdr: "header_ok cfg h"
    and dec: "if ue_pending h
      then decodeRdeCommand cfg env (ue_log r) RdeOperationInitRequest (rdeCommandHandler s) = (Inr RdeOk, x)
      else x = rdeCommandHandler s"
  shows "\<exists>t. processUeLog cfg di env s = (Inr (), t) \<and> rdeCommandHandler t = x \<and>
    becomes cfg region good (bufferInterface s)
      (h\<lparr>bmcFlags := if ue_pending h then flip_bit 0 (bmcFlags h) else bmcFlags h\<rparr>) (bufferInterface t)"
proof -
  let ?b = "bufferInterface s"
  let ?b1 = "?b\<lparr>cachedBufferHeader := h\<rparr>"
  note d = buffer_okD [OF ok] and g = geometry [OF buffer_okD(1) [OF ok]]
  have n: "48 + unat (ueRegionSize h) \<le> length r"
    using hdr d(3) g by (simp add: header_ok_def r_def queue_offset_def)
  have ue: "readUeLogFromReservedRegion di ?b = (Inr (if ue_pending h then ue_log r else []), ?b1)"
    using readUeLog_ok [OF d(2,4)] n
    by (simp add: r_def h_def region_header_def ue_pending_def ue_log_def)
  have b1: "becomes cfg region good ?b h ?b1" "buffer_ok cfg region good ?b1" "in_sync region ?b1"
    using ok by (simp_all add: becomes_def buffer_ok_def in_sync_def h_def region_header_def region_queue_def)
  show ?thesis
  proof (cases "ue_pending h")
    case False
    then show ?thesis
      using ue dec b1 by (simp add: processUeLog_def bindM_def bufM_def memberM_def returnM_def)
  next
    case True
    then have "ueRegionSize h \<noteq> 0" by (simp add: ue_pending_def)
    then have "0 < unat (ueRegionSize h)" by (simp add: unat_gt_0)
    moreover have "length (ue_log r) = unat (ueRegionSize h)"
      using n by (simp add: ue_log_def h_def region_header_def r_def)
    ultimately have ne: "ue_log r \<noteq> []" by auto
    have flip: "xor (bmcFlags h) flag_ueSwitch = flip_bit 0 (bmcFlags h)"
      by (simp add: flag_ueSwitch_def flip_bit_eq_xor)
    have h1: "region_header region ?b1 = h" by (simp add: h_def region_header_def)
    obtain b where b: "updateBmcFlags di (flip_bit 0 (bmcFlags h)) ?b1 = (Inr (), b)"
      "becomes cfg region good ?b1 (h\<lparr>bmcFlags := flip_bit 0 (bmcFlags h)\<rparr>) b"
      using updateBmcFlags_becomes [OF b1(2,3), unfolded h1] by blast
    have "processUeLog cfg di env s = (Inr (), s\<lparr>rdeCommandHandler := x, bufferInterface := b\<rparr>)"
      using ue True ne dec b(1)
      by (simp add: processUeLog_def bindM_def bufM_def rdeM_def memberM_def getCachedBufferHeader_def
        getM_def flip)
    then show ?thesis using True becomes_trans [OF b1(1) b(2)] by auto
  qed
qed

end

section \<open>The tick\<close>

text \<open>The flags the BMC answers with.\<close>

definition answered :: "CircularBufferHeader \<Rightarrow> RdeDecodeStatus list \<Rightarrow> u32" where
  "answered h sts =
     (let f = bmcFlags h;
          f = (if ue_pending h then flip_bit 0 f else f);
          f = (if bit (biosFlags h) 1 \<noteq> bit (bmcFlags h) 1 then flip_bit 1 f else f)
      in ready_after sts f)"

context clipped_region
begin

lemma readLoop_tick:
  assumes ok: "buffer_ok cfg region good (bufferInterface s)"
  defines "r \<equiv> region (dataInterface (bufferInterface s))"
  defines "h \<equiv> region_header region (bufferInterface s)"
  assumes holds: "queue_holds cfg r es"
    and ue: "if ue_pending h
      then decodeRdeCommand cfg env (ue_log r) RdeOperationInitRequest (rdeCommandHandler s) = (Inr RdeOk, x)
      else x = rdeCommandHandler s"
    and entries: "decode_entries cfg env es x = (Inr sts, y)"
  shows "\<exists>t. readLoop cfg di env False s = (Inr True, t) \<and> rdeCommandHandler t = y \<and>
    becomes cfg region good (bufferInterface s)
      (h\<lparr>bmcFlags := answered h sts, bmcReadPtr := biosWritePtr h\<rparr>) (bufferInterface t)"
proof -
  have hdr: "header_ok cfg h" using holds by (simp add: queue_holds_def Let_def h_def r_def region_header_def)
  define f1 where "f1 = (if ue_pending h then flip_bit 0 (bmcFlags h) else bmcFlags h)"
  let ?ov = "bit (biosFlags h) 1 \<noteq> bit (bmcFlags h) 1"
  let ?f2 = "if ?ov then flip_bit 1 f1 else f1"
  obtain t1 where t1: "processUeLog cfg di env s = (Inr (), t1)" "rdeCommandHandler t1 = x"
    and b1: "becomes cfg region good (bufferInterface s) (h\<lparr>bmcFlags := f1\<rparr>) (bufferInterface t1)"
    using processUeLog_ok [OF ok] hdr ue unfolding f1_def h_def r_def by blast
  have h1: "region_header region (bufferInterface t1) = h\<lparr>bmcFlags := f1\<rparr>"
    and q1: "region_queue cfg region (bufferInterface t1) = region_queue cfg region (bufferInterface s)"
    and ok1: "buffer_ok cfg region good (bufferInterface t1)" using b1 by (simp_all add: becomes_def)
  have bit1: "bit f1 1 = bit (bmcFlags h) 1" by (simp add: f1_def bit_flip_bit_iff)
  have upd: "bmcFlags (h\<lparr>bmcFlags := f1\<rparr>) = f1" "biosFlags (h\<lparr>bmcFlags := f1\<rparr>) = biosFlags h"
    "h\<lparr>bmcFlags := f1, bmcFlags := f\<rparr> = h\<lparr>bmcFlags := f\<rparr>" for f by simp_all
  obtain b2 where ack: "checkForOverflowAndAcknowledge di (bufferInterface t1) = (Inr ?ov, b2)"
    and b2: "becomes cfg region good (bufferInterface t1) (h\<lparr>bmcFlags := ?f2\<rparr>) b2"
    using overflow_becomes [OF ok1] unfolding h1 upd bit1 by blast
  have ok2: "buffer_ok cfg region good b2" and h2: "region_header region b2 = h\<lparr>bmcFlags := ?f2\<rparr>"
    and q2: "region_queue cfg region b2 = region_queue cfg region (bufferInterface s)"
    using b2 q1 by (simp_all add: becomes_def)
  have "queue_holds cfg (region (dataInterface b2)) es"
    using holds queue_holds_flags [OF q2, of ?f2] h2 by (simp add: h_def r_def)
  then obtain b3 where logs: "readErrorLogs cfg di b2 = (Inr es, b3)"
    and b3: "becomes cfg region good b2 (h\<lparr>bmcFlags := ?f2, bmcReadPtr := biosWritePtr h\<rparr>) b3"
    using readErrorLogs_becomes [OF ok2] unfolding h2 by auto
  let ?t3 = "t1\<lparr>bufferInterface := b3\<rparr>"
  have ok3: "buffer_ok cfg region good (bufferInterface ?t3)" "in_sync region (bufferInterface ?t3)"
    and h3: "region_header region b3 = h\<lparr>bmcFlags := ?f2, bmcReadPtr := biosWritePtr h\<rparr>"
    using b3 by (simp_all add: becomes_def)
  have dec: "decode_entries cfg env es (rdeCommandHandler ?t3) = (Inr sts, y)"
    using entries t1(2) by simp
  have swap: "h\<lparr>bmcReadPtr := p, bmcFlags := f\<rparr> = h\<lparr>bmcFlags := f, bmcReadPtr := p\<rparr>" for p f
    by simp
  from processEntries_ok [OF ok3 dec] obtain t where
    t: "processEntries cfg di env es ?t3 = (Inr (), t)" "rdeCommandHandler t = y"
    and b4: "becomes cfg region good b3
      (h\<lparr>bmcFlags := ready_after sts ?f2, bmcReadPtr := biosWritePtr h\<rparr>) (bufferInterface t)"
    by (auto simp: h3 swap)
  have "processLogs cfg di env s = (Inr (), t)"
    using t1 ack logs t(1) by (simp add: processLogs_def bindM_def bufM_def memberM_def)
  then have "readLoop cfg di env False s = (Inr True, t)"
    by (simp add: readLoop_def tryM_def bindM_def returnM_def)
  moreover have "answered h sts = ready_after sts ?f2" by (simp add: answered_def Let_def f1_def)
  ultimately show ?thesis
    using t(2) becomes_trans [OF b1 becomes_trans [OF b2 becomes_trans [OF b3 b4]]] by auto
qed

end

end
