(* ===== verification/DaemonInvariant.thy ===== *)
theory DaemonInvariant
  imports DaemonTick
begin

text \<open>
  The daemon as \<open>main\<close> builds it, over the PCI handler and the file-based storer, and everything
  that can happen to it: ticks of the timer and arbitrary writes of the BIOS to the region. The
  invariant is proved by rule induction over \<open>daemon_reach\<close>.
\<close>

section \<open>The libraries\<close>

definition libraries_defined ::
  "('f, 'j) FileSystem \<Rightarrow> ('g, string) prog \<Rightarrow> ('o, 'h) ObjectServer \<Rightarrow> bool" where
  "libraries_defined fs uuid server \<longleftrightarrow>
     (\<forall>p. defined (fs_is_directory fs p) \<and> defined (fs_create_directories fs p) \<and>
        (\<forall>j. defined (fs_write_file fs p j)) \<and> defined (fs_remove_all fs p)) \<and>
     defined uuid \<and> (\<forall>p i. defined (add_interface server p i)) \<and>
     (\<forall>h n v. defined (register_property server h n v)) \<and> (\<forall>h. defined (iface_initialize server h))"

lemma defined_fsM: "defined m \<Longrightarrow> defined (fsM m)"
  by (auto simp: defined_def fsM_def memberM_def split_beta)

lemma defined_createFolder:
  assumes "libraries_defined fs uuid server"
  shows "defined (createFolder fs p)"
  unfolding createFolder_def Let_def
  by (intro defined_bind defined_if defined_fsM defined_simple)
    (use assms in \<open>simp_all add: libraries_defined_def\<close>)

lemma writer_defined:
  assumes libs: "libraries_defined fs uuid server"
  shows "env_defined \<lparr>json_lib = jl, file_iface = writer_interface fs, next_uuid = uuid,
    object_server = server\<rparr>"
proof -
  have "defined (createFile fs p j)" "defined (removeAll fs p)" for p j
    unfolding createFile_def removeAll_def Let_def
    by (intro defined_bind defined_if defined_fsM defined_simple defined_createFolder [OF libs];
        use libs in \<open>simp add: libraries_defined_def\<close>)+
  then show ?thesis
    using libs by (simp add: env_defined_def libraries_defined_def writer_interface_def)
qed

section \<open>The invariant\<close>

definition storer_inv :: "('f, 'g, 'o) ExternalStorerFileInterface \<Rightarrow> bool" where
  "storer_inv x \<longleftrightarrow> queues_ok x \<and> limits default_numSavedLogEntries default_numLogEntries x"

definition handler_ok :: "('f, 'g, 'o) ExternalStorerFileInterface RdeCommandHandler \<Rightarrow> bool" where
  "handler_ok h \<longleftrightarrow> handler_inv h \<and> storer_inv (exStorer h)"

abbreviation pci_daemon_ok ::
  "config \<Rightarrow> (PciDataHandler, ('f, 'g, 'o) ExternalStorerFileInterface) Daemon \<Rightarrow> bool" where
  "pci_daemon_ok cfg \<equiv> daemon_ok cfg mmap (pci_good cfg) handler_ok"

lemma storer_inv_limit: "storer_inv x \<Longrightarrow> has_limit x"
  by (simp add: storer_inv_def limits_def default_numLogEntries_def)

lemma storer_safe:
  assumes "libraries_defined fs uuid server"
  shows "safe storer_inv (publishJson (daemon_env dec fs jl uuid server) j)"
  using publishJson_safe [OF writer_defined [OF assms], of jl j]
    publishJson_queues_ok [of "\<lparr>json_lib = jl, file_iface = writer_interface fs, next_uuid = uuid,
    object_server = server\<rparr>" j]
    publishJson_limits [of default_numSavedLogEntries default_numLogEntries "\<lparr>json_lib = jl,
    file_iface = writer_interface fs, next_uuid = uuid, object_server = server\<rparr>" j]
  by (auto simp: safe_def keeps_def storer_inv_def daemon_env_def storer_inv_limit)

lemma decode_safe:
  assumes "34 \<le> SIZE_T_BITS cfg" "libraries_defined fs uuid server"
  shows "safe handler_ok (decodeRdeCommand cfg (daemon_env dec fs jl uuid server) cmd type)"
  using decodeRdeCommand_safe_inv [OF assms(1), of storer_inv, OF storer_safe [OF assms(2)]]
  unfolding handler_ok_def .

text \<open>The timer handler re-arms the timer from every state of the invariant.\<close>

lemma tick_total:
  assumes "34 \<le> SIZE_T_BITS cfg" "libraries_defined fs uuid server" "pci_daemon_ok cfg s"
  shows "\<exists>t. readLoop cfg (pci_interface cfg) (daemon_env dec fs jl uuid server) False s = (Inr True, t) \<and>
    pci_daemon_ok cfg t"
  by (rule pci_clip.readLoop_total [OF decode_safe]) (use assms in auto)

lemma bios_write_ok:
  "pci_daemon_ok cfg s \<Longrightarrow> d = dataInterface (bufferInterface s) \<Longrightarrow> length bytes = length (mmap d) \<Longrightarrow>
   pci_daemon_ok cfg (s\<lparr>bufferInterface := (bufferInterface s)\<lparr>dataInterface := d\<lparr>mmap := bytes\<rparr>\<rparr>\<rparr>)"
  by (simp add: daemon_ok_def buffer_ok_def pci_good_def)

lemma step_ok:
  assumes "34 \<le> SIZE_T_BITS cfg" "libraries_defined fs uuid server"
    and "daemon_step cfg (daemon_env dec fs jl uuid server) (s, a) (t, b)" "pci_daemon_ok cfg s"
  shows "pci_daemon_ok cfg t"
proof (rule daemon_stepE [OF assms(3)], goal_cases)
  case (1 err r)
  then show ?case
    using tick_total [OF assms(1,2,4), of dec jl] assms(4)
    by (cases err) (auto simp: readLoop_def returnM_def)
next
  case (2 d r bytes)
  then show ?case using bios_write_ok [OF assms(4)] by simp
qed

lemma reach_ok:
  assumes "34 \<le> SIZE_T_BITS cfg" "libraries_defined fs uuid server" "pci_daemon_ok cfg (fst a)"
    and "daemon_reach cfg (daemon_env dec fs jl uuid server) a b"
  shows "pci_daemon_ok cfg (fst b)"
  using assms(4,3)
proof (induction rule: daemon_reach.induct)
  case (step b c)
  then show ?case using step_ok [OF assms(1,2)] by (cases b; cases c) auto
qed

section \<open>Start-up\<close>

lemma main_objects_buffer_ok:
  assumes "wf_config cfg" "QUEUE_REGION_SIZE cfg \<le> MEMORY_REGION_SIZE cfg"
    "MEMORY_REGION_SIZE cfg < 2 ^ 32" "length mapped = MEMORY_REGION_SIZE cfg"
  shows "buffer_ok cfg mmap (pci_good cfg) (bufferInterface (main_objects cfg mapped f g ob))"
  using assms pci_new_good [of cfg mapped]
  by (simp add: buffer_ok_def main_objects_def BufferImpl_new_def wf_config_def PciDataHandler_new_def)

lemma main_init_ok:
  assumes cfg: "wf_config cfg" and mem: "QUEUE_REGION_SIZE cfg \<le> MEMORY_REGION_SIZE cfg"
    "MEMORY_REGION_SIZE cfg < 2 ^ 32" "length mapped = MEMORY_REGION_SIZE cfg"
  shows "\<exists>s. main_init cfg mapped f g ob = (Inr (), s) \<and> pci_daemon_ok cfg s \<and>
    in_sync mmap (bufferInterface s)"
proof -
  let ?s = "main_objects cfg mapped f g ob"
  obtain b where b: "initializeBuffer cfg (pci_interface cfg) (bufferInterface ?s) = (Inr (), b)"
    "buffer_ok cfg mmap (pci_good cfg) b" "in_sync mmap b"
    using pci_clip.initializeBuffer_ok [OF main_objects_buffer_ok [OF cfg mem, of f g ob]] by blast
  have "handler_ok (rdeCommandHandler ?s)"
    using handler_inv_new queues_ok_new
    by (simp add: handler_ok_def storer_inv_def main_objects_def RdeCommandHandler_new_def
      ExternalStorerFileInterface_new_def limits_def handler_inv_def queues_ok_def
      dm.inv_new)
  then show ?thesis
    using b by (auto simp: main_init_def bufM_def memberM_def daemon_ok_def)
qed

end
