(* ===== verification/QueueProducer.thy ===== *)
theory QueueProducer
  imports BufferSpec
begin

text \<open>
  The other side of the queue. What the BIOS does when it appends an entry, raises the overflow
  flag or leaves a UE log is a contract between the region before and after the write; the lemmas
  show what the write does to the queue's contents, and that the contract can always be met while
  there is room.
\<close>

section \<open>Writing around the ring\<close>

text \<open>
  \<open>ring_write r pos bs\<close> puts \<open>bs\<close> into the ring from \<open>pos\<close> on: position \<open>i\<close> is
  \<open>i - pos\<close> (modulo the size) bytes behind the start of the write.
\<close>

definition ring_write :: "'a list \<Rightarrow> nat \<Rightarrow> 'a list \<Rightarrow> 'a list" where
  "ring_write r pos bs =
     map (\<lambda>i. let k = (i + length r - pos) mod length r in if k < length bs then bs ! k else r ! i)
       [0..<length r]"

lemma ring_write_length [simp]: "length (ring_write r pos bs) = length r"
  by (simp add: ring_write_def)

lemma ring_write_nth:
  "i < length r \<Longrightarrow> ring_write r pos bs ! i =
    (if (i + length r - pos) mod length r < length bs then bs ! ((i + length r - pos) mod length r)
     else r ! i)"
  by (simp add: ring_write_def Let_def)

lemma ring_distance:
  fixes m pos j :: nat
  assumes "pos < m" "j < m"
  shows "((pos + j) mod m + m - pos) mod m = j"
proof (cases "pos + j < m")
  case False
  then have "(pos + j) mod m = pos + j - m" using assms by (simp add: le_mod_geq)
  then show ?thesis using assms False by simp
qed (use assms in simp)

lemma ring_distance_back:
  fixes m i k :: nat
  assumes "i < m" "0 < k" "k \<le> m"
  shows "(i + m - (i + k) mod m) mod m = m - k"
proof (cases "i + k < m")
  case True
  then show ?thesis using assms by simp
next
  case False
  then have "(i + k) mod m = i + k - m" using assms by (simp add: le_mod_geq)
  then have "i + m - (i + k) mod m = m - k + m" using assms False by simp
  then show ?thesis using assms by (simp only: mod_add_self2) simp
qed

lemma ring_read_write_same:
  assumes "pos < length r" "length bs \<le> length r"
  shows "ring_read (ring_write r pos bs) pos (length bs) = bs"
proof (rule nth_equalityI)
  fix j assume "j < length (ring_read (ring_write r pos bs) pos (length bs))"
  then have j: "j < length bs" by simp
  then have "(pos + j) mod length r < length r" using assms by (intro mod_less_divisor) auto
  then show "ring_read (ring_write r pos bs) pos (length bs) ! j = bs ! j"
    using j assms ring_distance [of pos "length r" j] by (simp add: ring_read_nth ring_write_nth)
qed simp

text \<open>The stretch that ends where the write starts is left alone, if both fit the ring.\<close>

lemma ring_read_write_before:
  assumes q: "q < length r" and pos: "(q + n) mod length r = pos" and fits: "n + length bs \<le> length r"
  shows "ring_read (ring_write r pos bs) q n = ring_read r q n"
proof (rule nth_equalityI)
  let ?m = "length r"
  fix j assume "j < length (ring_read (ring_write r pos bs) q n)"
  then have j: "j < n" by simp
  let ?i = "(q + j) mod ?m"
  have m: "0 < ?m" using q by linarith
  then have "pos < ?m" using mod_less_divisor [of ?m "q + n"] pos by blast
  note m = m this
  have i: "?i < ?m" using m by simp
  have "(?i + (n - j)) mod ?m = (q + j + (n - j)) mod ?m" by (rule mod_add_left_eq)
  then have "pos = (?i + (n - j)) mod ?m" using pos j by simp
  then have "(?i + ?m - pos) mod ?m = ?m - (n - j)"
    using ring_distance_back [of ?i ?m "n - j"] i j fits by simp
  then have "\<not> (?i + ?m - pos) mod ?m < length bs" using fits j by simp
  then show "ring_read (ring_write r pos bs) q n ! j = ring_read r q n ! j"
    using i j by (simp add: ring_read_nth ring_write_nth)
qed simp

section \<open>The contract\<close>

text \<open>
  Appending: there is room for the entry and one byte more (equal pointers mean empty), the bytes
  between the pointers stay, the entry's bytes start at the old write pointer, and the write pointer
  moves behind them. Nothing else of the header changes, nor the UE region.
\<close>

definition appended :: "config \<Rightarrow> EntryPair \<Rightarrow> bytes \<Rightarrow> bytes \<Rightarrow> bool" where
  "appended cfg ep r r' \<longleftrightarrow>
     (let h = header_of_bytes r; m = max_offset cfg;
          wp = unat (biosWritePtr h); rp = unat (bmcReadPtr h); used = ring_used m rp wp
      in length r' = length r \<and> valid_entry m ep \<and> used + entry_length ep < m \<and>
         header_of_bytes r' = h\<lparr>biosWritePtr := word_of_nat ((wp + entry_length ep) mod m)\<rparr> \<and>
         ring_read (queue_ring cfg r') rp used = ring_read (queue_ring cfg r) rp used \<and>
         ring_read (queue_ring cfg r') wp (entry_length ep) = entry_bytes ep \<and>
         ue_log r' = ue_log r)"

text \<open>Toggling the overflow flag.\<close>

definition overflow_raised :: "config \<Rightarrow> bytes \<Rightarrow> bytes \<Rightarrow> bool" where
  "overflow_raised cfg r r' \<longleftrightarrow>
     (let h = header_of_bytes r
      in length r' = length r \<and> header_of_bytes r' = h\<lparr>biosFlags := flip_bit 1 (biosFlags h)\<rparr> \<and>
         queue_ring cfg r' = queue_ring cfg r \<and> ue_log r' = ue_log r)"

text \<open>A new UE log, left only when the last one has been taken.\<close>

definition ue_left :: "config \<Rightarrow> bytes \<Rightarrow> bytes \<Rightarrow> bytes \<Rightarrow> bool" where
  "ue_left cfg log r r' \<longleftrightarrow>
     (let h = header_of_bytes r
      in length r' = length r \<and> \<not> ue_pending h \<and> ueRegionSize h \<noteq> 0 \<and>
         header_of_bytes r' = h\<lparr>biosFlags := flip_bit 0 (biosFlags h)\<rparr> \<and>
         queue_ring cfg r' = queue_ring cfg r \<and> ue_log r' = log)"

section \<open>Effect on the contents\<close>

lemma ring_used_advance:
  assumes "rp < m" "wp < m" "ring_used m rp wp + n < m"
  shows "ring_used m rp ((wp + n) mod m) = ring_used m rp wp + n"
proof (cases "wp + n < m")
  case False
  then have "(wp + n) mod m = wp + n - m" using assms by (simp add: ring_used_def le_mod_geq split: if_splits)
  then show ?thesis using False assms by (auto simp: ring_used_def)
qed (use assms in \<open>auto simp: ring_used_def\<close>)

lemma queue_holds_appended:
  assumes cfg: "wf_config cfg" "QUEUE_REGION_SIZE cfg \<le> length r"
    and holds: "queue_holds cfg r es" and app: "appended cfg ep r r'"
  shows "queue_holds cfg r' (es @ [ep])"
proof -
  define m where "m = max_offset cfg"
  define rp where "rp = unat (bmcReadPtr (header_of_bytes r))"
  define wp where "wp = unat (biosWritePtr (header_of_bytes r))"
  note g = geometry [OF cfg(1)]
  note h = holds [unfolded queue_holds_def Let_def, folded m_def rp_def wp_def]
  note a = app [unfolded appended_def Let_def, folded m_def rp_def wp_def]
  let ?n = "entry_length ep" and ?u = "ring_used m rp wp"
  have wp': "unat (word_of_nat ((wp + ?n) mod m) :: u24) = (wp + ?n) mod m"
    by (rule unat_word_of_nat_lt, rule order.strict_trans2 [of _ m])
      (use g h in \<open>simp_all add: m_def\<close>)
  have len: "length (queue_ring cfg r') = m"
    using queue_ring_length [of cfg r'] cfg a by (simp add: m_def)
  have pos: "(rp + ?u) mod m = wp" using h ring_used_add by blast
  have u: "ring_used m rp ((wp + ?n) mod m) = ?u + ?n"
    using h a ring_used_advance by blast
  have "ring_read (queue_ring cfg r') (rp + ?u) ?n = entry_bytes ep"
    using a ring_read_mod [of "queue_ring cfg r'" "rp + ?u" ?n] by (simp add: len pos)
  then have "ring_read (queue_ring cfg r') rp (?u + ?n) = concat (map entry_bytes (es @ [ep]))"
    using h a by (simp add: ring_read_append)
  then show ?thesis
    using h a u by (auto simp: queue_holds_def Let_def header_ok_def wp' simp flip: m_def rp_def wp_def)
qed

lemma queue_holds_overflow:
  "overflow_raised cfg r r' \<Longrightarrow> queue_holds cfg r' es = queue_holds cfg r es"
  by (simp add: overflow_raised_def queue_holds_def Let_def header_ok_def)

lemma queue_holds_ue:
  "ue_left cfg log r r' \<Longrightarrow> queue_holds cfg r' es = queue_holds cfg r es"
  by (simp add: ue_left_def queue_holds_def Let_def header_ok_def)

section \<open>The contract can be met\<close>

text \<open>One way to append: the entry around the ring, then the write pointer in the header.\<close>

definition append_bytes :: "config \<Rightarrow> EntryPair \<Rightarrow> bytes \<Rightarrow> bytes" where
  "append_bytes cfg ep r =
     (let wp = unat (biosWritePtr (header_of_bytes r));
          nxt = (word_of_nat ((wp + entry_length ep) mod max_offset cfg) :: u24)
      in overwrite (overwrite r (queue_offset cfg) (ring_write (queue_ring cfg r) wp (entry_bytes ep)))
           0x2c (le_bytes 3 nxt))"

lemma header_store_write_ptr:
  "48 \<le> length r \<Longrightarrow>
   header_of_bytes (overwrite r 0x2c (le_bytes 3 p)) = (header_of_bytes r)\<lparr>biosWritePtr := p\<rparr>"
  by (simp add: header_of_bytes_def int_at_def slice_simps le_word_le_bytes overwrite_nth)

lemma header_store_behind:
  assumes "48 \<le> off" "off + length bs \<le> length r"
  shows "header_of_bytes (overwrite r off bs) = header_of_bytes r"
proof -
  have "slice 0 48 (overwrite r off bs) = slice 0 48 r" using assms by (simp add: slice_overwrite_before)
  then show ?thesis
    using assms header_of_region [of r] header_of_region [of "overwrite r off bs"] by simp
qed

lemma append_bytes_appends:
  assumes cfg: "wf_config cfg" "QUEUE_REGION_SIZE cfg \<le> length r"
    and holds: "queue_holds cfg r es" and valid: "valid_entry (max_offset cfg) ep"
    and room: "total_length (es @ [ep]) < max_offset cfg"
  shows "appended cfg ep r (append_bytes cfg ep r)"
proof -
  define m where "m = max_offset cfg"
  define rp where "rp = unat (bmcReadPtr (header_of_bytes r))"
  define wp where "wp = unat (biosWritePtr (header_of_bytes r))"
  define nxt :: u24 where "nxt = word_of_nat ((wp + entry_length ep) mod m)"
  note g = geometry [OF cfg(1)]
  note h = holds [unfolded queue_holds_def Let_def, folded m_def rp_def wp_def]
  let ?w = "ring_write (queue_ring cfg r) wp (entry_bytes ep)"
  let ?r1 = "overwrite r (queue_offset cfg) ?w"
  let ?r2 = "overwrite ?r1 0x2c (le_bytes 3 nxt)"
  have len: "length (queue_ring cfg r) = m" using queue_ring_length [OF cfg] by (simp add: m_def)
  have fits: "queue_offset cfg + length ?w \<le> length r" using g cfg(2) by (simp add: len m_def)
  have len1: "length ?r1 = length r" using fits by simp
  have q1: "queue_ring cfg ?r1 = ?w"
    by (subst queue_ring_def, rule slice_overwrite_same) (use fits in \<open>simp_all add: len m_def\<close>)
  have q2: "queue_ring cfg ?r2 = ?w"
    using cfg len1 q1 by (simp add: queue_ring_header_store)
  have h1: "header_of_bytes ?r1 = header_of_bytes r" using header_store_behind g fits by blast
  have h2: "header_of_bytes ?r2 = (header_of_bytes r)\<lparr>biosWritePtr := nxt\<rparr>"
    using header_store_write_ptr [of ?r1 nxt] len1 h1 g cfg(2) by simp
  have ue: "ue_log ?r2 = ue_log r"
  proof -
    have "48 + unat (ueRegionSize (header_of_bytes r)) = queue_offset cfg"
      using h by (simp add: header_ok_def queue_offset_def)
    then show ?thesis
      using g cfg(2) fits len1 unfolding ue_log_def h2
      by (simp add: slice_overwrite_before slice_overwrite_after)
  qed
  have pos: "(rp + ring_used m rp wp) mod m = wp" using h ring_used_add by blast
  have used: "ring_used m rp wp + entry_length ep < m" using room h by (simp add: m_def)
  have "ring_read ?w rp (ring_used m rp wp) = ring_read (queue_ring cfg r) rp (ring_used m rp wp)"
    by (rule ring_read_write_before) (use h pos used in \<open>simp_all add: len\<close>)
  moreover have "ring_read ?w wp (entry_length ep) = entry_bytes ep"
    using ring_read_write_same [of wp "queue_ring cfg r" "entry_bytes ep"] h used by (simp add: len)
  moreover have "length ?r2 = length r" using len1 g cfg(2) by simp
  moreover have "append_bytes cfg ep r = ?r2" by (simp only: append_bytes_def Let_def m_def wp_def nxt_def)
  ultimately show ?thesis
    using valid used h2 ue by (simp add: appended_def Let_def q2 flip: m_def rp_def wp_def nxt_def)
qed

end
