(* ===== verification/Session.thy ===== *)
theory Session
  imports DaemonInvariant QueueProducer
begin

text \<open>
  BIOS and BMC together. Seen from outside, the region with the daemon behind it is a channel: a
  UE log and a queue of entries that the BIOS fills and a tick of the timer empties into the
  command handler. \<open>channel\<close> is that abstract view, \<open>session\<close> the concrete one: the
  daemon's own timer handler, and BIOS writes that meet the contract of \<open>QueueProducer\<close>.
  The simulation between them is proved by rule induction.
\<close>

section \<open>The channel\<close>

datatype event = Append EntryPair | RaiseOverflow | LeaveUe bytes | Tick

datatype delivery = UeLog bytes | Entry EntryPair

text \<open>The state: the UE log not yet taken, the entries not yet taken, everything taken so far.\<close>

type_synonym channel_state = "bytes option \<times> EntryPair list \<times> delivery list"

fun channel_step :: "channel_state \<Rightarrow> event \<Rightarrow> channel_state" where
  "channel_step (u, q, d) (Append ep) = (u, q @ [ep], d)"
| "channel_step (u, q, d) RaiseOverflow = (u, q, d)"
| "channel_step (u, q, d) (LeaveUe log) = (Some log, q, d)"
| "channel_step (u, q, d) Tick =
     (None, [], d @ (case u of None \<Rightarrow> [] | Some log \<Rightarrow> [UeLog log]) @ map Entry q)"

definition channel :: "event list \<Rightarrow> channel_state" where
  "channel evs = foldl channel_step (None, [], []) evs"

lemma channel_Nil [simp]: "channel [] = (None, [], [])"
  by (simp add: channel_def)

lemma channel_snoc [simp]: "channel (evs @ [e]) = channel_step (channel evs) e"
  by (simp add: channel_def)

text \<open>The channel neither loses, repeats nor reorders: what went in is what came out and what is left.\<close>

fun sent_entries :: "event list \<Rightarrow> EntryPair list" where
  "sent_entries [] = []"
| "sent_entries (Append ep # evs) = ep # sent_entries evs"
| "sent_entries (_ # evs) = sent_entries evs"

fun taken_entries :: "delivery list \<Rightarrow> EntryPair list" where
  "taken_entries [] = []"
| "taken_entries (Entry ep # ds) = ep # taken_entries ds"
| "taken_entries (UeLog log # ds) = taken_entries ds"

lemma sent_entries_append [simp]: "sent_entries (a @ b) = sent_entries a @ sent_entries b"
  by (induction a rule: sent_entries.induct) auto

lemma taken_entries_append [simp]: "taken_entries (a @ b) = taken_entries a @ taken_entries b"
  by (induction a rule: taken_entries.induct) auto

lemma taken_entries_Entry [simp]: "taken_entries (map Entry q) = q"
  by (induction q) auto

lemma channel_conserves: "channel evs = (u, q, d) \<Longrightarrow> taken_entries d @ q = sent_entries evs"
proof (induction evs arbitrary: u q d rule: rev_induct)
  case (snoc e evs)
  obtain u' q' d' where c: "channel evs = (u', q', d')" by (metis prod_cases3)
  show ?case using snoc.IH [OF c] snoc.prems by (cases e) (auto simp: c split: option.splits)
qed simp

section \<open>The consumer\<close>

text \<open>What the command handler does with deliveries; a UE log must decode, as the read loop demands.\<close>

fun deliver :: "config \<Rightarrow> 'x RdeEnv \<Rightarrow> delivery list \<Rightarrow> ('x RdeCommandHandler, unit) prog" where
  "deliver cfg env [] = returnM ()"
| "deliver cfg env (UeLog log # ds) =
     bindM (decodeRdeCommand cfg env log RdeOperationInitRequest) (\<lambda>st.
     if st = RdeOk then deliver cfg env ds else throwM (UeLogCorrupt (status_code st)))"
| "deliver cfg env (Entry (h, e) # ds) =
     bindM (decodeRdeCommand cfg env e (rdeCommandType h)) (\<lambda>_. deliver cfg env ds)"

lemma deliver_append:
  "deliver cfg env (a @ b) x = bindM (deliver cfg env a) (\<lambda>_. deliver cfg env b) x"
proof (induction a arbitrary: x)
  case (Cons y a)
  then show ?case
    by (cases y) (auto simp: bindM_def throwM_def split: sum.splits prod.splits)
qed (simp add: bindM_def returnM_def)

lemma deliver_Entries:
  "deliver cfg env (map Entry es) x = (Inr (), y) \<Longrightarrow> \<exists>sts. decode_entries cfg env es x = (Inr sts, y)"
proof (induction es arbitrary: x)
  case (Cons e es)
  obtain h d where "e = (h, d)" by fastforce
  then show ?case
    using Cons.prems by (auto simp: prog_invert dest!: Cons.IH)
qed (simp add: returnM_def)

section \<open>The concrete run\<close>

definition daemon_region :: "(PciDataHandler, 'x) Daemon \<Rightarrow> bytes" where
  "daemon_region s = mmap (dataInterface (bufferInterface s))"

definition bios_writes :: "bytes \<Rightarrow> (PciDataHandler, 'x) Daemon \<Rightarrow> (PciDataHandler, 'x) Daemon" where
  "bios_writes r s =
     s\<lparr>bufferInterface := (bufferInterface s)\<lparr>dataInterface := (dataInterface (bufferInterface s))\<lparr>mmap := r\<rparr>\<rparr>\<rparr>"

text \<open>The write that goes with an event, before and after.\<close>

fun bios_event :: "config \<Rightarrow> event \<Rightarrow> bytes \<Rightarrow> bytes \<Rightarrow> bool" where
  "bios_event cfg (Append ep) r r' = appended cfg ep r r'"
| "bios_event cfg RaiseOverflow r r' = overflow_raised cfg r r'"
| "bios_event cfg (LeaveUe log) r r' = ue_left cfg log r r'"
| "bios_event cfg Tick r r' = False"

inductive session ::
  "config \<Rightarrow> 'x RdeEnv \<Rightarrow> (PciDataHandler, 'x) Daemon \<Rightarrow> event list \<Rightarrow> (PciDataHandler, 'x) Daemon \<Rightarrow> bool"
  for cfg env s0 where
  start: "session cfg env s0 [] s0"
| bios: "session cfg env s0 evs s \<Longrightarrow> bios_event cfg e (daemon_region s) r \<Longrightarrow>
    session cfg env s0 (evs @ [e]) (bios_writes r s)"
| tick: "session cfg env s0 evs s \<Longrightarrow> readLoop cfg (pci_interface cfg) env False s = (Inr armed, t) \<Longrightarrow>
    session cfg env s0 (evs @ [Tick]) t"

text \<open>The relation between the two: the region holds exactly what the channel has not given away.\<close>

definition shows_channel :: "config \<Rightarrow> bytes \<Rightarrow> bytes option \<Rightarrow> EntryPair list \<Rightarrow> bool" where
  "shows_channel cfg r u q \<longleftrightarrow> queue_holds cfg r q \<and>
     (case u of None \<Rightarrow> \<not> ue_pending (header_of_bytes r)
      | Some log \<Rightarrow> ue_pending (header_of_bytes r) \<and> ue_log r = log)"

section \<open>The simulation\<close>

lemma shows_appended:
  "wf_config cfg \<Longrightarrow> QUEUE_REGION_SIZE cfg \<le> length r \<Longrightarrow> shows_channel cfg r u q \<Longrightarrow>
   appended cfg ep r r' \<Longrightarrow> shows_channel cfg r' u (q @ [ep])"
  using queue_holds_appended [of cfg r q ep r']
  by (auto simp: shows_channel_def appended_def Let_def ue_pending_def split: option.splits)

lemma shows_overflow:
  "shows_channel cfg r u q \<Longrightarrow> overflow_raised cfg r r' \<Longrightarrow> shows_channel cfg r' u q"
  using queue_holds_overflow [of cfg r r' q]
  by (auto simp: shows_channel_def overflow_raised_def Let_def ue_pending_def bit_flip_bit_iff
    split: option.splits)

lemma shows_ue:
  "shows_channel cfg r u q \<Longrightarrow> ue_left cfg log r r' \<Longrightarrow> shows_channel cfg r' (Some log) q"
  using queue_holds_ue [of cfg log r r' q]
  by (auto simp: shows_channel_def ue_left_def Let_def ue_pending_def bit_flip_bit_iff)

lemma shows_bios:
  assumes "wf_config cfg" "QUEUE_REGION_SIZE cfg \<le> length r" "shows_channel cfg r u q"
    and "bios_event cfg e r r'" "channel_step (u, q, d) e = (u', q', d')"
  shows "shows_channel cfg r' u' q' \<and> d' = d \<and> length r' = length r"
proof (cases e)
  case (Append ep)
  then show ?thesis
    using assms shows_appended [OF assms(1-3), of ep r'] by (auto simp: appended_def Let_def)
next
  case RaiseOverflow
  then show ?thesis
    using assms shows_overflow [OF assms(3), of r'] by (auto simp: overflow_raised_def Let_def)
next
  case (LeaveUe log)
  then show ?thesis using assms shows_ue [OF assms(3), of log r'] by (auto simp: ue_left_def Let_def)
qed (use assms in simp)

lemma answered_takes_ue:
  "\<not> ue_pending (h\<lparr>bmcFlags := answered h sts, bmcReadPtr := p\<rparr>)"
  by (auto simp: ue_pending_def answered_def ready_after_def Let_def bit_flip_bit_iff bit_or_iff
    flag_ready_def bit_push_bit_iff)

lemma queue_holds_caught_up:
  assumes "queue_holds cfg r es" "header_of_bytes r' =
    (header_of_bytes r)\<lparr>bmcFlags := f, bmcReadPtr := biosWritePtr (header_of_bytes r)\<rparr>"
  shows "queue_holds cfg r' []"
  using assms by (simp add: queue_holds_def Let_def header_ok_def ring_used_def)

lemma shows_tick:
  assumes ok: "buffer_ok cfg mmap (pci_good cfg) (bufferInterface s)"
    and shows_s: "shows_channel cfg (daemon_region s) u q"
    and del: "deliver cfg env ((case u of None \<Rightarrow> [] | Some log \<Rightarrow> [UeLog log]) @ map Entry q)
      (rdeCommandHandler s) = (Inr (), y)"
  shows "\<exists>t. readLoop cfg (pci_interface cfg) env False s = (Inr True, t) \<and>
    rdeCommandHandler t = y \<and> buffer_ok cfg mmap (pci_good cfg) (bufferInterface t) \<and>
    shows_channel cfg (daemon_region t) None []"
proof -
  let ?r = "daemon_region s"
  let ?h = "header_of_bytes ?r"
  have holds: "queue_holds cfg ?r q" using shows_s by (simp add: shows_channel_def)
  obtain x where x: "deliver cfg env (case u of None \<Rightarrow> [] | Some log \<Rightarrow> [UeLog log])
      (rdeCommandHandler s) = (Inr (), x)" "deliver cfg env (map Entry q) x = (Inr (), y)"
    using del by (auto simp: deliver_append prog_invert)
  obtain sts where sts: "decode_entries cfg env q x = (Inr sts, y)" using deliver_Entries x(2) by blast
  have "if ue_pending ?h
      then decodeRdeCommand cfg env (ue_log ?r) RdeOperationInitRequest (rdeCommandHandler s) = (Inr RdeOk, x)
      else x = rdeCommandHandler s"
    using x(1) shows_s
    by (cases u) (auto simp: shows_channel_def returnM_def throwM_def prog_invert split: if_splits)
  from pci_clip.readLoop_tick [OF ok, folded daemon_region_def, OF holds _ sts] this
  obtain t where t: "readLoop cfg (pci_interface cfg) env False s = (Inr True, t)" "rdeCommandHandler t = y"
    and b: "becomes cfg mmap (pci_good cfg) (bufferInterface s)
      (?h\<lparr>bmcFlags := answered ?h sts, bmcReadPtr := biosWritePtr ?h\<rparr>) (bufferInterface t)"
    by (auto simp: region_header_def daemon_region_def)
  have "header_of_bytes (daemon_region t) =
      ?h\<lparr>bmcFlags := answered ?h sts, bmcReadPtr := biosWritePtr ?h\<rparr>"
    using b by (simp add: becomes_def region_header_def daemon_region_def)
  then have "shows_channel cfg (daemon_region t) None []"
    using queue_holds_caught_up [OF holds] answered_takes_ue by (simp add: shows_channel_def)
  then show ?thesis using t b by (auto simp: becomes_def)
qed

lemma bios_writes_simps [simp]:
  "daemon_region (bios_writes r s) = r" "rdeCommandHandler (bios_writes r s) = rdeCommandHandler s"
  by (simp_all add: daemon_region_def bios_writes_def)

lemma buffer_ok_bios_writes:
  "buffer_ok cfg mmap (pci_good cfg) (bufferInterface s) \<Longrightarrow> length r = length (daemon_region s) \<Longrightarrow>
   buffer_ok cfg mmap (pci_good cfg) (bufferInterface (bios_writes r s))"
  by (simp add: buffer_ok_def pci_good_def bios_writes_def daemon_region_def)

lemma session_shows:
  assumes "session cfg env s0 evs s"
    and start: "buffer_ok cfg mmap (pci_good cfg) (bufferInterface s0)"
      "shows_channel cfg (daemon_region s0) None []"
    and "channel evs = (u, q, d)" "deliver cfg env d (rdeCommandHandler s0) = (Inr (), y)"
  shows "rdeCommandHandler s = y \<and> buffer_ok cfg mmap (pci_good cfg) (bufferInterface s) \<and>
    shows_channel cfg (daemon_region s) u q"
  using assms(1,4,5)
proof (induction arbitrary: u q d y rule: session.induct)
  case start
  then show ?case using assms(2,3) by (simp add: returnM_def)
next
  case (bios evs s e r)
  obtain u' q' d' where c: "channel evs = (u', q', d')" by (metis prod_cases3)
  have step: "channel_step (u', q', d') e = (u, q, d)" using bios.prems(1) c by simp
  have "d = d'" using step bios.hyps(2) by (cases e) auto
  from bios.IH [OF c bios.prems(2) [unfolded this]] have IH: "rdeCommandHandler s = y"
    "buffer_ok cfg mmap (pci_good cfg) (bufferInterface s)" "shows_channel cfg (daemon_region s) u' q'"
    by simp_all
  then have "wf_config cfg" "QUEUE_REGION_SIZE cfg \<le> length (daemon_region s)"
    by (simp_all add: buffer_ok_def daemon_region_def)
  from shows_bios [OF this IH(3) bios.hyps(2) step] show ?case
    using IH buffer_ok_bios_writes [OF IH(2)] by simp
next
  case (tick evs s armed t)
  obtain u' q' d' where c: "channel evs = (u', q', d')" by (metis prod_cases3)
  then have d: "d = d' @ (case u' of None \<Rightarrow> [] | Some log \<Rightarrow> [UeLog log]) @ map Entry q'"
    and uq: "u = None" "q = []" using tick.prems(1) by auto
  obtain x where x: "deliver cfg env d' (rdeCommandHandler s0) = (Inr (), x)"
    "deliver cfg env ((case u' of None \<Rightarrow> [] | Some log \<Rightarrow> [UeLog log]) @ map Entry q') x = (Inr (), y)"
    using tick.prems(2) unfolding d deliver_append [of cfg env d'] by (auto simp: bindM_eq_Inr)
  from tick.IH [OF c x(1)] x(2) show ?case
    using shows_tick [of cfg s u' q' env y] tick.hyps(2) uq by auto
qed

section \<open>Start-up\<close>

lemma main_init_shows:
  fixes f :: 'f and g :: 'g and ob :: 'o and mapped :: bytes
  assumes cfg: "wf_config cfg" and mem: "QUEUE_REGION_SIZE cfg \<le> MEMORY_REGION_SIZE cfg"
    "MEMORY_REGION_SIZE cfg < 2 ^ 32" "length mapped = MEMORY_REGION_SIZE cfg"
  defines "s \<equiv> snd (main_init cfg mapped f g ob)"
  shows "buffer_ok cfg mmap (pci_good cfg) (bufferInterface s)"
    and "shows_channel cfg (daemon_region s) None []"
    and "rdeCommandHandler s = rdeCommandHandler (main_objects cfg mapped f g ob)"
proof -
  let ?s = "main_objects cfg mapped f g ob"
  let ?h = "init_header (bmcInterfaceVersion_const cfg) (queueSize_const cfg)
    (ueRegionSize_const cfg) (magicNumber_const cfg)"
  obtain b where b: "initializeBuffer cfg (pci_interface cfg) (bufferInterface ?s) = (Inr (), b)"
    "buffer_ok cfg mmap (pci_good cfg) b" "in_sync mmap b" "cachedBufferHeader b = ?h" "header_ok cfg ?h"
    using pci_clip.initializeBuffer_ok [OF main_objects_buffer_ok [OF cfg mem, of f g ob]] by blast
  have s: "s = ?s\<lparr>bufferInterface := b\<rparr>"
    using b(1) by (simp add: s_def main_init_def bufM_def memberM_def)
  have "header_of_bytes (daemon_region s) = ?h"
    using b(3,4) by (simp add: s in_sync_def daemon_region_def)
  then have "queue_holds cfg (daemon_region s) []" "\<not> ue_pending (header_of_bytes (daemon_region s))"
    using b(5) geometry [OF cfg]
    by (simp_all add: queue_holds_def Let_def ring_used_def init_header_def zero_header_def ue_pending_def)
  then show "shows_channel cfg (daemon_region s) None []" by (simp add: shows_channel_def)
  show "buffer_ok cfg mmap (pci_good cfg) (bufferInterface s)"
    "rdeCommandHandler s = rdeCommandHandler ?s" using b(2) by (simp_all add: s)
qed

end
