(* ===== verification/Examples.thy ===== *)
theory Examples
  imports DaemonInvariant
begin

text \<open>
  Concrete inputs for the witnesses: a small configuration, a region whose queue holds one entry
  that goes around the end of the ring (a one-message dictionary transfer), and libraries that do
  the simplest thing their documentation allows.
\<close>

section \<open>Buffer\<close>

definition ex_cfg :: config where
  "ex_cfg = \<lparr>SIZE_T_BITS = 64, READ_INTERVAL_MS = 10, MEMORY_REGION_SIZE = 96,
     MEMORY_REGION_OFFSET = 0, BMC_INTERFACE_VERSION = 0, QUEUE_REGION_SIZE = 80,
     UE_REGION_SIZE = 8, MAGIC_NUMBER = (1, 2, 3, 4)\<rparr>"

definition ex_message :: bytes where
  "ex_message = multi_message RdeMRecFlagStartAndEnd 1 [0xAB] (le_bytes 4 (crc32 [0xAB]))"

definition ex_entry :: EntryPair where
  "ex_entry = (\<lparr>sequenceId = 1, entrySize = 15, checksum = 74, rdeCommandType = 1\<rparr>, ex_message)"

text \<open>The queue is a ring of 24 bytes; the entry starts at 10 and ends at 7.\<close>

definition ex_header :: CircularBufferHeader where
  "ex_header = (init_header 0 80 8 (1, 2, 3, 4))\<lparr>biosWritePtr := 7, bmcReadPtr := 10\<rparr>"

definition ex_region :: bytes where
  "ex_region = header_to_bytes ex_header @ replicate 8 0 @
     drop 14 (entry_bytes ex_entry) @ replicate 3 0 @ take 14 (entry_bytes ex_entry) @ replicate 16 0"

definition ex_pci :: PciDataHandler where
  "ex_pci = PciDataHandler_new 96 ex_region"

definition ex_buffer :: "PciDataHandler BufferImpl" where
  "ex_buffer = BufferImpl_new ex_pci"

section \<open>Libraries\<close>

text \<open>A file system on which everything succeeds, with a counter of the calls as its state.\<close>

definition ex_fs :: "(nat, 'j) FileSystem" where
  "ex_fs = \<lparr>fs_is_directory = (\<lambda>p. returnM False), fs_create_directories = (\<lambda>p n. (Inr True, n + 1)),
     fs_write_file = (\<lambda>p j n. (Inr (), n + 1)), fs_remove_all = (\<lambda>p n. (Inr False, n + 1))\<rparr>"

definition ex_uuid :: "(nat, string) prog" where
  "ex_uuid n = (Inr (decimal n), n + 1)"

definition ex_server :: "(string list, string) ObjectServer" where
  "ex_server = \<lparr>add_interface = (\<lambda>p i s. (Inr p, s @ [p])), register_property = (\<lambda>h n v. returnM ()),
     iface_initialize = (\<lambda>h. returnM ()), remove_interface = (\<lambda>h s. List.removeAll h s)\<rparr>"

text \<open>JSON objects of string members as association lists; two texts that parse.\<close>

definition ex_json :: "(string \<times> string) list JsonLib" where
  "ex_json = \<lparr>json_parse = (\<lambda>s.
       if s = ''entry'' then Parsed [(''@odata.type'', ''#LogEntry.v1'')]
       else if s = ''service'' then Parsed [(''@odata.type'', ''#LogService.v1''), (''Id'', ''S''),
         (''@odata.id'', ''/redfish/v1/S'')]
       else ParseError),
     json_contains = (\<lambda>j k. map_of j k \<noteq> None), json_get_string = map_of,
     json_set_string = (\<lambda>k v j. (k, v) # filter (\<lambda>(l, _). l \<noteq> k) j),
     json_erase = (\<lambda>k j. filter (\<lambda>(l, _). l \<noteq> k) j), json_empty = []\<rparr>"

definition ex_decode :: "BejDictionaries \<Rightarrow> bytes \<Rightarrow> int \<times> string" where
  "ex_decode ds bs = (0, ''entry'')"

definition ex_env :: "(nat, nat, string list) Storer RdeEnv" where
  "ex_env = daemon_env ex_decode ex_fs ex_json ex_uuid ex_server"

definition ex_handler :: "(nat, nat, string list) Storer RdeCommandHandler" where
  "ex_handler = rdeCommandHandler (main_objects ex_cfg [] 0 0 [])"

definition ex_daemon :: "(PciDataHandler, (nat, nat, string list) Storer) Daemon" where
  "ex_daemon = \<lparr>bufferInterface = ex_buffer, rdeCommandHandler = ex_handler\<rparr>"

section \<open>Facts about them\<close>

lemma ex_libraries: "libraries_defined (ex_fs :: (nat, (string \<times> string) list) FileSystem) ex_uuid ex_server"
  by (simp add: libraries_defined_def ex_fs_def ex_server_def defined_def ex_uuid_def returnM_def)

lemma ex_wf: "wf_config ex_cfg"
  by (simp add: wf_config_def ex_cfg_def)

lemma ex_message_bytes: "ex_message = [0, 3, 1, 0, 0, 0, 1, 0, 0, 0, 171, 237, 149, 6, 147]"
  by code_simp

lemma ex_holds: "queue_holds ex_cfg ex_region [ex_entry]"
  by code_simp

lemma ex_region_length: "length ex_region = 96"
  by code_simp

lemma ex_pci_good: "pci_good ex_cfg ex_pci" "mmap ex_pci = ex_region"
  using ex_region_length by (simp_all add: pci_good_def ex_pci_def PciDataHandler_new_def ex_cfg_def)

lemma ex_buffer_ok: "buffer_ok ex_cfg mmap (pci_good ex_cfg) ex_buffer"
  using ex_wf ex_pci_good ex_region_length
  by (simp add: buffer_ok_def ex_buffer_def BufferImpl_new_def) (simp add: ex_cfg_def)

lemma ex_buffer_region: "mmap (dataInterface ex_buffer) = ex_region"
  by (simp add: ex_buffer_def BufferImpl_new_def ex_pci_good)

lemma ex_handler_ok: "handler_ok ex_handler"
  by (simp add: handler_ok_def storer_inv_def ex_handler_def main_objects_def RdeCommandHandler_new_def
      ExternalStorerFileInterface_new_def limits_def handler_inv_def queues_ok_def dm.inv_new)

lemma ex_daemon_ok: "pci_daemon_ok ex_cfg ex_daemon"
  by (simp add: daemon_ok_def ex_daemon_def ex_buffer_ok ex_handler_ok)

lemma ex_region_header: "header_of_bytes ex_region = ex_header"
proof -
  have "slice 0 48 ex_region = header_to_bytes ex_header"
    by (simp add: ex_region_def slice_append_left header_size_def)
  then show ?thesis
    using header_of_region [of ex_region] ex_region_length by (simp add: header_of_to_bytes)
qed

end
