(* ===== verification/BufferProperties.thy ===== *)
theory BufferProperties
  imports Examples
begin

text \<open>
  The properties of the circular buffer, its data layout and the PCI handler below it.
\<close>

section \<open>Reading the queue\<close>

text \<open>
  C6: When the queue of the region holds the entries \<open>es\<close> (each well formed, between the read
  and the write pointer, possibly going around the end), \<open>readErrorLogs\<close> over the PCI handler
  returns exactly \<open>es\<close>, leaves the read pointer at the write pointer in the region and in the
  cached header, and changes nothing else in the queue.
\<close>

theorem logs_delivered:
  assumes "buffer_ok cfg mmap (pci_good cfg) b" "queue_holds cfg (mmap (dataInterface b)) es"
  shows "\<exists>b'. readErrorLogs cfg (pci_interface cfg) b = (Inr es, b') \<and>
    bmcReadPtr (header_of_bytes (mmap (dataInterface b'))) =
      biosWritePtr (header_of_bytes (mmap (dataInterface b))) \<and>
    cachedBufferHeader b' = header_of_bytes (mmap (dataInterface b')) \<and>
    queue_ring cfg (mmap (dataInterface b')) = queue_ring cfg (mmap (dataInterface b))"
  using pci_clip.readErrorLogs_becomes [OF assms]
  by (auto simp: becomes_def in_sync_def region_header_def region_queue_def)

theorem logs_delivered_witness:
  "\<exists>b'. readErrorLogs ex_cfg (pci_interface ex_cfg) ex_buffer = (Inr [ex_entry], b')"
  using logs_delivered [OF ex_buffer_ok, of "[ex_entry]"] ex_holds by (auto simp: ex_buffer_region)

text \<open>
  C7: For every content of the region, \<open>readErrorLogs\<close> over the PCI handler computes the
  specification \<open>logs_spec\<close>, a function of the region's bytes alone: the same entries or the same
  exception. On every outcome the cached header agrees with the region.
\<close>

theorem logs_refine_spec:
  assumes "buffer_ok cfg mmap (pci_good cfg) b"
  shows "\<exists>b'. readErrorLogs cfg (pci_interface cfg) b =
      (case logs_spec cfg (mmap (dataInterface b)) of Inl x \<Rightarrow> Inl (Exn x) | Inr es \<Rightarrow> Inr es, b') \<and>
    buffer_ok cfg mmap (pci_good cfg) b' \<and> in_sync mmap b'"
  using pci.readErrorLogs_ok [OF assms] by blast

theorem logs_refine_spec_witness:
  "\<exists>b'. readErrorLogs ex_cfg (pci_interface ex_cfg) ex_buffer =
    (case logs_spec ex_cfg ex_region of Inl x \<Rightarrow> Inl (Exn x) | Inr es \<Rightarrow> Inr es, b')"
  using logs_refine_spec [OF ex_buffer_ok] by (auto simp: ex_buffer_region)

text \<open>
  C8: What \<open>readErrorLogs\<close> returns was in the queue: the bytes from the read pointer on are the
  encodings of the returned entries, every one of them valid, and together they end at the write
  pointer, directly or after exactly one more round. A write pointer equal to the size of the queue
  gets past the pointer check but never delivers an entry.
\<close>

theorem logs_sound:
  assumes "buffer_ok cfg mmap (pci_good cfg) b"
    and "readErrorLogs cfg (pci_interface cfg) b = (Inr es, b')"
  defines "r \<equiv> mmap (dataInterface b)" and "m \<equiv> max_offset cfg"
  defines "rp \<equiv> unat (bmcReadPtr (header_of_bytes r))" and "wp \<equiv> unat (biosWritePtr (header_of_bytes r))"
  shows "header_ok cfg (header_of_bytes r) \<and> rp \<le> m \<and> wp \<le> m \<and> (es \<noteq> [] \<longrightarrow> wp < m) \<and>
    ring_read (queue_ring cfg r) rp (total_length es) = concat (map entry_bytes es) \<and>
    (\<forall>ep \<in> set es. valid_entry m ep) \<and>
    (total_length es = ring_used m rp wp \<or> total_length es = ring_used m rp wp + m)"
proof -
  note d = buffer_okD [OF assms(1)]
  have "logs_spec cfg r = Inr es"
    using pci.readErrorLogs_ok [OF assms(1)] assms(2) by (auto simp: r_def split: sum.splits)
  from logs_spec_sound [OF d(1) _ this] d(3) show ?thesis
    by (simp add: r_def m_def rp_def wp_def)
qed

theorem logs_sound_witness:
  "ring_read (queue_ring ex_cfg ex_region) (unat (bmcReadPtr (header_of_bytes ex_region)))
     (total_length [ex_entry]) = entry_bytes ex_entry"
proof -
  obtain b' where "readErrorLogs ex_cfg (pci_interface ex_cfg) ex_buffer = (Inr [ex_entry], b')"
    using pci_clip.readErrorLogs_becomes [OF ex_buffer_ok, of "[ex_entry]"] ex_holds
    by (auto simp: ex_buffer_region)
  from logs_sound [OF ex_buffer_ok this] show ?thesis by (simp add: ex_buffer_region)
qed

text \<open>
  C9: On any transport at all, also one whose bytes change between two reads: the entries that
  \<open>readErrorLogs\<close> returns have the size their header declares, at most the queue size, and a zero
  XOR; and there are at most as many of them as entry headers fit the queue, plus one.
\<close>

theorem logs_any_transport:
  assumes "readErrorLogs cfg di s = (Inr es, t)" "wf_config cfg"
  shows "(\<forall>ep \<in> set es. valid_entry (max_offset cfg) ep) \<and> 6 * length es < max_offset cfg + 6"
  using readErrorLogs_checked [OF assms] readErrorLogs_bounded [OF assms] by (simp add: checked_is_valid)

theorem logs_any_transport_witness: "valid_entry (max_offset ex_cfg) ex_entry"
proof -
  obtain b' where "readErrorLogs ex_cfg (pci_interface ex_cfg) ex_buffer = (Inr [ex_entry], b')"
    using pci_clip.readErrorLogs_becomes [OF ex_buffer_ok, of "[ex_entry]"] ex_holds
    by (auto simp: ex_buffer_region)
  from logs_any_transport [OF this ex_wf] show ?thesis by simp
qed

text \<open>
  C10: The pointer checks accept a corrupt queue: when the read pointer is at a valid entry longer
  than the bytes queued by exactly the size of the ring (so that it runs once around, over its own
  header), \<open>readErrorLogs\<close> returns that entry although the BIOS queued fewer bytes than it has.
\<close>

theorem overlong_entry_accepted:
  assumes ok: "buffer_ok cfg mmap (pci_good cfg) b"
  defines "r \<equiv> mmap (dataInterface b)" and "m \<equiv> max_offset cfg"
  defines "rp \<equiv> unat (bmcReadPtr (header_of_bytes r))" and "wp \<equiv> unat (biosWritePtr (header_of_bytes r))"
  assumes "header_ok cfg (header_of_bytes r)" "rp < m" "wp < m" "rp \<noteq> wp" "valid_entry m ep"
    and "ring_read (queue_ring cfg r) rp (entry_length ep) = entry_bytes ep"
    and "entry_length ep = ring_used m rp wp + m"
  shows "\<exists>b'. readErrorLogs cfg (pci_interface cfg) b = (Inr [ep], b')"
proof -
  note d = buffer_okD [OF ok]
  have "logs_spec cfg r = Inr [ep]"
    by (rule logs_spec_overlong)
      (use assms d in \<open>simp_all add: r_def m_def rp_def wp_def\<close>)
  then show ?thesis using pci.readErrorLogs_ok [OF ok] by (auto simp: r_def)
qed

definition long_entry :: EntryPair where
  "long_entry = (\<lparr>sequenceId = 0, entrySize = 24, checksum = 0, rdeCommandType = 1\<rparr>,
     replicate 18 0 @ [0, 0, 24, 0, 0, 1])"

definition long_region :: bytes where
  "long_region = header_to_bytes ((init_header 0 80 8 (1, 2, 3, 4))\<lparr>biosWritePtr := 6\<rparr>) @
     replicate 8 0 @ [0, 0, 24, 0, 0, 1] @ replicate 34 0"

theorem overlong_entry_accepted_witness:
  "\<exists>b'. readErrorLogs ex_cfg (pci_interface ex_cfg) (BufferImpl_new (PciDataHandler_new 96 long_region)) =
    (Inr [long_entry], b')"
proof -
  let ?b = "BufferImpl_new (PciDataHandler_new 96 long_region)"
  have len: "length long_region = 96" by code_simp
  have ok: "buffer_ok ex_cfg mmap (pci_good ex_cfg) ?b"
    using ex_wf len
    by (simp add: buffer_ok_def BufferImpl_new_def PciDataHandler_new_def pci_good_def) (simp add: ex_cfg_def)
  have r: "mmap (dataInterface ?b) = long_region" by (simp add: BufferImpl_new_def PciDataHandler_new_def)
  have "header_ok ex_cfg (header_of_bytes long_region)" "unat (bmcReadPtr (header_of_bytes long_region)) = 0"
    "unat (biosWritePtr (header_of_bytes long_region)) = 6" "max_offset ex_cfg = 24"
    "valid_entry 24 long_entry" "ring_read (queue_ring ex_cfg long_region) 0 (entry_length long_entry) = entry_bytes long_entry"
    "entry_length long_entry = 30" "ring_used 24 0 6 = 6" by code_simp+
  then show ?thesis
    using overlong_entry_accepted [OF ok, of long_entry] unfolding r by simp
qed

text \<open>
  C11: \<open>wraparoundRead\<close> at a position and of a length within the queue reads the ring of the
  queue bytes, in one or two transport reads, and moves the read pointer past what was read.
\<close>

theorem wraparound_read_is_ring_read:
  assumes "buffer_ok cfg mmap (pci_good cfg) b" "header_ok cfg (cachedBufferHeader b)"
    and "unat pos \<le> max_offset cfg" "unat n \<le> max_offset cfg"
    and "unat pos < max_offset cfg \<or> unat n < max_offset cfg"
  shows "\<exists>b'. wraparoundRead cfg (pci_interface cfg) pos n b =
      (Inr (ring_read (queue_ring cfg (mmap (dataInterface b))) (unat pos) (unat n)), b') \<and>
    cachedBufferHeader b' = (cachedBufferHeader b)
      \<lparr>bmcReadPtr := word_of_nat ((unat pos + unat n) mod max_offset cfg)\<rparr>"
  using pci.wraparoundRead_ok [OF assms] by (auto simp: moved_def)

theorem wraparound_read_is_ring_read_witness:
  "\<exists>b'. wraparoundRead ex_cfg (pci_interface ex_cfg) 20 8 (ex_buffer\<lparr>cachedBufferHeader := ex_header\<rparr>) =
    (Inr (ring_read (queue_ring ex_cfg ex_region) 20 8), b')"
proof -
  let ?b = "ex_buffer\<lparr>cachedBufferHeader := ex_header\<rparr>"
  have ok: "buffer_ok ex_cfg mmap (pci_good ex_cfg) ?b"
    using ex_buffer_ok by (simp add: buffer_ok_def)
  have hdr: "header_ok ex_cfg (cachedBufferHeader ?b)"
    by (simp add: header_ok_def ex_header_def init_header_def ex_cfg_def zero_header_def)
  have m: "max_offset ex_cfg = 24" by (simp add: max_offset_def ex_cfg_def)
  show ?thesis
    using wraparound_read_is_ring_read [OF ok hdr, of 20 8] by (auto simp: m ex_buffer_region)
qed

section \<open>Initialization and flags\<close>

text \<open>
  C12: \<open>initialize\<close> on a region that holds the queue region writes the header with both pointers
  and all flags zero, clears the queue region behind it and leaves the rest of the memory alone;
  the cached header is the one written. A queue larger than the memory is refused and nothing
  is written.
\<close>

theorem initialize_region:
  fixes version :: u32 and qSize ueSize :: u16 and magic :: "u32 \<times> u32 \<times> u32 \<times> u32"
  assumes "pci_good cfg (dataInterface b)" "48 \<le> unat qSize"
  defines "r \<equiv> mmap (dataInterface b)" and "h \<equiv> init_header version qSize ueSize magic"
  shows "if unat qSize \<le> length r
    then \<exists>b'. initialize (pci_interface cfg) version qSize ueSize magic b = (Inr (), b') \<and>
      cachedBufferHeader b' = h \<and>
      mmap (dataInterface b') = header_to_bytes h @ replicate (unat qSize - 48) 0 @ drop (unat qSize) r
    else initialize (pci_interface cfg) version qSize ueSize magic b =
      (Inl (Exn (ProposedQueueTooBig (unat qSize) (length r))), b)"
  using pci.initialize_ok [OF assms(1), of qSize version ueSize magic] pci.initialize_too_big [OF assms(1)] assms(2)
  by (auto simp: r_def h_def)

theorem initialize_region_witness:
  "\<exists>b'. initialize (pci_interface ex_cfg) 0 80 8 (1, 2, 3, 4) ex_buffer = (Inr (), b') \<and>
     length (mmap (dataInterface b')) = 96"
proof -
  have "pci_good ex_cfg (dataInterface ex_buffer)" using ex_buffer_ok by (simp add: buffer_ok_def)
  from initialize_region [OF this, of 80 0 8 "(1, 2, 3, 4)"] show ?thesis
    by (auto simp: ex_buffer_region ex_region_length header_size_def)
qed

text \<open>
  C13: \<open>readUeLogFromReservedRegion\<close> returns the bytes of the reserved region exactly when the
  switch flags of BIOS and BMC differ and the header declares a size; nothing otherwise; and it
  throws when the declared size leaves the memory.
\<close>

theorem ue_log_read:
  assumes "pci_good cfg (dataInterface b)" "48 \<le> length (mmap (dataInterface b))"
  defines "r \<equiv> mmap (dataInterface b)"
  defines "h \<equiv> header_of_bytes r"
  defines "n \<equiv> unat (ueRegionSize h)"
  shows "fst (readUeLogFromReservedRegion (pci_interface cfg) b) =
    (if n = 0 \<or> bit (biosFlags h) 0 = bit (bmcFlags h) 0 then Inr []
     else if 48 + n \<le> length r then Inr (slice 48 n r)
     else Inl (Exn (UeReadShort n (length r - 48))))"
  using pci_clip.readUeLog_total [OF assms(1,2)] assms(2) by (auto simp: h_def r_def n_def)

theorem ue_log_read_witness:
  "fst (readUeLogFromReservedRegion (pci_interface ex_cfg) ex_buffer) = Inr []"
proof -
  have good: "pci_good ex_cfg (dataInterface ex_buffer)" using ex_buffer_ok by (simp add: buffer_ok_def)
  show ?thesis
    using ue_log_read [OF good]
    by (simp add: ex_buffer_region ex_region_length ex_region_header ex_header_def init_header_def
      zero_header_def)
qed

text \<open>
  C14: \<open>checkForOverflowAndAcknowledge\<close> reports an overflow exactly when the overflow flags of
  BIOS and BMC differ, and makes them agree: the next call reports none.
\<close>

theorem overflow_acknowledged:
  assumes "buffer_ok cfg mmap (pci_good cfg) b"
  defines "h \<equiv> header_of_bytes (mmap (dataInterface b))"
  shows "\<exists>b' b''. checkForOverflowAndAcknowledge (pci_interface cfg) b =
      (Inr (bit (biosFlags h) 1 \<noteq> bit (bmcFlags h) 1), b') \<and>
    checkForOverflowAndAcknowledge (pci_interface cfg) b' = (Inr False, b'') \<and>
    header_of_bytes (mmap (dataInterface b')) =
      h\<lparr>bmcFlags := if bit (biosFlags h) 1 \<noteq> bit (bmcFlags h) 1 then flip_bit 1 (bmcFlags h) else bmcFlags h\<rparr>"
proof -
  let ?ov = "bit (biosFlags h) 1 \<noteq> bit (bmcFlags h) 1"
  define f where "f = (if ?ov then flip_bit 1 (bmcFlags h) else bmcFlags h)"
  have h: "region_header mmap b = h" by (simp add: h_def region_header_def)
  obtain b' where run: "checkForOverflowAndAcknowledge (pci_interface cfg) b = (Inr ?ov, b')"
    and b': "becomes cfg mmap (pci_good cfg) b (h\<lparr>bmcFlags := f\<rparr>) b'"
    using pci_clip.overflow_becomes [OF assms(1)] unfolding h f_def by blast
  have ok: "buffer_ok cfg mmap (pci_good cfg) b'" and h': "region_header mmap b' = h\<lparr>bmcFlags := f\<rparr>"
    using b' by (simp_all add: becomes_def)
  have "bit f 1 = bit (biosFlags h) 1" by (simp add: f_def bit_flip_bit_iff)
  then obtain b'' where "checkForOverflowAndAcknowledge (pci_interface cfg) b' = (Inr False, b'')"
    using pci_clip.overflow_becomes [OF ok] unfolding h' by auto
  then show ?thesis using run h' by (auto simp: f_def region_header_def)
qed

theorem overflow_acknowledged_witness:
  "\<exists>b' b''. checkForOverflowAndAcknowledge (pci_interface ex_cfg) b' = (Inr False, b'')"
  using overflow_acknowledged [OF ex_buffer_ok] by blast

section \<open>Layouts\<close>





section \<open>The PCI handler\<close>

text \<open>
  C17: A write of the PCI handler stores as many bytes as fit before the end of the region and
  reports that number, as long as it is below 64 KiB; it changes no other byte, and reading the
  same stretch afterwards returns what was stored.
\<close>

theorem pci_write_then_read:
  assumes "pci_good cfg h" "unat off \<le> unat (regionSize h)" "unat off + length src < 2 ^ 32"
  defines "n \<equiv> min (length src) (unat (regionSize h) - unat off)"
  assumes "n < 2 ^ 16"
  shows "\<exists>h'. PciDataHandler_write cfg off src h = (Inr (word_of_nat n), h') \<and>
    mmap h' = overwrite (mmap h) (unat off) (take n src) \<and> regionSize h' = regionSize h \<and>
    PciDataHandler_read off (word_of_nat (length src)) h' = (Inr (take n src), h')"
proof -
  let ?h = "pci_store (unat off) (take n src) h"
  have size: "length (mmap h) = unat (regionSize h)" using assms(1) by (simp add: pci_good_def)
  have h: "pci_good cfg ?h" "mmap ?h = overwrite (mmap h) (unat off) (take n src)"
    "regionSize ?h = regionSize h"
    using assms(1,2) size by (auto simp: pci_store_def pci_good_def n_def)
  have len: "unat (word_of_nat (length src) :: u32) = length src"
    using assms(3) by (intro unat_word_of_nat_lt) simp
  have "PciDataHandler_read off (word_of_nat (length src)) ?h = (Inr (slice (unat off) n (mmap ?h)), ?h)"
    using pci_read_clipped [OF h(1), of off "word_of_nat (length src)"] assms(2,3) h(3)
    by (simp add: len n_def)
  also have "slice (unat off) n (mmap ?h) = take n src"
    unfolding h(2) using size assms(2)
    by (subst slice_overwrite_same) (auto simp: n_def)
  finally show ?thesis
    using pci_write_clipped [OF assms(1-3)] assms(5) h by (simp add: n_def Let_def)
qed

theorem pci_write_then_read_witness:
  "\<exists>h'. PciDataHandler_write ex_cfg 94 [1, 2, 3] ex_pci = (Inr 2, h') \<and>
     PciDataHandler_read 94 3 h' = (Inr [1, 2], h')"
  using pci_write_then_read [OF ex_pci_good(1), of 94 "[1, 2, 3]"]
  by (auto simp: ex_pci_def PciDataHandler_new_def)



text \<open>
  C19: The number of bytes a write stores is cut to 16 bits: of a longer source that fits the
  region only the length modulo 64 KiB is written and reported.
\<close>

theorem pci_write_truncates:
  assumes "pci_good cfg h" "unat off + length src < unat (regionSize h)" "src \<noteq> []"
  defines "n \<equiv> length src mod 2 ^ 16"
  shows "PciDataHandler_write cfg off src h =
    (Inr (word_of_nat n), h\<lparr>mmap := overwrite (mmap h) (unat off) (take n src)\<rparr>)"
proof -
  have fits: "unat off + length src < 2 ^ 32"
    using assms(2) regionSize_bound [of h] by simp
  have add: "size_add cfg (unat off) (length src) = unat off + length src"
    using assms(1) fits by (simp add: size_add_exact size_bits_bound pci_good_def)
  have n: "unat (word_of_nat (length src) :: u16) = n" by (simp add: n_def unat_of_nat)
  have n32: "ucast (word_of_nat (length src) :: u16) = (word_of_nat n :: u32)" by (metis n of_nat_unat)
  have "copy_in (mmap h) (unat off) src n = Some (overwrite (mmap h) (unat off) (take n src))"
    using assms by (intro copy_in_overwrite) (auto simp: pci_good_def n_def
      intro: le_trans [OF add_left_mono [OF mod_less_eq_dividend]])
  moreover have "\<not> off > regionSize h" using assms(2) by (simp add: word_less_nat_alt)
  ultimately show ?thesis
    using assms(2,3) by (simp add: PciDataHandler_write_def Let_def add n n32 returnM_def)
qed

theorem pci_write_truncates_witness:
  "fst (PciDataHandler_write ex_cfg 0 (replicate 65537 7)
     \<lparr>regionSize = 65540, mmap = replicate 65540 0\<rparr>) = Inr 1"
proof -
  have "pci_good ex_cfg \<lparr>regionSize = 65540, mmap = replicate 65540 0\<rparr>"
    by (simp add: pci_good_def ex_cfg_def)
  from pci_write_truncates [OF this, of 0 "replicate 65537 7"] show ?thesis
    by (simp)
qed

end
