(* ===== verification/CrcCheck.thy ===== *)
theory CrcCheck
  imports Crc
begin

text \<open>The standard check value of CRC-32, computed by the reference step by step.\<close>

section \<open>The check value\<close>

text \<open>The register after each of the digits 1 to 9.\<close>

lemma crc_check_steps:
  shows "crc_byte 4294967295 49 = 2082672712"
    and "crc_byte 2082672712 50 = 2964110130"
    and "crc_byte 2964110130 51 = 2008521773"
    and "crc_byte 2008521773 52 = 1679564636"
    and "crc_byte 1679564636 53 = 873121251"
    and "crc_byte 873121251 54 = 4136447134"
    and "crc_byte 4136447134 55 = 2952566368"
    and "crc_byte 2952566368 56 = 1696539984"
    and "crc_byte 1696539984 57 = 873187033"
  by code_simp+

lemma crc32_check: "crc32 [49, 50, 51, 52, 53, 54, 55, 56, 57] = 0xCBF43926"
  by (simp add: crc32_def crc_check_steps)

end
