(* ===== verification/RdeProperties.thy ===== *)
theory RdeProperties
  imports Examples CrcCheck
begin

text \<open>
  The properties of the RDE command handler: checksum, dictionary transfer, publishing.
\<close>

section \<open>Checksum\<close>

text \<open>
  C20: The table-driven checksum of the handler is the bit-serial CRC-32, for every stream; on the
  digits 1 to 9 it gives the standard check value.
\<close>

theorem crc_table_is_bit_serial:
  "finalChecksum (updateCrc calcCrcTable 0xFFFFFFFF bs) = crc32 bs \<and>
   crc32 [49, 50, 51, 52, 53, 54, 55, 56, 57] = 0xCBF43926"
  by (simp only: crc32_eq crc32_check simp_thms)

text \<open>
  C21: Two streams that differ in one byte only never have the same checksum, whatever precedes
  and follows the byte.
\<close>

theorem crc_detects_byte:
  "finalChecksum (updateCrc calcCrcTable 0xFFFFFFFF (as @ b # bs)) =
     finalChecksum (updateCrc calcCrcTable 0xFFFFFFFF (as @ c # bs)) \<longleftrightarrow> b = c"
  by (simp only: crc32_eq crc32_one_byte)

section \<open>Dictionary transfer\<close>

text \<open>
  C22: A transfer of dictionaries with distinct resource ids, each cut into one or more chunks,
  sent in order with the CRC-32 of all data at the end: the handler answers \<open>RdeOk\<close> to every
  message but the last and \<open>RdeStopFlagReceived\<close> to it, is idle again, and has exactly these
  dictionaries available, each the concatenation of its chunks, next to those it had before.
\<close>

theorem transfer_delivers:
  assumes "transferred ds" "\<forall>c \<in> set (chunks_of ds). fits cfg (snd c)" "handler_inv s"
  defines "cs \<equiv> chunks_of ds"
  shows "\<exists>t. decode_all cfg env (transfer_messages cs (crc32 (payload cs))) s =
      (Inr (replicate (length cs - 1) RdeOk @ [RdeStopFlagReceived]), t) \<and>
    flagState t = RdeStateIdle \<and> exStorer t = exStorer s \<and>
    (\<forall>k. getDictionary k (dictionaryManager t) =
       (case dictionaries_of ds k of Some d \<Rightarrow> Some d | None \<Rightarrow> getDictionary k (dictionaryManager s)))"
proof -
  have tab: "crcTable s = calcCrcTable" using assms(3) by (simp add: handler_inv_def)
  show ?thesis
    unfolding cs_def decode_transfer [OF transfer_dictionaries(2) [OF assms(1)] assms(2)] tab
    by (simp add: Let_def verdict_def settle_def crc32_eq transfer_dictionaries(1) [OF assms(1)])
qed

theorem transfer_delivers_witness:
  "\<exists>t. decode_all ex_cfg ex_env (transfer_messages [(0, [1, 2]), (0, [3]), (7, [4])]
       (crc32 [1, 2, 3, 4])) ex_handler = (Inr [RdeOk, RdeOk, RdeStopFlagReceived], t) \<and>
     getDictionary 0 (dictionaryManager t) = Some [1, 2, 3] \<and>
     getDictionary 7 (dictionaryManager t) = Some [4]"
proof -
  let ?ds = "[(0, [[1, 2], [3]]), (7, [[4]])] :: (u32 \<times> bytes list) list"
  have two: "replicate 2 RdeOk = [RdeOk, RdeOk]" by (simp add: numeral_2_eq_2)
  have "transferred ?ds" by (simp add: transferred_def)
  moreover have "\<forall>c \<in> set (chunks_of ?ds). fits ex_cfg (snd c)" by (simp add: fits_def ex_cfg_def)
  moreover have "handler_inv ex_handler" using ex_handler_ok by (simp add: handler_ok_def)
  ultimately show ?thesis
    using transfer_delivers [of ?ds ex_cfg ex_handler ex_env]
    by (auto simp: two simp del: transfer_messages.simps decode_all.simps)
qed

text \<open>
  C23: The same transfer with any other checksum: the last answer is \<open>RdeInvalidChecksum\<close> and no
  dictionary at all is available afterwards, also none of an earlier transfer; the count is zero.
\<close>

theorem transfer_corrupt:
  assumes "transferred ds" "\<forall>c \<in> set (chunks_of ds). fits cfg (snd c)" "handler_inv s"
  defines "cs \<equiv> chunks_of ds"
  assumes "ck \<noteq> crc32 (payload cs)"
  shows "\<exists>t. decode_all cfg env (transfer_messages cs ck) s =
      (Inr (replicate (length cs - 1) RdeOk @ [RdeInvalidChecksum]), t) \<and>
    flagState t = RdeStateIdle \<and> fst (getDictionaryCount t) = Inr 0 \<and>
    (\<forall>k. getDictionary k (dictionaryManager t) = None)"
proof -
  have tab: "crcTable s = calcCrcTable" using assms(3) by (simp add: handler_inv_def)
  have "DictionaryManager_getDictionaryCount (invalidateDictionaries m) = 0" for m
    by (simp add: DictionaryManager_getDictionaryCount_def invalidateDictionaries_def)
  then show ?thesis
    using assms(5)
    unfolding cs_def decode_transfer [OF transfer_dictionaries(2) [OF assms(1)] assms(2)] tab
    by (simp add: Let_def verdict_def settle_def crc32_eq dm.get_drop_all getDictionaryCount_def getM_def)
qed

theorem transfer_corrupt_witness:
  "\<exists>t. decode_all ex_cfg ex_env (transfer_messages [(0, [1, 2]), (7, [4])]
       (crc32 [1, 2, 4] + 1)) ex_handler =
     (Inr [RdeOk, RdeInvalidChecksum], t) \<and> getDictionary 0 (dictionaryManager t) = None"
proof -
  let ?ds = "[(0, [[1, 2]]), (7, [[4]])] :: (u32 \<times> bytes list) list"
  have "transferred ?ds" by (simp add: transferred_def)
  moreover have "\<forall>c \<in> set (chunks_of ?ds). fits ex_cfg (snd c)" by (simp add: fits_def ex_cfg_def)
  moreover have "handler_inv ex_handler" using ex_handler_ok by (simp add: handler_ok_def)
  moreover have "crc32 [1, 2, 4] + 1 \<noteq> crc32 [1, 2, 4]" by simp
  ultimately show ?thesis
    using transfer_corrupt [of ?ds ex_cfg ex_handler "crc32 [1, 2, 4] + 1" ex_env]
    by (auto simp del: transfer_messages.simps decode_all.simps)
qed

text \<open>
  C24: \<open>decodeRdeCommand\<close> answers \<open>RdeStopFlagReceived\<close>, to any bytes in any state, only for
  a multipart message with an end flag whose last four bytes are the final checksum; the handler is
  then idle and the dictionary the message names is available.
\<close>

theorem stop_means_verified:
  assumes "decodeRdeCommand cfg env cmd type s = (Inr RdeStopFlagReceived, t)"
  shows "type = RdeMultiPartReceiveResponse \<and> flagState t = RdeStateIdle \<and>
    transferFlag (multi_header_of_bytes cmd) \<in> {RdeMRecFlagEnd, RdeMRecFlagStartAndEnd} \<and>
    finalChecksum (crc t) = received_checksum cmd \<and>
    getDictionary (nextDataTransferHandle (multi_header_of_bytes cmd)) (dictionaryManager t) \<noteq> None"
  by (rule decodeRdeCommand_stop [OF assms])

theorem stop_means_verified_witness:
  "received_checksum ex_message = crc32 [0xAB]"
proof -
  have "fits ex_cfg [0xAB]" by (simp add: fits_def ex_cfg_def)
  moreover have tab: "crcTable ex_handler = calcCrcTable"
    using ex_handler_ok by (simp add: handler_ok_def handler_inv_def)
  ultimately obtain t where
    run: "decodeRdeCommand ex_cfg ex_env ex_message RdeMultiPartReceiveResponse ex_handler =
      (Inr RdeStopFlagReceived, t)" and "crc t = updateCrc calcCrcTable 0xFFFFFFFF [0xAB]"
    using message_StartAndEnd [of ex_cfg "[0xAB]" 1 "crc32 [0xAB]" ex_handler]
    by (simp add: decodeRdeCommand_def ex_message_def verdict_def crc32_eq
        del: updateCrc.simps)
  then show ?thesis using stop_means_verified [OF run] by (simp add: crc32_eq del: updateCrc.simps)
qed

text \<open>
  C26: A middle or end message outside a transfer is refused with \<open>RdeInvalidPktOrder\<close>; the
  dictionaries, the running checksum and the flag state stay as they were.
\<close>

theorem packet_order:
  assumes "fits cfg d" "flagState s = RdeStateIdle" "f = RdeMRecFlagMiddle \<or> f = RdeMRecFlagEnd"
  shows "decodeRdeCommand cfg env (multi_message f r d tr) RdeMultiPartReceiveResponse s =
    (Inr RdeInvalidPktOrder, s\<lparr>prevDictResourceId := r\<rparr>)"
  using message_out_of_order [OF assms] by (simp add: decodeRdeCommand_def)

theorem packet_order_witness:
  "fst (decodeRdeCommand ex_cfg ex_env (multi_message RdeMRecFlagMiddle 3 [1] [])
     RdeMultiPartReceiveResponse ex_handler) = Inr RdeInvalidPktOrder"
proof -
  have "fits ex_cfg [1]" by (simp add: fits_def ex_cfg_def)
  moreover have "flagState ex_handler = RdeStateIdle"
    by (simp add: ex_handler_def main_objects_def RdeCommandHandler_new_def)
  ultimately show ?thesis using packet_order [of ex_cfg "[1]" ex_handler RdeMRecFlagMiddle] by simp
qed

section \<open>Publishing\<close>




text \<open>
  C27: On a target whose \<open>size_t\<close> has at least 34 bits, and with a storer that returns or throws,
  no command of any type and any bytes makes the handler leave the command's buffer.
\<close>

theorem decode_defined:
  assumes "34 \<le> SIZE_T_BITS cfg" "\<And>j x. fst (publishJson env j x) \<noteq> Inl Undefined"
  shows "fst (decodeRdeCommand cfg env cmd type s) \<noteq> Inl Undefined"
  using decodeRdeCommand_defined [of cfg env cmd type] assms by (simp add: defined_def)

theorem decode_defined_witness:
  "fst (decodeRdeCommand ex_cfg \<lparr>bej_decode = ex_decode, publishJson = \<lambda>j x. (Inr True, x :: nat)\<rparr>
     [0, 3, 1, 0] 1 (RdeCommandHandler_new 0)) \<noteq> Inl Undefined"
  by (rule decode_defined) (simp_all add: ex_cfg_def)

text \<open>
  C28: With a 32-bit \<open>size_t\<close> the sum of header size and declared data length wraps, the size check
  passes, and the data span of a start message leaves the command.
\<close>

theorem decode_wraps32:
  assumes "SIZE_T_BITS cfg = 32" "multi_header_size \<le> length cmd" "length cmd < 2 ^ 31"
  defines "h \<equiv> multi_header_of_bytes cmd"
  assumes "transferFlag h = RdeMRecFlagStart" "2 ^ 32 - multi_header_size \<le> unat (dataLengthBytes h)"
  shows "fst (decodeRdeCommand cfg env cmd RdeMultiPartReceiveResponse s) = Inl Undefined"
proof -
  let ?n = "unat (dataLengthBytes h)"
  have n: "?n < 2 ^ 32" by (rule u32_bound)
  have "size_add cfg multi_header_size ?n = multi_header_size + ?n - 2 ^ 32"
    using assms(1,6) n by (simp add: size_add_def mod_if multi_header_size_def)
  then have small: "\<not> length cmd < size_add cfg multi_header_size ?n"
    using assms(2) n by simp
  have "span_at cmd multi_header_size ?n = None"
    using assms(3,6) by (simp add: span_at_def multi_header_size_def)
  then have "handleFlagStart h cmd r s = (Inl Undefined, s\<lparr>crc := 0xFFFFFFFF\<rparr>)" for r
    by (simp add: handleFlagStart_def prog_simps spanM_def)
  then show ?thesis
    using assms(2,5) small
    by (simp add: decodeRdeCommand_def multiPartReceiveResp_def Let_def bindM_def flip: h_def)
qed

theorem decode_wraps32_witness:
  "fst (decodeRdeCommand (ex_cfg\<lparr>SIZE_T_BITS := 32\<rparr>) ex_env
     [0, 0, 0, 0, 0, 0, 0xFF, 0xFF, 0xFF, 0xFF] RdeMultiPartReceiveResponse ex_handler) = Inl Undefined"
proof -
  let ?cmd = "[0, 0, 0, 0, 0, 0, 0xFF, 0xFF, 0xFF, 0xFF] :: bytes"
  have flag: "transferFlag (multi_header_of_bytes ?cmd) = RdeMRecFlagStart"
    by (simp add: multi_header_of_bytes_def RdeMRecFlagStart_def)
  have len: "2 ^ 32 - multi_header_size \<le> unat (dataLengthBytes (multi_header_of_bytes ?cmd))"
    by (simp add: multi_header_of_bytes_def int_at_def slice_def multi_header_size_def)
  show ?thesis
    by (rule decode_wraps32 [OF _ _ _ flag len]) (simp_all add: multi_header_size_def)
qed

section \<open>Where the checks are weaker than the protocol\<close>

text \<open>
  C29: A one-message dictionary whose checksum is missing is answered \<open>RdeInvalidCommand\<close>, and yet
  its dictionary is available for decoding: only a wrong checksum withdraws dictionaries, not a
  missing one.
\<close>

theorem unchecked_dictionary:
  assumes "fits cfg d"
  shows "\<exists>t. decodeRdeCommand cfg env (multi_message RdeMRecFlagStartAndEnd r d [])
      RdeMultiPartReceiveResponse s = (Inr RdeInvalidCommand, t) \<and>
    getDictionary r (dictionaryManager t) = Some d"
  using StartAndEnd_without_checksum [OF assms, of r s] by (simp add: decodeRdeCommand_def dm.store_laws)

theorem unchecked_dictionary_witness:
  "\<exists>t. decodeRdeCommand ex_cfg ex_env (multi_message RdeMRecFlagStartAndEnd 0 [7, 7] [])
     RdeMultiPartReceiveResponse ex_handler = (Inr RdeInvalidCommand, t) \<and>
   getDictionary 0 (dictionaryManager t) = Some [7, 7]"
  by (rule unchecked_dictionary) (simp add: fits_def ex_cfg_def)

text \<open>
  C30: A message with an unknown flag between two chunks is refused, but its resource id is
  remembered: the chunk after it is taken for the start of a new dictionary. The transfer ends
  with \<open>RdeStopFlagReceived\<close> and a matching checksum over all chunks, and the dictionary that is
  available has lost its first chunk.
\<close>

theorem refused_message_truncates:
  assumes "fits cfg d" "fits cfg x" "fits cfg e" "r \<noteq> q" "crcTable s = calcCrcTable"
    and "f \<notin> {RdeMRecFlagStart, RdeMRecFlagMiddle, RdeMRecFlagEnd, RdeMRecFlagStartAndEnd}"
  shows "\<exists>t. decode_all cfg env [multi_message RdeMRecFlagStart r d [], multi_message f q x [],
      multi_message RdeMRecFlagEnd r e (le_bytes 4 (crc32 (d @ e)))] s =
      (Inr [RdeOk, RdeInvalidCommand, RdeStopFlagReceived], t) \<and>
    getDictionary r (dictionaryManager t) = Some e"
proof -
  let ?t = "s\<lparr>flagState := RdeStateStartRecvd, crc := updateCrc (crcTable s) 0xFFFFFFFF d,
      dictionaryManager := startDictionaryEntry r d (dictionaryManager s), prevDictResourceId := r\<rparr>"
  let ?u = "?t\<lparr>prevDictResourceId := q\<rparr>"
  let ?v = "?u\<lparr>flagState := RdeStateIdle, crc := updateCrc (crcTable ?u) (crc ?u) e,
      dictionaryManager := snd (markDataComplete r (snd (collect (q, dictionaryManager ?u) (r, e)))),
      prevDictResourceId := r\<rparr>"
  have crc: "finalChecksum (updateCrc calcCrcTable (updateCrc calcCrcTable 0xFFFFFFFF d) e) = crc32 (d @ e)"
    by (simp add: crc32_eq flip: updateCrc_append)
  have "multiPartReceiveResp cfg (multi_message RdeMRecFlagEnd r e (le_bytes 4 (crc32 (d @ e)))) ?u =
      (Inr RdeStopFlagReceived, ?v)"
    using assms(3-5) by (subst message_End) (auto simp: verdict_def settle_def crc)
  moreover have "multiPartReceiveResp cfg (multi_message f q x []) ?t = (Inr RdeInvalidCommand, ?u)"
    by (rule message_bad_flag [OF assms(2,6)])
  moreover have "decode_all cfg env [] ?v = (Inr [], ?v)" by (simp add: returnM_def)
  moreover have "getDictionary r (dictionaryManager ?v) = Some e"
    using assms(4) by (simp add: collect_def dm.store_laws)
  ultimately show ?thesis
    using message_Start [OF assms(1), of r "[]" s] decode_all_Cons by blast
qed

theorem refused_message_truncates_witness:
  "\<exists>t. decode_all ex_cfg ex_env [multi_message RdeMRecFlagStart 1 [5] [], multi_message 9 2 [] [],
      multi_message RdeMRecFlagEnd 1 [6] (le_bytes 4 (crc32 ([5] @ [6])))] ex_handler =
      (Inr [RdeOk, RdeInvalidCommand, RdeStopFlagReceived], t) \<and>
    getDictionary 1 (dictionaryManager t) = Some [6]"
  using ex_handler_ok
  by (intro refused_message_truncates)
    (simp_all add: fits_def ex_cfg_def flag_codes handler_ok_def handler_inv_def)

text \<open>
  C31: After any command, in any outcome, the dictionary count is the number of resources whose
  dictionary is available, modulo its 32 bits.
\<close>

theorem dictionary_count:
  assumes "handler_inv s" "decodeRdeCommand cfg env cmd type s = (r, t)"
  shows "fst (getDictionaryCount t) =
    Inr (word_of_nat (card {k. getDictionary k (dictionaryManager t) \<noteq> None}))"
proof -
  have "dict_inv (dictionaryManager t)"
    using keepsD [OF decodeRdeCommand_keeps assms] by (simp add: handler_inv_def)
  then show ?thesis by (simp add: getDictionaryCount_def getM_def dm.count_inv)
qed

theorem dictionary_count_witness:
  "fst (getDictionaryCount (snd (decodeRdeCommand ex_cfg ex_env ex_message 1 ex_handler))) =
   Inr (word_of_nat (card {k. getDictionary k (dictionaryManager
     (snd (decodeRdeCommand ex_cfg ex_env ex_message 1 ex_handler))) \<noteq> None}))"
  by (rule dictionary_count [of ex_handler ex_cfg ex_env ex_message 1 "fst (decodeRdeCommand ex_cfg ex_env ex_message 1 ex_handler)"])
    (use ex_handler_ok in \<open>simp_all add: handler_ok_def\<close>)

end
