(* ===== verification/DiskModel.thy ===== *)
theory DiskModel
  imports StorerContract "HOL-Library.Sublist"
begin

text \<open>
  The calls of \<open>std::filesystem\<close> and of the output stream the file writer makes, on a disk whose
  operations do not fail: directories and files under canonical absolute paths. Over it the files
  of log entries follow the two queues of the storer exactly.
\<close>

section \<open>The disk\<close>

record 'j Disk =
  dirs :: "string list"
  files :: "(string \<times> 'j) list"

text \<open>\<open>below p q\<close>: \<open>q\<close> is \<open>p\<close> or inside the directory \<open>p\<close>.\<close>

definition below :: "string \<Rightarrow> string \<Rightarrow> bool" where
  "below p q \<longleftrightarrow> q = p \<or> prefix (p @ ''/'') q"

definition parent_dir :: "string \<Rightarrow> string" where
  "parent_dir p = rev (tl (dropWhile (\<lambda>c. c \<noteq> CHR ''/'') (rev p)))"

text \<open>
  \<open>create_directories\<close> also makes the missing ancestors, and reports whether the directory is
  new. Opening a stream needs the parent directory and a path that is not a directory; otherwise the
  stream fails, which the writer does not see. \<open>remove_all\<close> takes everything below its path.
\<close>

definition put_file :: "string \<Rightarrow> 'j \<Rightarrow> (string \<times> 'j) list \<Rightarrow> (string \<times> 'j) list" where
  "put_file p j fs = (p, j) # filter (\<lambda>(q, _). q \<noteq> p) fs"

definition drop_files :: "string \<Rightarrow> (string \<times> 'j) list \<Rightarrow> (string \<times> 'j) list" where
  "drop_files p fs = filter (\<lambda>(q, _). \<not> below p q) fs"

definition disk_fs :: "('j Disk, 'j) FileSystem" where
  "disk_fs =
     \<lparr>fs_is_directory = (\<lambda>p d. (Inr (p \<in> set (dirs d)), d)),
      fs_create_directories = (\<lambda>p d.
        (Inr (p \<notin> set (dirs d)), d\<lparr>dirs := filter (\<lambda>a. below a p) (prefixes p) @ dirs d\<rparr>)),
      fs_write_file = (\<lambda>p j d.
        (Inr (), if parent_dir p \<in> set (dirs d) \<and> p \<notin> set (dirs d) then d\<lparr>files := put_file p j (files d)\<rparr> else d)),
      fs_remove_all = (\<lambda>p d.
        (Inr False, d\<lparr>dirs := filter (\<lambda>q. \<not> below p q) (dirs d),
           files := drop_files p (files d)\<rparr>))\<rparr>"

section \<open>Entry files\<close>

text \<open>A name that is one path element.\<close>

definition plain :: "string \<Rightarrow> bool" where
  "plain name \<longleftrightarrow> name \<noteq> [] \<and> CHR ''/'' \<notin> set name"

lemma plain_last: "plain name \<Longrightarrow> last name \<noteq> CHR ''/''"
  unfolding plain_def using last_in_set [of name] by metis

definition entry_dir :: "string \<Rightarrow> string \<Rightarrow> string \<Rightarrow> string" where
  "entry_dir base serviceId uuid = path_append base (getRelativePath (entry_path serviceId uuid))"

definition entry_file :: "string \<Rightarrow> string \<Rightarrow> string \<Rightarrow> string" where
  "entry_file base serviceId uuid = path_append (entry_dir base serviceId uuid) ''index.json''"

lemma entry_paths:
  "\<exists>x. (\<forall>uuid. plain uuid \<longrightarrow> entry_dir base serviceId uuid = x @ uuid \<and>
     entry_file base serviceId uuid = x @ uuid @ ''/index.json'')"
proof -
  let ?y = "''redfish/v1/Systems/system/LogServices/'' @ serviceId @ ''/Entries/''"
  define x where "x = (if base = [] \<or> last base = CHR ''/'' then base else base @ ''/'') @ ?y"
  have rel: "getRelativePath (entry_path serviceId uuid) = ?y @ uuid" for uuid
    by (simp add: getRelativePath_def entry_path_def has_root_directory_def relative_path_def)
  have dir: "entry_dir base serviceId uuid = x @ uuid" for uuid
    by (simp add: entry_dir_def rel path_append_def has_root_directory_def x_def)
  have idx: "plain uuid \<Longrightarrow> entry_file base serviceId uuid = x @ uuid @ ''/index.json''" for uuid
    using plain_last [of uuid]
    by (auto simp: entry_file_def dir plain_def path_append_def has_root_directory_def)
  show ?thesis using dir idx by blast
qed

lemma parent_of_file: "parent_dir (p @ ''/index.json'') = p"
  by (simp add: parent_dir_def)

lemma plain_split:
  assumes "CHR ''/'' \<notin> set a" "CHR ''/'' \<notin> set b" "a @ CHR ''/'' # c = b @ CHR ''/'' # d"
  shows "a = b"
proof -
  have "takeWhile (\<lambda>c. c \<noteq> CHR ''/'') (a @ CHR ''/'' # c) = a"
    "takeWhile (\<lambda>c. c \<noteq> CHR ''/'') (b @ CHR ''/'' # d) = b"
    using assms(1,2) by (auto simp: takeWhile_append takeWhile_eq_all_conv)
  then show ?thesis using assms(3) by simp
qed

lemma below_dir_file:
  assumes "plain a" "plain b"
  shows "below (entry_dir base i a) (entry_file base i b) \<longleftrightarrow> a = b"
proof -
  obtain x where x: "\<And>u. plain u \<Longrightarrow> entry_dir base i u = x @ u"
    "\<And>u. plain u \<Longrightarrow> entry_file base i u = x @ u @ ''/index.json''" using entry_paths by blast
  have "b @ ''/index.json'' \<noteq> a" using assms by (auto simp: plain_def)
  moreover have "a = b" if "prefix (a @ ''/'') (b @ ''/index.json'')"
    using that assms plain_split [of b a "''index.json''"] by (auto simp: prefix_def plain_def)
  ultimately show ?thesis using assms by (auto simp: below_def x)
qed

lemma below_file_dir:
  assumes "plain a" "plain b"
  shows "\<not> below (entry_file base i a) (entry_dir base i b)"
proof -
  obtain x where x: "\<And>u. plain u \<Longrightarrow> entry_dir base i u = x @ u"
    "\<And>u. plain u \<Longrightarrow> entry_file base i u = x @ u @ ''/index.json''" using entry_paths by blast
  have slash: "CHR ''/'' \<in> set b" if "prefix (a @ ''/index.json'' @ ys) b" for ys
    using that by (auto simp: prefix_def)
  show ?thesis
    using assms slash [of "[]"] slash [of "''/''"] by (auto simp: below_def x plain_def)
qed

lemma entry_file_inj: "plain a \<Longrightarrow> plain b \<Longrightarrow> entry_file base i a = entry_file base i b \<longleftrightarrow> a = b"
  using entry_paths [of base i] by force

section \<open>The writer on the disk\<close>

text \<open>The names of the stored files.\<close>

definition stored :: "(string \<times> 'j) list \<Rightarrow> string set" where
  "stored fs = fst ` set fs"

lemma stored_simps [simp]:
  "stored [] = {}" "stored ((p, j) # fs) = insert p (stored fs)"
  "stored (put_file p j fs) = insert p (stored fs)" "stored (drop_files p fs) = {q \<in> stored fs. \<not> below p q}"
  by (force simp: stored_def put_file_def drop_files_def)+

definition on_disk :: "string \<Rightarrow> 'j Disk ExternalStorerFileWriter \<Rightarrow> string \<Rightarrow> bool" where
  "on_disk serviceId w uuid \<longleftrightarrow> entry_file (baseDir w) serviceId uuid \<in> stored (files (fileSystem w))"

text \<open>No directory has the name of an entry's file.\<close>

definition sane :: "string \<Rightarrow> 'j Disk ExternalStorerFileWriter \<Rightarrow> bool" where
  "sane serviceId w \<longleftrightarrow> (\<forall>uuid. plain uuid \<longrightarrow> entry_file (baseDir w) serviceId uuid \<notin> set (dirs (fileSystem w)))"

lemma disk_createFile:
  assumes "createFile disk_fs (entry_path i a) j w = (Inr b, w')" "sane i w" "plain a"
  shows "sane i w' \<and> (\<forall>u. plain u \<longrightarrow> on_disk i w' u = (on_disk i w u \<or> b \<and> u = a))"
proof -
  let ?d = "entry_dir (baseDir w) i a"
  obtain x where "entry_file (baseDir w) i a = ?d @ ''/index.json''"
    using entry_paths [of "baseDir w" i] assms(3) by auto
  then have parent: "parent_dir (entry_file (baseDir w) i a) = ?d" by (simp add: parent_of_file)
  have new: "plain u \<Longrightarrow> entry_file (baseDir w) i u \<notin> set (filter (\<lambda>p. below p ?d) (prefixes ?d))" for u
    using below_file_dir [OF _ assms(3)] by auto
  have self: "?d \<in> set (filter (\<lambda>p. below p ?d) (prefixes ?d))" by (simp add: below_def)
  show ?thesis
    using assms parent new self entry_file_inj [OF _ assms(3)]
    by (auto simp: createFile_def createFolder_def prog_simps bindM_def fsM_def memberM_def disk_fs_def Let_def sane_def
      on_disk_def simp flip: entry_dir_def entry_file_def split: if_splits)
qed

lemma disk_removeAll:
  assumes "removeAll disk_fs (entry_path i a) w = (Inr b, w')" "sane i w" "plain a"
  shows "sane i w' \<and> (\<forall>u. plain u \<longrightarrow> on_disk i w' u = (on_disk i w u \<and> \<not> (b \<and> u = a)))"
  using assms below_dir_file [OF assms(3), of _ "baseDir w" i]
  by (auto simp: removeAll_def prog_simps bindM_def fsM_def memberM_def disk_fs_def Let_def sane_def
      on_disk_def simp flip: entry_dir_def split: if_splits)

section \<open>The storer over entry files\<close>

text \<open>
  What the storer needs of its file handler for the log entries of a service: creating the files of
  an entry and removing them changes which entries have files by that entry, on success only.
\<close>

locale entry_files =
  fixes fh :: "('f, 'j) FileHandlerInterface" and serviceId :: string
    and has :: "'f \<Rightarrow> string \<Rightarrow> bool" and fit :: "'f \<Rightarrow> bool"
  assumes create_law: "fh_createFile fh (entry_path serviceId a) j f = (Inr b, f') \<Longrightarrow> fit f \<Longrightarrow> plain a \<Longrightarrow>
      fit f' \<and> (\<forall>u. plain u \<longrightarrow> has f' u = (has f u \<or> b \<and> u = a))"
    and remove_law: "fh_removeAll fh (entry_path serviceId a) f = (Inr b, f') \<Longrightarrow> fit f \<Longrightarrow> plain a \<Longrightarrow>
      fit f' \<and> (\<forall>u. plain u \<longrightarrow> has f' u = (has f u \<and> \<not> (b \<and> u = a)))"

text \<open>A generator whose identifiers are path elements it never gave before.\<close>

definition fresh_ids :: "('g, string) prog \<Rightarrow> ('g \<Rightarrow> string set) \<Rightarrow> bool" where
  "fresh_ids gen used \<longleftrightarrow> (\<forall>g uuid g'. gen g = (Inr uuid, g') \<longrightarrow>
     plain uuid \<and> uuid \<notin> used g \<and> used g' = insert uuid (used g))"

text \<open>
  The queues are the paths of some identifiers \<open>ids\<close>, each once, and these are the entries that
  have files.
\<close>

definition tracks ::
  "string \<Rightarrow> ('f \<Rightarrow> string \<Rightarrow> bool) \<Rightarrow> ('g \<Rightarrow> string set) \<Rightarrow> ('f, 'g, 'o) ExternalStorerFileInterface \<Rightarrow> bool"
where
  "tracks serviceId has used s \<longleftrightarrow>
     logServiceId s = serviceId \<and>
     (\<exists>ids. logEntrySavedQueue s @ logEntryQueue s = map (entry_path serviceId) ids \<and> distinct ids \<and>
        (\<forall>u \<in> set ids. plain u \<and> u \<in> used (randomGen s)) \<and>
        (\<forall>u. plain u \<longrightarrow> has (fileHandler s) u = (u \<in> set ids)))"

lemma evictOldest_success:
  assumes "evictOldest fh s = (Inr True, u)"
  shows "\<exists>f q. u = s\<lparr>logEntryQueue := q, fileHandler := f\<rparr> \<and>
    (if length (logEntryQueue s) = unat (maxNumLogEntries s)
     then \<exists>p. logEntryQueue s = p # q \<and> fh_removeAll fh p (fileHandler s) = (Inr True, f)
     else q = logEntryQueue s \<and> f = fileHandler s)"
proof (cases "length (logEntryQueue s) = unat (maxNumLogEntries s)")
  case True
  then show ?thesis
    using assms by (cases "logEntryQueue s") (auto simp: evictOldest_def prog_simps fhM_def memberM_eq)
next
  case False
  then show ?thesis
    using assms
    by (auto simp: evictOldest_def prog_simps intro!: exI [of _ "fileHandler s"] exI [of _ "logEntryQueue s"])
qed

lemma storeEntry_success:
  assumes "storeEntry env i e s = (Inr True, t)"
  shows "\<exists>uuid g j. next_uuid env (randomGen s) = (Inr uuid, g) \<and> randomGen t = g \<and>
    fh_createFile (file_iface env) (entry_path i uuid) j (fileHandler s) = (Inr True, fileHandler t) \<and>
    logServiceId t = logServiceId s \<and>
    (if length (logEntrySavedQueue s) < unat (maxNumSavedLogEntries s)
     then logEntrySavedQueue t = logEntrySavedQueue s @ [entry_path i uuid] \<and> logEntryQueue t = logEntryQueue s
     else logEntrySavedQueue t = logEntrySavedQueue s \<and> logEntryQueue t = logEntryQueue s @ [entry_path i uuid])"
proof -
  obtain r g where gen: "next_uuid env (randomGen s) = (r, g)" by fastforce
  then obtain uuid where r: "r = Inr uuid"
    using assms by (cases r) (auto simp: storeEntry_def bindM_def genM_def memberM_def)
  let ?e = "json_erase (json_lib env) ''@odata.id'' (json_set_string (json_lib env) ''Id'' uuid e)"
    and ?p = "entry_path i uuid"
  obtain c f where cr: "fh_createFile (file_iface env) ?p ?e (fileHandler s) = (c, f)" by fastforce
  obtain n w where nt: "createEntry (object_server env) (rootPath s @ ?p @ ''/index.json'') (cperNotifier s) = (n, w)"
    by fastforce
  have "c = Inr True \<and> pushEntry ?p (s\<lparr>randomGen := g, fileHandler := f, cperNotifier := w\<rparr>) = (Inr (), t)"
    using assms
    by (cases c; cases n)
      (auto simp: storeEntry_def bindM_def genM_def fhM_def notifierM_def memberM_def gen r Let_def cr nt
        getM_def returnM_def pushEntry_def modifyM_def split: if_splits)
  then show ?thesis
    using gen r cr by (auto simp: pushEntry_def modifyM_def)
qed

lemma processLogEntry_steps:
  assumes "processLogEntry env e s = (Inr True, t)"
  obtains u where "evictOldest (file_iface env) s = (Inr True, u)"
    "storeEntry env (logServiceId s) e u = (Inr True, t)"
  using assms by (auto simp: processLogEntry_def prog_simps bindM_eq_Inr split: if_splits)

lemma processLogEntry_generator:
  assumes "processLogEntry env e s = (Inr True, t)"
  shows "snd (next_uuid env (randomGen s)) = randomGen t"
  using assms
proof (rule processLogEntry_steps)
  fix u assume u: "evictOldest (file_iface env) s = (Inr True, u)" "storeEntry env (logServiceId s) e u = (Inr True, t)"
  have "randomGen u = randomGen s" using evictOldest_success [OF u(1)] by auto
  then show ?thesis using storeEntry_success [OF u(2)] by auto
qed

context entry_files
begin

lemma tracks_evict:
  assumes run: "evictOldest fh s = (Inr True, u)"
    and tracks: "tracks serviceId has used s" and fit: "fit (fileHandler s)"
  shows "tracks serviceId has used u \<and> fit (fileHandler u)"
proof -
  obtain f q where u: "u = s\<lparr>logEntryQueue := q, fileHandler := f\<rparr>" and
    q: "if length (logEntryQueue s) = unat (maxNumLogEntries s)
     then \<exists>p. logEntryQueue s = p # q \<and> fh_removeAll fh p (fileHandler s) = (Inr True, f)
     else q = logEntryQueue s \<and> f = fileHandler s" using evictOldest_success [OF run] by blast
  show ?thesis
  proof (cases "length (logEntryQueue s) = unat (maxNumLogEntries s)")
    case True
    then obtain p where p: "logEntryQueue s = p # q" "fh_removeAll fh p (fileHandler s) = (Inr True, f)"
      using q by auto
    obtain ids where ids: "logEntrySavedQueue s @ p # q = map (entry_path serviceId) ids" "distinct ids"
      "\<forall>v \<in> set ids. plain v \<and> v \<in> used (randomGen s)" "\<forall>v. plain v \<longrightarrow> has (fileHandler s) v = (v \<in> set ids)"
      using tracks by (auto simp: tracks_def p)
    from ids(1) obtain A a B where split: "ids = A @ a # B" "logEntrySavedQueue s = map (entry_path serviceId) A"
      "p = entry_path serviceId a" "q = map (entry_path serviceId) B"
      by (auto simp: append_eq_map_conv Cons_eq_map_conv)
    have "fit f \<and> (\<forall>v. plain v \<longrightarrow> has f v = (has (fileHandler s) v \<and> v \<noteq> a))"
      using remove_law [OF p(2) [unfolded split(3)] fit] ids(3) by (simp add: split)
    then show ?thesis
      using tracks ids split
      by (auto simp: tracks_def u intro!: exI [of _ "A @ B"])
  next
    case False
    then show ?thesis using q tracks fit by (simp add: u tracks_def)
  qed
qed

lemma tracks_store:
  assumes run: "storeEntry env serviceId e s = (Inr True, t)"
    and env: "file_iface env = fh" "fresh_ids (next_uuid env) used"
    and tracks: "tracks serviceId has used s" and fit: "fit (fileHandler s)"
  shows "tracks serviceId has used t \<and> fit (fileHandler t)"
proof -
  obtain uuid g j where gen: "next_uuid env (randomGen s) = (Inr uuid, g)" "randomGen t = g"
    and cr: "fh_createFile fh (entry_path serviceId uuid) j (fileHandler s) = (Inr True, fileHandler t)"
    and t: "logServiceId t = logServiceId s"
    "if length (logEntrySavedQueue s) < unat (maxNumSavedLogEntries s)
     then logEntrySavedQueue t = logEntrySavedQueue s @ [entry_path serviceId uuid] \<and> logEntryQueue t = logEntryQueue s
     else logEntrySavedQueue t = logEntrySavedQueue s \<and> logEntryQueue t = logEntryQueue s @ [entry_path serviceId uuid]"
    using storeEntry_success [OF run] env(1) by blast
  have uuid: "plain uuid" "uuid \<notin> used (randomGen s)" "used g = insert uuid (used (randomGen s))"
    using env(2) gen(1) by (auto simp: fresh_ids_def)
  have files: "fit (fileHandler t)" "\<forall>v. plain v \<longrightarrow> has (fileHandler t) v = (has (fileHandler s) v \<or> v = uuid)"
    using create_law [OF cr fit uuid(1)] by simp_all
  obtain A B where q: "logEntrySavedQueue s = map (entry_path serviceId) A"
      "logEntryQueue s = map (entry_path serviceId) B" and ids: "distinct (A @ B)"
      "\<forall>v \<in> set (A @ B). plain v \<and> v \<in> used (randomGen s)"
      "\<forall>v. plain v \<longrightarrow> has (fileHandler s) v = (v \<in> set (A @ B))" "logServiceId s = serviceId"
    using tracks by (auto simp: tracks_def append_eq_map_conv)
  define ids' where "ids' = (if length (logEntrySavedQueue s) < unat (maxNumSavedLogEntries s)
    then A @ uuid # B else A @ B @ [uuid])"
  have "logEntrySavedQueue t @ logEntryQueue t = map (entry_path serviceId) ids'"
    using t(2) by (auto simp: ids'_def q split: if_splits)
  moreover have "set ids' = insert uuid (set (A @ B))" "distinct ids'"
    using ids(1,2) uuid(2) by (auto simp: ids'_def)
  ultimately show ?thesis
    using files ids uuid gen(2) t(1) by (auto simp: tracks_def intro!: exI [of _ ids'])
qed

lemma processLogEntry_tracks:
  assumes run: "processLogEntry env e s = (Inr True, t)"
    and env: "file_iface env = fh" "fresh_ids (next_uuid env) used"
    and tracks: "tracks serviceId has used s" and fit: "fit (fileHandler s)"
  shows "tracks serviceId has used t \<and> fit (fileHandler t)"
proof -
  have i: "logServiceId s = serviceId" using tracks by (simp add: tracks_def)
  obtain u where u: "evictOldest fh s = (Inr True, u)" "storeEntry env serviceId e u = (Inr True, t)"
    using processLogEntry_steps [OF run] env(1) i by metis
  from tracks_evict [OF u(1) tracks fit] show ?thesis
    using tracks_store [OF u(2) env] by blast
qed

end

interpretation disk: entry_files "writer_interface disk_fs" serviceId "on_disk serviceId" "sane serviceId"
  for serviceId
proof unfold_locales
qed (simp_all add: writer_interface_def disk_createFile disk_removeAll)

end
