(* ===== verification/StorerProperties.thy ===== *)
theory StorerProperties
  imports Examples DiskModel
begin

text \<open>
  The properties of the external storer: confinement to the base directory, retention of log
  entries, and the notification objects.
\<close>

section \<open>Paths\<close>

text \<open>
  C32: \<open>isValidPath\<close> accepts exactly the paths no prefix of whose elements, followed from any
  directory, leaves that directory (lexically, the way the check is meant).
\<close>

theorem valid_path_stays: "isValidPath p \<longleftrightarrow> stays (path_parts (getRelativePath p))"
  by (rule isValidPath_stays)

text \<open>
  C33: Whatever text is published, the storer over the file writer calls the file system on paths
  inside the base directory only: a property of the file system that no such call breaks still
  holds afterwards, however the call ends.
\<close>

theorem storer_confined:
  assumes "confining fs base P" "file_iface env = writer_interface fs"
    and "baseDir (fileHandler s) = base" "P (fileSystem (fileHandler s))"
    and "storer_publishJson env jsonStr s = (r, t)"
  shows "P (fileSystem (fileHandler t))"
  using keepsD [OF writer.publishJson_keeps [OF assms(2)] _ assms(5), of base P] assms
  by (simp add: writer_inv_def)

text \<open>A file system that records the paths it is called with.\<close>

definition log_fs :: "(string list, 'j) FileSystem" where
  "log_fs = \<lparr>fs_is_directory = (\<lambda>p l. (Inr False, p # l)), fs_create_directories = (\<lambda>p l. (Inr True, p # l)),
     fs_write_file = (\<lambda>p j l. (Inr (), p # l)), fs_remove_all = (\<lambda>p l. (Inr False, p # l))\<rparr>"

definition log_env where
  "log_env = \<lparr>json_lib = ex_json, file_iface = writer_interface log_fs, next_uuid = ex_uuid,
     object_server = ex_server\<rparr>"

definition log_storer where
  "log_storer = ExternalStorerFileInterface_new [] ''/run/bmcweb''
     (ExternalStorerFileWriter_new ''/run/bmcweb'' []) 0 20 980"

theorem storer_confined_witness:
  "list_all (inside ''/run/bmcweb'')
     (fileSystem (fileHandler (snd (storer_publishJson log_env ''service'' log_storer))))"
proof (rule storer_confined [where fs = log_fs and base = "''/run/bmcweb''" and s = log_storer])
  show "confining (log_fs :: (string list, (string \<times> string) list) FileSystem) ''/run/bmcweb''
      (list_all (inside ''/run/bmcweb''))"
    by (simp add: confining_def log_fs_def keeps_def)
  show "storer_publishJson log_env ''service'' log_storer =
      (fst (storer_publishJson log_env ''service'' log_storer),
       snd (storer_publishJson log_env ''service'' log_storer))" by simp
qed (simp_all add: log_env_def log_storer_def ExternalStorerFileInterface_new_def
    ExternalStorerFileWriter_new_def)

section \<open>Retention of log entries\<close>

fun publish_all ::
  "('f, 'j, 'g, 'o, 'h) StorerEnv \<Rightarrow> string list \<Rightarrow> (('f, 'g, 'o) ExternalStorerFileInterface, bool list) prog"
where
  "publish_all env [] = returnM []"
| "publish_all env (j # js) =
     bindM (storer_publishJson env j) (\<lambda>b. bindM (publish_all env js) (\<lambda>bs. returnM (b # bs)))"

definition is_log_entry :: "'j JsonLib \<Rightarrow> string \<Rightarrow> bool" where
  "is_log_entry jl text =
     (case json_parse jl text of
        Parsed j \<Rightarrow> json_contains jl j ''@odata.type'' \<and>
          (case json_get_string jl j ''@odata.type'' of Some t \<Rightarrow> has_substring ''LogEntry'' t | None \<Rightarrow> False)
      | _ \<Rightarrow> False)"

lemma publish_entry:
  "is_log_entry (json_lib env) text \<Longrightarrow>
   \<exists>j. storer_publishJson env text s = processLogEntry env j s"
  by (auto simp: is_log_entry_def storer_publishJson_def getSchemaType_def get_string_def prog_simps
      bindM_bind split: parsed.splits option.splits)

text \<open>What every successful log entry carries on, for a list that grows by one element, a sequence does.\<close>

lemma publish_all_steps:
  assumes "publish_all env js s = (Inr bs, t)" "\<forall>b \<in> set bs. b" "\<forall>j \<in> set js. is_log_entry (json_lib env) j"
    and step: "\<And>e s t ids. processLogEntry env e s = (Inr True, t) \<Longrightarrow> I ids s \<Longrightarrow> \<exists>id. I (ids @ [id]) t"
    and "I ids s"
  shows "\<exists>new. length new = length js \<and> I (ids @ new) t"
  using assms(1-3,5)
proof (induction js arbitrary: s bs ids)
  case Nil
  then show ?case by (simp add: returnM_def)
next
  case (Cons j js)
  from Cons.prems(1,2) obtain u bs' where first: "storer_publishJson env j s = (Inr True, u)"
    and rest: "publish_all env js u = (Inr bs', t)" "\<forall>b \<in> set bs'. b"
    by (auto simp: prog_invert)
  obtain e where "processLogEntry env e s = (Inr True, u)"
    using publish_entry [of env j s] Cons.prems(3) first by auto
  from step [OF this Cons.prems(4)] obtain id where "I (ids @ [id]) u" by blast
  from Cons.IH [OF rest _ this] Cons.prems(3) obtain new where
    "length new = length js" "I ((ids @ [id]) @ new) t" by auto
  then show ?case by (intro exI [of _ "id # new"]) simp
qed

text \<open>
  C34: Publishing log entries, all successfully, into a storer that so far kept of a history \<open>h\<close>
  the first \<open>maxNumSavedLogEntries\<close> paths and the last \<open>maxNumLogEntries\<close> of the others: it goes
  on to do so for the history extended by the new paths, in the order of publication.
\<close>

theorem retention:
  assumes "publish_all env js s = (Inr bs, t)" "\<forall>b \<in> set bs. b"
    and "\<forall>j \<in> set js. is_log_entry (json_lib env) j" "retains h s"
  shows "\<exists>ids. length ids = length js \<and> retains (h @ map (entry_path (logServiceId s)) ids) t"
proof -
  let ?I = "\<lambda>ids u. retains (h @ map (entry_path (logServiceId s)) ids) u \<and> logServiceId u = logServiceId s"
  have "\<exists>new. length new = length js \<and> ?I ([] @ new) t"
  proof (rule publish_all_steps [OF assms(1-3)])
    show "\<exists>id. ?I (ids @ [id]) u" if "processLogEntry env e s' = (Inr True, u)" "?I ids s'" for e s' u ids
      using processLogEntry_retains [OF that(1)] that(2) by fastforce
  qed (use assms(4) in simp)
  then show ?thesis by auto
qed

definition ex_storer_env where
  "ex_storer_env = \<lparr>json_lib = ex_json, file_iface = writer_interface ex_fs, next_uuid = ex_uuid,
     object_server = ex_server\<rparr>"

theorem retention_witness:
  "\<exists>ids. length ids = Suc (Suc (Suc 0)) \<and> retained 1 1 (map (entry_path ''S'') ids) =
    ([entry_path ''S'' ''0''], [entry_path ''S'' ''2''])"
proof -
  let ?s = "(ExternalStorerFileInterface_new [] ''/r'' (ExternalStorerFileWriter_new ''/r'' 0) 0 1 1)
    \<lparr>logServiceId := ''S''\<rparr>"
  let ?js = "[''entry'', ''entry'', ''entry'']"
  let ?run = "publish_all ex_storer_env ?js ?s"
  have run: "fst ?run = Inr [True, True, True] \<and>
      logEntrySavedQueue (snd ?run) = [entry_path ''S'' ''0''] \<and>
      logEntryQueue (snd ?run) = [entry_path ''S'' ''2''] \<and>
      maxNumSavedLogEntries (snd ?run) = 1 \<and> maxNumLogEntries (snd ?run) = 1"
    by code_simp
  have entry: "is_log_entry (json_lib ex_storer_env) ''entry''" by code_simp
  have start: "retains [] ?s"
    by (simp add: retains_def retained_def ExternalStorerFileInterface_new_def)
  have "?run = (Inr [True, True, True], snd ?run)" using run by (metis prod.collapse)
  from retention [OF this _ _ start] entry obtain ids where
    "length ids = Suc (Suc (Suc 0))" "retains (map (entry_path ''S'') ids) (snd ?run)"
    by (auto simp del: publish_all.simps)
  then show ?thesis using run by (auto simp: retains_def simp del: publish_all.simps)
qed

text \<open>
  The files through a sequence of publications: \<open>ids\<close> are the identifiers drawn, all fresh, and
  the paths of their entries extend the history.
\<close>

lemma publish_all_files:
  assumes run: "publish_all env js s = (Inr bs, t)" "\<forall>b \<in> set bs. b" "\<forall>j \<in> set js. is_log_entry (json_lib env) j"
    and env: "file_iface env = writer_interface disk_fs" "fresh_ids (next_uuid env) used"
    and start: "tracks i (on_disk i) used s" "sane i (fileHandler s)" "retains h s"
  shows "\<exists>ids. length ids = length js \<and> (\<forall>u \<in> set ids. plain u \<and> u \<notin> used (randomGen s)) \<and> distinct ids \<and>
    tracks i (on_disk i) used t \<and> retains (h @ map (entry_path i) ids) t"
proof -
  let ?I = "\<lambda>ids u. tracks i (on_disk i) used u \<and> sane i (fileHandler u) \<and>
    retains (h @ map (entry_path i) ids) u \<and> distinct ids \<and>
    (\<forall>v \<in> set ids. plain v \<and> v \<notin> used (randomGen s)) \<and>
    used (randomGen u) = set ids \<union> used (randomGen s)"
  have "\<exists>new. length new = length js \<and> ?I ([] @ new) t"
  proof (rule publish_all_steps [OF run])
    fix e u w ids assume e: "processLogEntry env e u = (Inr True, w)" and I: "?I ids u"
    have i: "logServiceId u = i" using I by (simp add: tracks_def)
    obtain uuid where "next_uuid env (randomGen u) = (Inr uuid, randomGen w)"
      and w: "retains (h @ map (entry_path i) ids @ [entry_path i uuid]) w"
      using processLogEntry_retains [OF e, of "h @ map (entry_path i) ids"] processLogEntry_generator [OF e] I
      by (auto simp: i)
    then have "plain uuid" "uuid \<notin> used (randomGen u)" "used (randomGen w) = insert uuid (used (randomGen u))"
      using env(2) by (auto simp: fresh_ids_def)
    moreover have "tracks i (on_disk i) used w" "sane i (fileHandler w)"
      using disk.processLogEntry_tracks [OF e env] I by simp_all
    ultimately show "\<exists>id. ?I (ids @ [id]) w" using w I by (intro exI [of _ uuid]) auto
  qed (use start in simp)
  then show ?thesis by auto
qed

text \<open>
  C35: The files follow the retention policy. The storer over the file writer and a disk on which
  operations succeed, its queues in step with the entry files of its log service, and a generator
  of identifiers that never repeats: after publishing any number of log entries successfully, with
  a history \<open>h\<close> of entry paths before, exactly those entries of the service have files on the disk
  that are among the first \<open>maxNumSavedLogEntries\<close> or the last \<open>maxNumLogEntries\<close> of the others
  of the whole history. Nothing else is left behind and nothing retained is missing.
\<close>

theorem disk_retention:
  assumes "publish_all env js s = (Inr bs, t)" "\<forall>b \<in> set bs. b" "\<forall>j \<in> set js. is_log_entry (json_lib env) j"
    and "file_iface env = writer_interface disk_fs" "fresh_ids (next_uuid env) used"
    and "tracks i (on_disk i) used s" "sane i (fileHandler s)" "retains h s"
  shows "\<exists>ids. length ids = length js \<and> distinct ids \<and>
    (\<forall>u \<in> set ids. plain u \<and> u \<notin> used (randomGen s)) \<and>
    (\<exists>sv q. retained (unat (maxNumSavedLogEntries t)) (unat (maxNumLogEntries t)) (h @ map (entry_path i) ids) = (sv, q) \<and>
      (\<forall>u. plain u \<longrightarrow>
        (entry_file (baseDir (fileHandler t)) i u \<in> stored (files (fileSystem (fileHandler t)))) =
        (entry_path i u \<in> set sv \<union> set q)))"
proof -
  obtain ids where ids: "length ids = length js" "distinct ids"
      "\<forall>u \<in> set ids. plain u \<and> u \<notin> used (randomGen s)"
    and t: "tracks i (on_disk i) used t" "retains (h @ map (entry_path i) ids) t"
    using publish_all_files [OF assms] by blast
  have inj: "entry_path i u = entry_path i v \<longleftrightarrow> u = v" for u v by (simp add: entry_path_def)
  have "\<exists>us. logEntrySavedQueue t @ logEntryQueue t = map (entry_path i) us \<and>
      (\<forall>u. plain u \<longrightarrow> on_disk i (fileHandler t) u = (u \<in> set us))"
    using t(1) by (auto simp: tracks_def)
  then obtain us where us: "logEntrySavedQueue t @ logEntryQueue t = map (entry_path i) us"
    "\<And>u. plain u \<Longrightarrow> on_disk i (fileHandler t) u = (u \<in> set us)" by blast
  have "set (logEntrySavedQueue t) \<union> set (logEntryQueue t) = entry_path i ` set us"
    using arg_cong [OF us(1), of set] by simp
  then have "entry_path i u \<in> set (logEntrySavedQueue t) \<union> set (logEntryQueue t) \<longleftrightarrow> u \<in> set us" for u
    by (auto simp: inj)
  then have "\<forall>u. plain u \<longrightarrow>
      (entry_file (baseDir (fileHandler t)) i u \<in> stored (files (fileSystem (fileHandler t)))) =
      (entry_path i u \<in> set (logEntrySavedQueue t) \<union> set (logEntryQueue t))"
    using us(2) by (simp add: on_disk_def)
  then show ?thesis using ids t(2) unfolding retains_def by blast
qed

text \<open>
  A generator of the names a, aa, aaa, \<open>\<dots>\<close>, and a storer that keeps one entry for good and one
  more, with the files of a and aa on its disk.
\<close>

definition unary_uuid :: "(nat, string) prog" where
  "unary_uuid n = (Inr (replicate (Suc n) CHR ''a''), n + 1)"

definition disk_env where
  "disk_env = \<lparr>json_lib = ex_json, file_iface = writer_interface disk_fs, next_uuid = unary_uuid,
     object_server = ex_server\<rparr>"

definition disk_storer ::
  "((string \<times> string) list Disk ExternalStorerFileWriter, nat, string list) ExternalStorerFileInterface"
where
  "disk_storer = (ExternalStorerFileInterface_new [] ''/r''
     (ExternalStorerFileWriter_new ''/r'' \<lparr>dirs = [],
        files = [(entry_file ''/r'' ''S'' ''a'', []), (entry_file ''/r'' ''S'' ''aa'', [])]\<rparr>) 2 1 1)
     \<lparr>logServiceId := ''S'', logEntrySavedQueue := [entry_path ''S'' ''a''],
       logEntryQueue := [entry_path ''S'' ''aa'']\<rparr>"

definition unary_used :: "nat \<Rightarrow> string set" where
  "unary_used n = {replicate (Suc k) CHR ''a'' |k. k < n}"

lemma unary_fresh: "fresh_ids unary_uuid unary_used"
  by (auto simp: fresh_ids_def unary_uuid_def unary_used_def plain_def less_Suc_eq simp del: replicate_Suc)

lemma disk_storer_start:
  "tracks ''S'' (on_disk ''S'') unary_used disk_storer" "sane ''S'' (fileHandler disk_storer)"
  "retains (map (entry_path ''S'') [''a'', ''aa'']) disk_storer"
proof -
  have "\<forall>u \<in> set [''a'', ''aa'']. plain u \<and> u \<in> unary_used 2"
    by (auto simp: plain_def unary_used_def intro: exI [of _ 0] exI [of _ 1])
  then show "tracks ''S'' (on_disk ''S'') unary_used disk_storer"
    by (auto simp: tracks_def disk_storer_def ExternalStorerFileInterface_new_def on_disk_def
      ExternalStorerFileWriter_new_def entry_file_inj intro!: exI [of _ "[''a'', ''aa'']"])
  show "sane ''S'' (fileHandler disk_storer)"
    by (simp add: sane_def disk_storer_def ExternalStorerFileInterface_new_def ExternalStorerFileWriter_new_def)
  show "retains (map (entry_path ''S'') [''a'', ''aa'']) disk_storer"
    by (simp add: retains_def retained_def disk_storer_def ExternalStorerFileInterface_new_def)
qed

theorem disk_retention_witness:
  "\<exists>c. c \<noteq> ''aa'' \<and>
     (let w = fileHandler (snd (publish_all disk_env [''entry''] disk_storer)) in
      on_disk ''S'' w ''a'' \<and> \<not> on_disk ''S'' w ''aa'' \<and> on_disk ''S'' w c)"
proof -
  let ?run = "publish_all disk_env [''entry''] disk_storer"
  have "keeps (limits 1 1) (publish_all disk_env [''entry''])"
    unfolding publish_all.simps by (intro keeps_intros publishJson_limits)
  moreover have "limits 1 1 disk_storer"
    by (simp add: limits_def disk_storer_def ExternalStorerFileInterface_new_def)
  ultimately have "limits 1 1 (snd ?run)" unfolding keeps_def by blast
  then have run: "unat (maxNumSavedLogEntries (snd ?run)) = 1" "unat (maxNumLogEntries (snd ?run)) = 1"
    unfolding limits_def by (simp_all only: unsigned_1)
  have ok: "fst ?run = Inr [True]" by code_simp
  have entry: "is_log_entry (json_lib disk_env) ''entry''" by code_simp
  have fresh: "fresh_ids (next_uuid disk_env) unary_used" using unary_fresh by (simp add: disk_env_def)
  have iface: "file_iface disk_env = writer_interface disk_fs" by (simp add: disk_env_def)
  have pair: "?run = (Inr [True], snd ?run)" using ok by (metis prod.collapse)
  have inj: "entry_path ''S'' u = entry_path ''S'' v \<longleftrightarrow> u = v" for u v by (simp add: entry_path_def)
  have used: "''aa'' \<in> unary_used (randomGen disk_storer)"
    by (auto simp: unary_used_def disk_storer_def ExternalStorerFileInterface_new_def intro: exI [of _ 1])
  define w where "w = fileHandler (snd ?run)"
  have js: "\<forall>b \<in> set [True]. b" "\<forall>j \<in> set [''entry'']. is_log_entry (json_lib disk_env) j" using entry by simp_all
  from disk_retention [OF pair js iface fresh disk_storer_start, unfolded run, folded w_def, folded on_disk_def]
  obtain ids sv q where ids: "length ids = length [''entry'']"
      "\<forall>u \<in> set ids. plain u \<and> u \<notin> unary_used (randomGen disk_storer)"
    and disk: "retained 1 1 (map (entry_path ''S'') [''a'', ''aa''] @ map (entry_path ''S'') ids) = (sv, q)"
      "\<forall>u. plain u \<longrightarrow> on_disk ''S'' w u = (entry_path ''S'' u \<in> set sv \<union> set q)"
    by (elim exE conjE) (rule that)
  from ids(1) obtain c where c: "ids = [c]" by (auto simp: length_Suc_conv)
  then have on: "\<And>u. plain u \<Longrightarrow> on_disk ''S'' w u = (u = ''a'' \<or> u = c)"
    using disk by (auto simp: retained_def inj)
  have "c \<noteq> ''aa''" "plain c" "plain ''a''" "plain ''aa''" using ids(2) used by (auto simp: c plain_def)
  then show ?thesis using on unfolding Let_def w_def by (intro exI [of _ c]) auto
qed

text \<open>
  C36: When the files of the oldest entry cannot be removed, publishing the next log entry is refused,
  as intended, but the oldest path has left the queue already: its files stay on the disk and
  nothing refers to them any more, so they are never removed.
\<close>

theorem failed_removal_forgets:
  assumes "is_log_entry (json_lib env) text" "logServiceId s \<noteq> []"
    and "logEntryQueue s = p # q" "length (logEntryQueue s) = unat (maxNumLogEntries s)"
    and "fh_removeAll (file_iface env) p (fileHandler s) = (Inr False, f)"
  shows "storer_publishJson env text s = (Inr False, s\<lparr>logEntryQueue := q, fileHandler := f\<rparr>)"
proof -
  have "evictOldest (file_iface env) s = (Inr False, s\<lparr>logEntryQueue := q, fileHandler := f\<rparr>)"
    using assms(3-5) by (simp add: evictOldest_def prog_simps fhM_def memberM_def)
  then have "processLogEntry env j s = (Inr False, s\<lparr>logEntryQueue := q, fileHandler := f\<rparr>)" for j
    using assms(2) by (simp add: processLogEntry_def prog_simps bindM_def returnM_def)
  then show ?thesis using publish_entry [OF assms(1), of s] by auto
qed

text \<open>The disk of \<open>disk_storer\<close> when removing reports an error.\<close>

definition stuck_env where
  "stuck_env = disk_env\<lparr>file_iface := writer_interface (disk_fs\<lparr>fs_remove_all := (\<lambda>p d. (Inr True, d))\<rparr>)\<rparr>"

theorem failed_removal_forgets_witness:
  "logEntryQueue (snd (storer_publishJson stuck_env ''entry'' disk_storer)) = [] \<and>
   on_disk ''S'' (fileHandler (snd (storer_publishJson stuck_env ''entry'' disk_storer))) ''aa''"
proof -
  have entry: "is_log_entry (json_lib stuck_env) ''entry''" by code_simp
  have valid: "isValidPath (entry_path ''S'' ''aa'')" by code_simp
  have "fh_removeAll (file_iface stuck_env) (entry_path ''S'' ''aa'') w = (Inr False, w)" for w
    by (simp add: stuck_env_def writer_interface_def removeAll_def valid prog_simps bindM_def fsM_def
      memberM_def)
  from failed_removal_forgets [OF entry _ _ _ this, of disk_storer "[]"] show ?thesis
    by (simp add: disk_storer_def ExternalStorerFileInterface_new_def on_disk_def ExternalStorerFileWriter_new_def)
qed

text \<open>
  C37: However a publication ends, the saved queue holds at most \<open>maxNumSavedLogEntries\<close> paths, the
  other one at most \<open>maxNumLogEntries\<close>, and the latter is used only once the former is full.
\<close>

theorem queue_bounds:
  assumes "queues_ok s" "storer_publishJson env jsonStr s = (r, t)"
  shows "length (logEntrySavedQueue t) \<le> unat (maxNumSavedLogEntries t) \<and>
    length (logEntryQueue t) \<le> unat (maxNumLogEntries t) \<and>
    (logEntryQueue t \<noteq> [] \<longrightarrow> length (logEntrySavedQueue t) = unat (maxNumSavedLogEntries t))"
  using keepsD [OF publishJson_queues_ok assms] by (simp add: queues_ok_def)

theorem queue_bounds_witness:
  "length (logEntrySavedQueue (snd (storer_publishJson ex_storer_env ''service''
     (ExternalStorerFileInterface_new [] ''/r'' (ExternalStorerFileWriter_new ''/r'' 0) 0 20 980)))) \<le>
   unat (maxNumSavedLogEntries (snd (storer_publishJson ex_storer_env ''service''
     (ExternalStorerFileInterface_new [] ''/r'' (ExternalStorerFileWriter_new ''/r'' 0) 0 20 980))))"
  using queue_bounds [OF queues_ok_new, of ex_storer_env "''service''" "[]" "''/r''"
    "ExternalStorerFileWriter_new ''/r'' 0" 0 20 980] by (metis prod.collapse)

section \<open>Undefined behaviour\<close>

text \<open>
  C38: With a limit other than zero and libraries that return or throw, publishing never runs into
  undefined behaviour.
\<close>

theorem publish_defined:
  assumes "env_defined env" "maxNumLogEntries s \<noteq> 0"
  shows "fst (storer_publishJson env jsonStr s) \<noteq> Inl Undefined"
  using publishJson_safe [OF assms(1)] assms(2) by (auto simp: safe_def)

theorem publish_defined_witness:
  "fst (storer_publishJson ex_storer_env ''entry''
     (ExternalStorerFileInterface_new [] ''/r'' (ExternalStorerFileWriter_new ''/r'' 0) 0 20 980)) \<noteq> Inl Undefined"
proof (rule publish_defined)
  show "env_defined ex_storer_env"
    unfolding ex_storer_env_def by (rule writer_defined [OF ex_libraries])
qed (simp add: ExternalStorerFileInterface_new_def)

text \<open>
  C39: With the limit zero the first log entry after a log service reads the front of an empty
  queue: the constructor accepts a limit the class cannot work with.
\<close>

theorem zero_limit_undefined:
  assumes "is_log_entry (json_lib env) text" "maxNumLogEntries s = 0" "logEntryQueue s = []" "logServiceId s \<noteq> []"
  shows "storer_publishJson env text s = (Inl Undefined, s)"
  using publish_entry [OF assms(1), of s] processLogEntry_zero_limit [OF assms(2-4)] by auto

theorem zero_limit_undefined_witness:
  "fst (storer_publishJson ex_storer_env ''entry'' ((ExternalStorerFileInterface_new [] ''/r''
     (ExternalStorerFileWriter_new ''/r'' 0) 0 20 0)\<lparr>logServiceId := ''S''\<rparr>)) = Inl Undefined"
proof -
  have "is_log_entry (json_lib ex_storer_env) ''entry''" by code_simp
  from zero_limit_undefined [OF this] show ?thesis
    by (simp add: ExternalStorerFileInterface_new_def)
qed

section \<open>Notification objects\<close>



end
