(* ===== verification/Spec2Isabelle.thy ===== *)
theory Spec2Isabelle
  imports Session BufferProperties RdeProperties StorerProperties
begin

text \<open>
  A verification library for the OpenBMC daemon \<open>bios-bmc-smm-error-logger\<close>. The BIOS writes error
  logs and dictionary data into a memory region it shares with the BMC; the daemon polls the region,
  takes the entries out of a circular queue, decodes them as RDE commands and publishes the results
  as JSON files that a D-Bus object announces.

  \<^bold>\<open>Parts and how they interact.\<close> \<^verbatim>\<open>src/main.cpp\<close> builds the objects and runs \<open>readLoop\<close> on a
  timer. It reads the region through \<open>BufferImpl\<close> (\<^verbatim>\<open>src/buffer.cpp\<close>), which reaches the memory
  through the interface \<open>DataInterface\<close>, provided by \<open>PciDataHandler\<close> (\<^verbatim>\<open>src/pci_handler.cpp\<close>).
  Entries go to \<open>RdeCommandHandler\<close> (\<^verbatim>\<open>src/rde/rde_handler.cpp\<close>), which collects dictionaries in
  \<open>DictionaryManager\<close> (\<^verbatim>\<open>src/rde/rde_dictionary_manager.cpp\<close>), checks them with a CRC, and hands
  decoded logs to \<open>ExternalStorerFileInterface\<close> (\<^verbatim>\<open>src/rde/external_storer_file.cpp\<close>); that class
  writes files through \<open>ExternalStorerFileWriter\<close> and announces them through
  \<open>CperFileNotifierHandler\<close> (\<^verbatim>\<open>src/rde/notifier_dbus_handler.cpp\<close>).

  \<^bold>\<open>How the code is modelled.\<close> An operation on an object of state \<open>'s\<close> is a \<open>('s, 'a) prog\<close>: from a
  state to a result and the state left behind. The result is a value, an exception of the code (one
  constructor of \<open>exn\<close> for each \<open>throw\<close>), or \<open>Undefined\<close> where C++ has undefined behaviour (an
  access outside the mapping or outside a received command, \<open>front()\<close> of an empty queue). A state
  change before a \<open>throw\<close> stays. Integers with a width are words, so additions wrap as in the code;
  \<open>size_t\<close> values are naturals with \<open>size_add\<close> and \<open>size_sub\<close> wrapping at the width the
  configuration gives. Packed structs are records with parsers and printers of their bytes. The
  host is little-endian. Log output is left out.

  \<^bold>\<open>Theories.\<close>
  \<^item> \<open>Prelude\<close>: words, programs, the predicates \<open>keeps\<close>, \<open>defined\<close> and \<open>safe\<close> with their rules.
  \<^item> \<open>ByteRegion\<close>: little-endian integers, slices, overwrites, reads of a ring.
  \<^item> \<open>Config\<close>: the build options and \<open>size_t\<close> arithmetic.
  \<^item> \<open>DataInterface\<close>: the transport interface and its laws, locales \<open>shared_region\<close> and
    \<open>clipped_region\<close>. \<open>PciHandler\<close>: the PCI handler; the interpretations \<open>pci\<close> and \<open>pci_clip\<close>.
  \<^item> \<open>BufferTypes\<close>, \<open>Buffer\<close>: the structs of \<^verbatim>\<open>include/buffer.hpp\<close> and every operation of
    \<^verbatim>\<open>src/buffer.cpp\<close>.
  \<^item> \<open>BufferSpec\<close>: the queue as a ring and the reader \<open>logs_spec\<close> on it. \<open>BufferRefinement\<close>: the
    operations implement it over every \<open>shared_region\<close>. \<open>BufferSafety\<close>: what holds on any transport.
  \<^item> \<open>DictionaryManager\<close>: the manager and the interface \<open>dictionary_store\<close> it provides (\<open>dm\<close>).
  \<^item> \<open>Crc\<close>, \<open>CrcCheck\<close>: the table-driven CRC and the bit-serial reference.
  \<^item> \<open>RdeTypes\<close>, \<open>RdeHandler\<close>: the command handler. \<open>RdeTransfer\<close>: its invariant, no access outside
    a command. \<open>RdeMessages\<close>: each kind of message. \<open>RdeDelivery\<close>: whole transfers.
    \<open>RdeOutcome\<close>: what the statuses guarantee.
  \<^item> \<open>FileNotifier\<close>, \<open>FileWriter\<close>, \<open>ExternalStorer\<close>: notification, file writer with its path check,
    storer. \<open>StorerContract\<close>: the interface \<open>file_handler\<close>, interpreted on the writer, the queue
    bounds, retention, definedness. \<open>DiskModel\<close>: the file system calls on an in-memory disk, and
    the interface \<open>entry_files\<close> through which the files of entries follow the queues, interpreted on
    the writer over that disk (\<open>disk\<close>).
  \<^item> \<open>ReadLoop\<close>: \<^verbatim>\<open>src/main.cpp\<close>, and the step relation of daemon and BIOS. \<open>DaemonContract\<close>,
    \<open>DaemonTick\<close>, \<open>DaemonInvariant\<close>: one run of the timer handler, and all reachable states.
  \<^item> \<open>QueueProducer\<close>: the contract of the BIOS's writes, their effect on the queue, and that it can
    be met. \<open>Session\<close>: BIOS and daemon together simulate a channel that loses and reorders nothing.
  \<^item> \<open>Examples\<close>: concrete inputs for the witnesses. \<open>BufferProperties\<close>, \<open>RdeProperties\<close>,
    \<open>StorerProperties\<close> and this theory: the properties.

  \<^bold>\<open>What the properties show.\<close> C1 to C5: a run of the timer handler delivers the queue; BIOS and
  daemon together hand over every entry and UE log exactly once and in order; the daemon never stops
  or leaves its memory whatever the BIOS writes; its invariants hold in every reachable state; an
  exception re-initialises the region. C6 to C16: the queue reader refines its specification and is
  complete, sound and bounded, with one kind of corrupt entry it accepts; initialization, UE and
  overflow flags; layouts. C17 to C19: the PCI handler and where its integer widths fail. C20 to
  C31: checksum, dictionary transfer, statuses, publishing, and the weak spots of the protocol checks.
  C32 to C40: path confinement, retention in the queues and on the disk, a leak when a removal
  fails, bounds, undefined behaviour and notifications of the storer.

  \<^bold>\<open>Termination.\<close> No fuel is used: the entry loop of \<open>readErrorLogs\<close> has a measure (each round
  reads at least an entry header of 6 bytes), the path iterator consumes its string, every other
  loop is structural.

  \<^bold>\<open>Parameters.\<close> libbej's decoder, nlohmann JSON, \<open>std::filesystem\<close> and output streams, the UUID
  generator and the sdbusplus object server are arguments of the definitions. The hypotheses about
  them are that they return or throw (\<open>libraries_defined\<close>, \<open>env_defined\<close>) and, for confinement,
  that the predicate in question survives calls on paths inside the base directory. C35 instantiates
  the file system with the disk of \<open>DiskModel\<close> (whose paths are compared as strings, so they are
  taken to be canonical, which entry paths are) and assumes a UUID generator that never repeats.
  The BIOS is not part of this program: what it writes is arbitrary in C3 and C4, and bound by the
  contract of \<open>QueueProducer\<close> in C2.

  \<^bold>\<open>Not modelled.\<close> The \<open>io_context\<close> and real time, opening \<^verbatim>\<open>/dev/mem\<close> and requesting the bus
  name (pure I/O at start-up), log messages, memory exhaustion, and writes of the BIOS in the middle
  of one run of the handler (between runs they are arbitrary; C9 covers any behaviour of the
  transport during a run). The checks of \<open>isValidPath\<close> are lexical, so symbolic links are outside.
\<close>

section \<open>The daemon as a whole\<close>

text \<open>
  C1: One run of the timer handler over a region whose queue holds the entries \<open>es\<close>, with or
  without a pending UE log and a pending overflow: if the command handler decodes the UE log (when
  there is one) and then the entries in order without an exception, the timer is re-armed, the
  command handler is in the state that decoding leaves, the read pointer in the region has caught
  up with the BIOS's write pointer, the BMC flags answer the UE and overflow requests and show
  \<open>ready\<close> after a completed dictionary transfer, the cached header agrees with the region, and
  the queue bytes are untouched.
\<close>

theorem tick_delivers_queue:
  assumes ok: "buffer_ok cfg mmap (pci_good cfg) (bufferInterface s)"
  defines "r \<equiv> mmap (dataInterface (bufferInterface s))"
  defines "h \<equiv> header_of_bytes r"
  assumes holds: "queue_holds cfg r es"
    and ue: "if ue_pending h
      then decodeRdeCommand cfg env (ue_log r) RdeOperationInitRequest (rdeCommandHandler s) = (Inr RdeOk, x)
      else x = rdeCommandHandler s"
    and entries: "decode_entries cfg env es x = (Inr sts, y)"
  shows "\<exists>t. readLoop cfg (pci_interface cfg) env False s = (Inr True, t) \<and> rdeCommandHandler t = y \<and>
    header_of_bytes (mmap (dataInterface (bufferInterface t))) =
      h\<lparr>bmcFlags := answered h sts, bmcReadPtr := biosWritePtr h\<rparr> \<and>
    in_sync mmap (bufferInterface t) \<and>
    queue_ring cfg (mmap (dataInterface (bufferInterface t))) = queue_ring cfg r"
proof -
  obtain t where "readLoop cfg (pci_interface cfg) env False s = (Inr True, t)"
    "rdeCommandHandler t = y"
    "becomes cfg mmap (pci_good cfg) (bufferInterface s)
      (h\<lparr>bmcFlags := answered h sts, bmcReadPtr := biosWritePtr h\<rparr>) (bufferInterface t)"
    using pci_clip.readLoop_tick [OF ok] holds ue entries
    unfolding r_def h_def region_header_def by blast
  then show ?thesis by (auto simp: becomes_def region_header_def region_queue_def r_def)
qed

theorem tick_delivers_queue_witness:
  "\<exists>t. readLoop ex_cfg (pci_interface ex_cfg) ex_env False ex_daemon = (Inr True, t) \<and>
     bmcFlags (header_of_bytes (mmap (dataInterface (bufferInterface t)))) = flag_ready \<and>
     getDictionary 1 (dictionaryManager (rdeCommandHandler t)) = Some [0xAB]"
proof -
  have ok: "buffer_ok ex_cfg mmap (pci_good ex_cfg) (bufferInterface ex_daemon)"
    by (simp add: ex_daemon_def ex_buffer_ok)
  have reg: "mmap (dataInterface (bufferInterface ex_daemon)) = ex_region"
    by (simp add: ex_daemon_def ex_buffer_region)
  have fits: "fits ex_cfg [0xAB]" by (simp add: fits_def ex_cfg_def)
  have tab: "crcTable ex_handler = calcCrcTable"
    using ex_handler_ok by (simp add: handler_ok_def handler_inv_def)
  obtain y where dec: "decode_entries ex_cfg ex_env [ex_entry] ex_handler = (Inr [RdeStopFlagReceived], y)"
    and y: "getDictionary 1 (dictionaryManager y) = Some [0xAB]"
    using message_StartAndEnd [OF fits, of 1 "crc32 [0xAB]" ex_handler]
    by (simp add: ex_entry_def ex_message_def decodeRdeCommand_def RdeMultiPartReceiveResponse_def
      bindM_def returnM_def verdict_def settle_def tab crc32_eq dm.store_laws del: updateCrc.simps)
  have h: "\<not> ue_pending ex_header" "answered ex_header [RdeStopFlagReceived] = flag_ready"
    by (simp_all add: ex_header_def init_header_def zero_header_def ue_pending_def answered_def ready_after_def)
  show ?thesis
    using tick_delivers_queue [OF ok, unfolded reg ex_region_header, OF ex_holds _, of ex_env ex_handler]
      h dec y by (auto simp: ex_daemon_def)
qed

text \<open>
  C2: Exactly once and in order, end to end. Let the daemon start up and then the BIOS and the timer
  act in any order: the BIOS appends entries that fit, raises the overflow flag and leaves UE logs,
  as the contract of the queue demands, and the timer handler runs at any time. If the commands
  taken so far decode, the command handler is in the state that decoding them once each, in the
  order they were sent, produces; the entries taken and the ones left are together the entries sent;
  and the region holds exactly the entries, and the UE log, not yet taken.
\<close>

theorem session_in_order:
  assumes "wf_config cfg" "QUEUE_REGION_SIZE cfg \<le> MEMORY_REGION_SIZE cfg"
    and "MEMORY_REGION_SIZE cfg < 2 ^ 32" "length mapped = MEMORY_REGION_SIZE cfg"
    and run: "session cfg env (snd (main_init cfg mapped f g ob)) evs s" and "channel evs = (u, q, d)"
    and "deliver cfg env d (rdeCommandHandler (main_objects cfg mapped f g ob)) = (Inr (), y)"
  shows "rdeCommandHandler s = y \<and> taken_entries d @ q = sent_entries evs \<and>
    queue_holds cfg (daemon_region s) q \<and>
    (case u of None \<Rightarrow> \<not> ue_pending (header_of_bytes (daemon_region s))
     | Some log \<Rightarrow> ue_pending (header_of_bytes (daemon_region s)) \<and> ue_log (daemon_region s) = log)"
  using session_shows [OF run main_init_shows(1,2) [OF assms(1-4)] assms(6)] assms(7)
    channel_conserves [OF assms(6)]
  by (simp add: main_init_shows(3) [OF assms(1-4)] shows_channel_def)

theorem session_in_order_witness:
  "\<exists>t. readLoop ex_cfg (pci_interface ex_cfg) ex_env False
      (bios_writes (append_bytes ex_cfg ex_entry
          (daemon_region (snd (main_init ex_cfg ex_region (0 :: nat) (0 :: nat) ([] :: string list)))))
        (snd (main_init ex_cfg ex_region 0 0 []))) = (Inr True, t) \<and>
    getDictionary 1 (dictionaryManager (rdeCommandHandler t)) = Some [0xAB] \<and>
    queue_holds ex_cfg (daemon_region t) []"
proof -
  define s0 where "s0 = snd (main_init ex_cfg ex_region (0 :: nat) (0 :: nat) ([] :: string list))"
  define r where "r = append_bytes ex_cfg ex_entry (daemon_region s0)"
  have mem: "QUEUE_REGION_SIZE ex_cfg \<le> MEMORY_REGION_SIZE ex_cfg" "MEMORY_REGION_SIZE ex_cfg < 2 ^ 32"
    "length ex_region = MEMORY_REGION_SIZE ex_cfg" by (simp_all add: ex_region_length) (simp_all add: ex_cfg_def)
  note start = main_init_shows [OF ex_wf mem, where f = "0 :: nat" and g = "0 :: nat" and
    ob = "[] :: string list", folded s0_def]
  have len: "QUEUE_REGION_SIZE ex_cfg \<le> length (daemon_region s0)"
    using start(1) by (simp add: buffer_ok_def daemon_region_def)
  have m: "max_offset ex_cfg = 24" "total_length [ex_entry] = 21" by code_simp+
  have valid: "valid_entry (max_offset ex_cfg) ex_entry" using ex_holds by (simp add: queue_holds_def Let_def)
  have app: "appended ex_cfg ex_entry (daemon_region s0) r"
    unfolding r_def by (rule append_bytes_appends [OF ex_wf len, of "[]"])
      (use start(2) valid m in \<open>simp_all add: shows_channel_def\<close>)
  have one: "session ex_cfg ex_env s0 [Append ex_entry] (bios_writes r s0)"
    using session.bios [OF session.start, of ex_cfg "Append ex_entry" s0 r] app by simp
  have fits: "fits ex_cfg [0xAB]" by (simp add: fits_def ex_cfg_def)
  have tab: "crcTable ex_handler = calcCrcTable" using ex_handler_ok by (simp add: handler_ok_def handler_inv_def)
  obtain y where del: "deliver ex_cfg ex_env [Entry ex_entry] ex_handler = (Inr (), y)"
    and y: "getDictionary 1 (dictionaryManager y) = Some [0xAB]"
    using message_StartAndEnd [OF fits, of 1 "crc32 [0xAB]" ex_handler]
    by (simp add: ex_entry_def ex_message_def decodeRdeCommand_def RdeMultiPartReceiveResponse_def
      bindM_def returnM_def verdict_def settle_def tab crc32_eq dm.store_laws del: updateCrc.simps)
  have h: "rdeCommandHandler s0 = ex_handler"
    using start(3) by (simp add: ex_handler_def main_objects_def)
  have "shows_channel ex_cfg (daemon_region (bios_writes r s0)) None [ex_entry]"
    using shows_appended [OF ex_wf len start(2) app] by simp
  then obtain t where t: "readLoop ex_cfg (pci_interface ex_cfg) ex_env False (bios_writes r s0) = (Inr True, t)"
    using shows_tick [of ex_cfg "bios_writes r s0" None "[ex_entry]" ex_env y] del h app
      buffer_ok_bios_writes [OF start(1), of r] by (auto simp: appended_def Let_def)
  from session_in_order [OF ex_wf mem session.tick [OF one t, unfolded s0_def], of None "[]" "[Entry ex_entry]" y]
  show ?thesis
    using t y del h by (auto simp: s0_def r_def main_objects_def ex_handler_def channel_def simp del: deliver.simps)
qed



text \<open>
  C4: In every state the daemon can reach from start-up, by ticks and BIOS writes in any order: the
  dictionary count is the number of available dictionaries, at most 20 log entries are kept for
  good and at most 980 others (and those only once the 20 are used), and the mapped region still
  has the size it was mapped with.
\<close>

theorem daemon_invariant:
  assumes "wf_config cfg" "34 \<le> SIZE_T_BITS cfg" "QUEUE_REGION_SIZE cfg \<le> MEMORY_REGION_SIZE cfg"
    and "MEMORY_REGION_SIZE cfg < 2 ^ 32" "length mapped = MEMORY_REGION_SIZE cfg"
    and "libraries_defined fs uuid server"
    and "daemon_reach cfg (daemon_env dec fs jl uuid server) (snd (main_init cfg mapped f g ob), True) (s, armed)"
  defines "m \<equiv> dictionaryManager (rdeCommandHandler s)" and "x \<equiv> exStorer (rdeCommandHandler s)"
  shows "fst (getDictionaryCount (rdeCommandHandler s)) = Inr (word_of_nat (card {k. getDictionary k m \<noteq> None})) \<and>
    length (logEntrySavedQueue x) \<le> 20 \<and> length (logEntryQueue x) \<le> 980 \<and>
    (logEntryQueue x \<noteq> [] \<longrightarrow> length (logEntrySavedQueue x) = 20) \<and>
    length (mmap (dataInterface (bufferInterface s))) =
      unat (regionSize (dataInterface (bufferInterface s)))"
proof -
  have "pci_daemon_ok cfg (fst (snd (main_init cfg mapped f g ob), True))"
    using main_init_ok [OF assms(1,3,4,5), of f g ob] by auto
  from reach_ok [OF assms(2,6) this assms(7)] have ok: "pci_daemon_ok cfg s" by simp
  then have "dict_inv m" "queues_ok x" "limits default_numSavedLogEntries default_numLogEntries x"
    by (simp_all add: daemon_ok_def handler_ok_def handler_inv_def storer_inv_def m_def x_def)
  then show ?thesis
    using ok by (simp add: getDictionaryCount_def getM_def dm.count_inv m_def queues_ok_def limits_def
      default_numSavedLogEntries_def default_numLogEntries_def daemon_ok_def buffer_ok_def pci_good_def)
qed

theorem daemon_invariant_witness:
  "length (logEntrySavedQueue (exStorer (rdeCommandHandler
     (snd (main_init ex_cfg ex_region (0 :: nat) (0 :: nat) ([] :: string list)))))) \<le> 20"
  using daemon_invariant [where armed = True and mapped = ex_region and dec = ex_decode and
    jl = ex_json and f = 0 and g = 0 and ob = "[]", OF ex_wf _ _ _ _ ex_libraries daemon_reach.start]
  by (simp add: ex_cfg_def ex_region_length)

text \<open>
  C5: When processing throws, at whatever point, the same run of the handler re-initialises the
  region and re-arms the timer: the region starts with the initial header (both pointers and all
  flags zero), the rest of the queue region is zero, the memory behind it is as it was, and the
  command handler keeps the state it had when the exception was thrown.
\<close>

theorem exception_reinitializes:
  assumes ok: "buffer_ok cfg mmap (pci_good cfg) (bufferInterface s)"
    and decode: "\<And>cmd type x. fst (decodeRdeCommand cfg env cmd type x) \<noteq> Inl Undefined"
    and exn: "processLogs cfg (pci_interface cfg) env s = (Inl (Exn e), t)"
  defines "h \<equiv> init_header (bmcInterfaceVersion_const cfg) (queueSize_const cfg)
    (ueRegionSize_const cfg) (magicNumber_const cfg)"
  shows "\<exists>u. readLoop cfg (pci_interface cfg) env False s = (Inr True, u) \<and>
    rdeCommandHandler u = rdeCommandHandler t \<and> cachedBufferHeader (bufferInterface u) = h \<and>
    mmap (dataInterface (bufferInterface u)) = header_to_bytes h @
      replicate (QUEUE_REGION_SIZE cfg - 48) 0 @
      drop (QUEUE_REGION_SIZE cfg) (mmap (dataInterface (bufferInterface t)))"
proof -
  have dec: "safe (\<lambda>x. True) (decodeRdeCommand cfg env cmd type)" for cmd type
    using decode by (simp add: safe_def)
  have "daemon_ok cfg mmap (pci_good cfg) (\<lambda>x. True) s" using ok by (simp add: daemon_ok_def)
  from safeD [OF pci_clip.safe_processLogs [OF dec] this exn]
  have t: "buffer_ok cfg mmap (pci_good cfg) (bufferInterface t)" by (simp add: daemon_ok_def)
  show ?thesis
    using pci_clip.readLoop_reinitializes [OF exn t] pci_clip.initializeBuffer_ok [OF t]
    by (auto simp: h_def)
qed

definition zero_daemon :: "(PciDataHandler, nat) Daemon" where
  "zero_daemon = \<lparr>bufferInterface = BufferImpl_new (PciDataHandler_new 96 (replicate 96 0)),
     rdeCommandHandler = \<lparr>flagState = RdeStateIdle, exStorer = 0, prevDictResourceId = 0,
       dictionaryManager = DictionaryManager_new, crc = 0, crcTable = []\<rparr>\<rparr>"

definition accepting_env :: "nat RdeEnv" where
  "accepting_env = \<lparr>bej_decode = ex_decode, publishJson = \<lambda>j x. (Inr True, x)\<rparr>"

theorem exception_reinitializes_witness:
  "\<exists>u. readLoop ex_cfg (pci_interface ex_cfg) accepting_env False zero_daemon = (Inr True, u) \<and>
     bmcReadPtr (cachedBufferHeader (bufferInterface u)) = 0"
proof -
  have good: "pci_good ex_cfg (PciDataHandler_new 96 (replicate 96 0))"
    by (simp add: pci_good_def PciDataHandler_new_def ex_cfg_def)
  have ok: "buffer_ok ex_cfg mmap (pci_good ex_cfg) (bufferInterface zero_daemon)"
    using ex_wf good by (simp add: buffer_ok_def BufferImpl_new_def zero_daemon_def)
      (simp add: ex_cfg_def PciDataHandler_new_def)
  have dec: "fst (decodeRdeCommand ex_cfg accepting_env cmd type x) \<noteq> Inl Undefined" for cmd type x
    using decodeRdeCommand_defined [of ex_cfg accepting_env cmd type]
    by (simp add: defined_def ex_cfg_def accepting_env_def)
  have "fst (processLogs ex_cfg (pci_interface ex_cfg) accepting_env zero_daemon) =
      Inl (Exn (QueueSizeMismatch 0 80))" by code_simp
  then obtain t where "processLogs ex_cfg (pci_interface ex_cfg) accepting_env zero_daemon =
      (Inl (Exn (QueueSizeMismatch 0 80)), t)" by (metis prod.collapse)
  from exception_reinitializes [OF ok dec this] show ?thesis
    by (auto simp: init_header_def zero_header_def)
qed

end
